(* ===== verification/Go_Base.thy ===== *)
theory Go_Base imports Main "HOL-Library.Word" "HOL-Library.List_Lexorder" "HOL-Library.Sublist" begin

text \<open>
  The prelude of the development: the parts of the Go language and of its standard library
  that the modelled code uses, and the facts about byte strings that every component shares.

  \<^item> \<open>outcome\<close>: what a call does, beside its state change. It returns, it panics (an
    out-of-range index or slice), or it never returns because it waits for a lock that is
    never released.
  \<^item> byte strings are lists of \<open>8 word\<close>; \<open>slice_to\<close>, \<open>slice_from\<close> are \<open>s[:n]\<close> and \<open>s[n:]\<close> on a
    slice whose capacity is its length, with \<open>None\<close> for the run-time panic; \<open>buf\<close> is a slice
    of a larger array, where Go lets \<open>s[lo:hi]\<close> reach past the length up to the capacity.
  \<^item> \<open>bytes_compare\<close> and \<open>has_prefix\<close> are \<open>bytes.Compare\<close> and \<open>bytes.HasPrefix\<close>.
  \<^item> \<open>rwlock\<close> is \<open>sync.RWMutex\<close> and \<open>scoped\<close> is the idiom "lock; defer unlock".
\<close>

section \<open>Outcomes of calls\<close>

type_synonym byte = "8 word"
type_synonym bytes = "8 word list"

datatype 'a outcome = Ret 'a | Panic | Blocked

named_theorems go_simps \<open>unfolding facts of the Go primitives\<close>
named_theorems op_defs \<open>definitions of the database operations\<close>

section \<open>Byte strings\<close>

fun bytes_compare :: "bytes \<Rightarrow> bytes \<Rightarrow> int" where
  "bytes_compare [] [] = 0"
| "bytes_compare [] (_ # _) = - 1"
| "bytes_compare (_ # _) [] = 1"
| "bytes_compare (x # xs) (y # ys) =
     (if x < y then - 1 else if y < x then 1 else bytes_compare xs ys)"

definition has_prefix :: "bytes \<Rightarrow> bytes \<Rightarrow> bool" where
  "has_prefix s p \<longleftrightarrow> length p \<le> length s \<and> take (length p) s = p"

definition slice_to :: "bytes \<Rightarrow> nat \<Rightarrow> bytes option" where
  "slice_to s n = (if n \<le> length s then Some (take n s) else None)"

definition slice_from :: "bytes \<Rightarrow> nat \<Rightarrow> bytes option" where
  "slice_from s n = (if n \<le> length s then Some (drop n s) else None)"

definition bytes_of :: "string \<Rightarrow> bytes" where
  "bytes_of s = map of_char s"

lemma bytes_compare_neg_iff [simp]: "bytes_compare a b < 0 \<longleftrightarrow> a < b"
  by (induction a b rule: bytes_compare.induct) auto

lemma bytes_compare_zero_iff [simp]: "bytes_compare a b = 0 \<longleftrightarrow> a = b"
  by (induction a b rule: bytes_compare.induct) auto

lemma has_prefix_iff: "has_prefix s p \<longleftrightarrow> prefix p s"
  by (metis append_eq_conv_conj append_take_drop_id has_prefix_def length_append le_add1 prefix_def)

lemma slice_to_exact [simp]: "length s = n \<Longrightarrow> slice_to s n = Some s"
  by (simp add: slice_to_def)

lemma slice_to_append [simp]: "length s = n \<Longrightarrow> slice_to (s @ t) n = Some s"
  by (simp add: slice_to_def)

lemma slice_from_append [simp]: "length s = n \<Longrightarrow> slice_from (s @ t) n = Some t"
  by (simp add: slice_from_def)

lemma slice_to_None_iff: "slice_to s n = None \<longleftrightarrow> length s < n"
  by (simp add: slice_to_def)

lemma slice_from_None_iff: "slice_from s n = None \<longleftrightarrow> length s < n"
  by (simp add: slice_from_def)

lemma slice_to_Some_iff: "slice_to s n = Some p \<longleftrightarrow> n \<le> length s \<and> p = take n s"
  by (auto simp: slice_to_def)

lemma slice_from_Some_iff: "slice_from s n = Some p \<longleftrightarrow> n \<le> length s \<and> p = drop n s"
  by (auto simp: slice_from_def)

lemma prefix_le: "prefix p s \<Longrightarrow> p \<le> (s :: bytes)"
  by (induction p s rule: list_induct2') auto

lemma unat_byte_less: "unat (x :: byte) < 256"
proof -
  have "unat x < 2 ^ LENGTH(8)" by (rule unsigned_less)
  then show ?thesis by simp
qed

lemma byte_le_255: "(x :: byte) \<le> 255"
  using unat_byte_less [of x] by (simp add: word_le_nat_alt)

lemma byte_less_succ_iff: "b \<noteq> 255 \<Longrightarrow> x < b + 1 \<longleftrightarrow> x \<le> (b :: byte)"
  using unat_byte_less [of b] by unat_arith auto

lemma byte_255_le_iff [simp]: "(255 :: byte) \<le> x \<longleftrightarrow> x = 255"
  using byte_le_255 by (auto intro: antisym)

lemma bytes_less_all_255:
  "b \<in> set k \<Longrightarrow> b \<noteq> 255 \<Longrightarrow> k < (replicate (length k) 255 :: bytes)"
  by (induction k) (auto simp: order.strict_iff_order byte_le_255)

lemma all_255_le_iff_prefix: "set k \<subseteq> {255} \<Longrightarrow> k \<le> x \<longleftrightarrow> prefix k (x :: bytes)"
proof (induction k x rule: list_induct2')
  case (4 a k b x)
  then show ?case by (auto simp: order.strict_iff_order byte_le_255)
qed auto

lemma length_bytes_of [simp]: "length (bytes_of s) = length s"
  by (simp add: bytes_of_def)

section \<open>Slices of a larger array\<close>

text \<open>
  \<open>buffer[:n]\<close> of an array \<open>buffer\<close>: the length is \<open>n\<close>, the capacity the array's size. An
  index and a slice without upper bound are checked against the length, a slice with an
  upper bound against the capacity only.
\<close>

record buf =
  arr :: bytes
  len :: nat

definition contents :: "buf \<Rightarrow> bytes" where
  "contents b = take (len b) (arr b)"

definition index_at :: "buf \<Rightarrow> nat \<Rightarrow> byte option" where
  "index_at b i = (if i < len b then Some (arr b ! i) else None)"

definition slice_range :: "buf \<Rightarrow> nat \<Rightarrow> nat \<Rightarrow> bytes option" where
  "slice_range b lo hi =
     (if lo \<le> hi \<and> hi \<le> length (arr b) then Some (take (hi - lo) (drop lo (arr b))) else None)"

definition slice_tail :: "buf \<Rightarrow> nat \<Rightarrow> bytes option" where
  "slice_tail b lo =
     (if lo \<le> len b then Some (take (len b - lo) (drop lo (arr b))) else None)"

definition buffer_of :: "nat \<Rightarrow> bytes \<Rightarrow> buf" where
  "buffer_of cap msg = \<lparr>arr = take cap msg @ replicate (cap - length msg) 0,
     len = min cap (length msg)\<rparr>"

lemma len_buffer_of [simp]: "len (buffer_of cap msg) = min cap (length msg)"
  by (simp add: buffer_of_def)

lemma length_arr_buffer_of [simp]: "length (arr (buffer_of cap msg)) = cap"
  by (simp add: buffer_of_def)

lemma contents_buffer_of: "length msg \<le> cap \<Longrightarrow> contents (buffer_of cap msg) = msg"
  by (simp add: contents_def buffer_of_def)

lemma index_at_buffer_of:
  "length msg \<le> cap \<Longrightarrow>
     index_at (buffer_of cap msg) i = (if i < length msg then Some (msg ! i) else None)"
  by (simp add: index_at_def buffer_of_def nth_append)

lemma slice_range_buffer_of:
  "length msg \<le> cap \<Longrightarrow> lo \<le> hi \<Longrightarrow> hi \<le> length msg \<Longrightarrow>
     slice_range (buffer_of cap msg) lo hi = Some (take (hi - lo) (drop lo msg))"
  by (simp add: slice_range_def buffer_of_def)

lemma slice_tail_buffer_of:
  "length msg \<le> cap \<Longrightarrow> slice_tail (buffer_of cap msg) lo =
     (if lo \<le> length msg then Some (drop lo msg) else None)"
  by (simp add: slice_tail_def buffer_of_def)

lemma slice_range_total:
  "lo \<le> hi \<Longrightarrow> hi \<le> length (arr b) \<Longrightarrow>
     \<exists>s. slice_range b lo hi = Some s \<and> length s = hi - lo"
  by (simp add: slice_range_def)

lemma slice_range_length: "slice_range b lo hi = Some s \<Longrightarrow> length s = hi - lo"
  by (auto simp: slice_range_def split: if_splits)

end
