(* ===== verification/Ordered_Entries.thy ===== *)
theory Ordered_Entries imports Go_Base begin

text \<open>
  Key-ordered tables. The rows of a key-value store, in the order its iterator yields them,
  are a list of key/value pairs with strictly increasing keys; such a list is the canonical
  form of a finite map. This theory has the insertion and deletion of a row, the restriction
  to a key range, and the abstract, order-free specification of an ordered search: the least
  key at or above a bound, the greatest key below one.
\<close>

section \<open>Rows in key order\<close>

type_synonym entries = "(bytes \<times> bytes) list"

abbreviation keys_of :: "entries \<Rightarrow> bytes list" where
  "keys_of xs \<equiv> map fst xs"

definition ordered :: "entries \<Rightarrow> bool" where
  "ordered xs \<longleftrightarrow> sorted_wrt (<) (keys_of xs)"

fun put_entry :: "bytes \<Rightarrow> bytes \<Rightarrow> entries \<Rightarrow> entries" where
  "put_entry k v [] = [(k, v)]"
| "put_entry k v ((a, b) # xs) =
     (if k < a then (k, v) # (a, b) # xs
      else if k = a then (k, v) # xs else (a, b) # put_entry k v xs)"

definition del_entry :: "bytes \<Rightarrow> entries \<Rightarrow> entries" where
  "del_entry k xs = filter (\<lambda>(a, _). a \<noteq> k) xs"

definition in_range :: "bytes option \<Rightarrow> bytes option \<Rightarrow> bytes \<Rightarrow> bool" where
  "in_range s e k \<longleftrightarrow>
     (case s of None \<Rightarrow> True | Some l \<Rightarrow> l \<le> k) \<and> (case e of None \<Rightarrow> True | Some h \<Rightarrow> k < h)"

definition range_entries :: "bytes option \<Rightarrow> bytes option \<Rightarrow> entries \<Rightarrow> entries" where
  "range_entries s e xs = filter (\<lambda>(k, _). in_range s e k) xs"

lemma ordered_Nil [simp]: "ordered []"
  by (simp add: ordered_def)

lemma ordered_Cons [simp]:
  "ordered ((k, v) # xs) \<longleftrightarrow> (\<forall>x \<in> set xs. k < fst x) \<and> ordered xs"
  by (auto simp: ordered_def)

lemma ordered_append:
  "ordered (xs @ ys) \<longleftrightarrow>
     ordered xs \<and> ordered ys \<and> (\<forall>x \<in> set xs. \<forall>y \<in> set ys. fst x < fst y)"
  by (auto simp: ordered_def sorted_wrt_append)

lemma ordered_filter: "ordered xs \<Longrightarrow> ordered (filter P xs)"
  by (induction xs) auto

lemma ordered_distinct: "ordered xs \<Longrightarrow> distinct (keys_of xs)"
  by (simp add: ordered_def strict_sorted_iff)

lemma ordered_range_entries: "ordered xs \<Longrightarrow> ordered (range_entries s e xs)"
  by (simp add: range_entries_def ordered_filter)

lemma ordered_del_entry: "ordered xs \<Longrightarrow> ordered (del_entry k xs)"
  by (simp add: del_entry_def ordered_filter)

lemma set_keys_put_entry: "fst ` set (put_entry k v xs) = insert k (fst ` set xs)"
  by (induction k v xs rule: put_entry.induct) auto

lemma ordered_put_entry: "ordered xs \<Longrightarrow> ordered (put_entry k v xs)"
proof (induction k v xs rule: put_entry.induct)
  case (2 k v a b xs)
  then have less: "\<forall>x \<in> fst ` set xs. a < x" and rest: "ordered xs" by auto
  show ?case
  proof (cases "k = a \<or> k < a")
    case True
    then show ?thesis using less rest by (auto intro: less_trans)
  next
    case False
    then have "\<forall>x \<in> fst ` set (put_entry k v xs). a < x"
      using less by (auto simp: set_keys_put_entry)
    with False 2 show ?thesis by auto
  qed
qed simp

lemma put_entry_idem [simp]: "put_entry k v (put_entry k v xs) = put_entry k v xs"
  by (induction k v xs rule: put_entry.induct) auto

lemma map_of_put_entry: "ordered xs \<Longrightarrow> map_of (put_entry k v xs) = (map_of xs)(k \<mapsto> v)"
  by (induction k v xs rule: put_entry.induct) (auto simp: fun_eq_iff)

lemma map_of_del_entry: "map_of (del_entry k xs) = (map_of xs)(k := None)"
  by (induction xs) (auto simp: del_entry_def fun_eq_iff)

lemma map_of_filter_key:
  "map_of (filter (\<lambda>(k, _). P k) xs) k = (if P k then map_of xs k else None)"
  by (induction xs) auto

lemma map_of_range_entries:
  "map_of (range_entries s e xs) k = (if in_range s e k then map_of xs k else None)"
  by (simp add: range_entries_def map_of_filter_key)

lemma dom_map_of_keys: "dom (map_of xs) = set (keys_of xs)"
  by (simp add: dom_map_of_conv_image_fst)

lemma map_of_eq_Some: "ordered xs \<Longrightarrow> map_of xs k = Some v \<longleftrightarrow> (k, v) \<in> set xs"
  by (simp add: ordered_distinct)

text \<open>Two ordered row lists with the same map are the same list.\<close>

lemma ordered_rows: "ordered xs \<Longrightarrow> xs = map (\<lambda>k. (k, the (map_of xs k))) (keys_of xs)"
  by (rule sym, simp add: comp_def, rule map_idI) (auto simp: map_of_eq_Some [symmetric])

lemma ordered_unique:
  assumes "ordered xs" and "ordered ys" and eq: "map_of xs = map_of ys"
  shows "xs = ys"
proof -
  from eq have "set (keys_of xs) = set (keys_of ys)"
    by (simp only: dom_map_of_keys [symmetric])
  with assms(1,2) have "keys_of xs = keys_of ys"
    unfolding ordered_def by (intro strict_sorted_equal)
  with eq have "map (\<lambda>k. (k, the (map_of xs k))) (keys_of xs) =
      map (\<lambda>k. (k, the (map_of ys k))) (keys_of ys)" by simp
  then show ?thesis
    using ordered_rows [OF assms(1)] ordered_rows [OF assms(2)] by argo
qed

section \<open>The abstract search\<close>

text \<open>
  The specification of a search in a table, over the finite map of its rows: the row with the
  least (greatest) key that satisfies a condition.
\<close>

definition first_where :: "(bytes \<Rightarrow> bool) \<Rightarrow> (bytes \<rightharpoonup> bytes) \<Rightarrow> (bytes \<times> bytes) option" where
  "first_where P M =
     (let S = {k \<in> dom M. P k} in if S = {} then None else Some (Min S, the (M (Min S))))"

definition last_where :: "(bytes \<Rightarrow> bool) \<Rightarrow> (bytes \<rightharpoonup> bytes) \<Rightarrow> (bytes \<times> bytes) option" where
  "last_where P M =
     (let S = {k \<in> dom M. P k} in if S = {} then None else Some (Max S, the (M (Max S))))"

fun head_row :: "entries \<Rightarrow> (bytes \<times> bytes) option" where
  "head_row [] = None"
| "head_row (x # _) = Some x"

lemma head_row_None_iff [simp]: "head_row xs = None \<longleftrightarrow> xs = []"
  by (cases xs) auto

lemma ordered_filter_ConsD:
  assumes "ordered xs" and "filter (\<lambda>(k, _). P k) xs = (k, v) # ys"
  shows "map_of xs k = Some v" "P k" "\<And>x. x \<in> set (keys_of xs) \<Longrightarrow> P x \<Longrightarrow> k \<le> x"
proof -
  let ?ys = "filter (\<lambda>(k, _). P k) xs"
  have "(k, v) \<in> set ?ys" using assms(2) by simp
  then show "map_of xs k = Some v" "P k" using assms(1) by (auto simp: map_of_eq_Some)
  have "ordered ((k, v) # ys)" using assms by (metis ordered_filter)
  then show "k \<le> x" if "x \<in> set (keys_of xs)" "P x" for x
  proof -
    from that have "x \<in> fst ` set ?ys" by force
    with assms(2) \<open>ordered ((k, v) # ys)\<close> show ?thesis by (auto simp: less_imp_le)
  qed
qed

lemma first_where_rows:
  assumes "ordered xs"
  shows "first_where P (map_of xs) = head_row (filter (\<lambda>(k, _). P k) xs)"
proof (cases "filter (\<lambda>(k, _). P k) xs")
  case Nil
  then have "{k \<in> dom (map_of xs). P k} = {}"
    by (force simp: dom_map_of_keys filter_empty_conv)
  with Nil show ?thesis by (simp add: first_where_def)
next
  case (Cons x ys)
  obtain k v where x: "x = (k, v)" by (cases x)
  note kv = ordered_filter_ConsD [OF assms Cons [unfolded x]]
  have "k \<in> {k \<in> dom (map_of xs). P k}" using kv(1,2) by auto
  moreover have "finite {k \<in> dom (map_of xs). P k}" by (simp add: finite_dom_map_of)
  ultimately have "Min {k \<in> dom (map_of xs). P k} = k"
    using kv(3) by (intro Min_eqI) (auto simp: dom_map_of_keys simp del: set_map)
  with Cons x kv(1) \<open>k \<in> _\<close> show ?thesis by (auto simp: first_where_def Let_def)
qed

lemma ordered_last:
  assumes "ordered xs" and "rev (filter (\<lambda>(k, _). P k) xs) = (k, v) # ys"
  shows "map_of xs k = Some v" "P k" "\<And>x. x \<in> set (keys_of xs) \<Longrightarrow> P x \<Longrightarrow> x \<le> k"
proof -
  have eq: "filter (\<lambda>(k, _). P k) xs = rev ys @ [(k, v)]"
    using assms(2) by (simp add: rev_eq_Cons_iff)
  then have "(k, v) \<in> set (filter (\<lambda>(k, _). P k) xs)" by simp
  then show "map_of xs k = Some v" "P k" using assms(1) by (auto simp: map_of_eq_Some)
  have "ordered (rev ys @ [(k, v)])" using assms(1) eq by (metis ordered_filter)
  then show "x \<le> k" if "x \<in> set (keys_of xs)" "P x" for x
  proof -
    from that have "x \<in> fst ` set (filter (\<lambda>(k, _). P k) xs)" by force
    with eq \<open>ordered (rev ys @ [(k, v)])\<close> show ?thesis
      by (auto simp: ordered_append less_imp_le)
  qed
qed

lemma last_where_rows:
  assumes "ordered xs"
  shows "last_where P (map_of xs) = head_row (rev (filter (\<lambda>(k, _). P k) xs))"
proof (cases "rev (filter (\<lambda>(k, _). P k) xs)")
  case Nil
  then have "{k \<in> dom (map_of xs). P k} = {}"
    by (force simp: dom_map_of_keys filter_empty_conv)
  with Nil show ?thesis by (simp add: last_where_def)
next
  case (Cons x ys)
  obtain k v where x: "x = (k, v)" by (cases x)
  note kv = ordered_last [OF assms Cons [unfolded x]]
  have "k \<in> {k \<in> dom (map_of xs). P k}" using kv(1,2) by auto
  moreover have "finite {k \<in> dom (map_of xs). P k}" by (simp add: finite_dom_map_of)
  ultimately have "Max {k \<in> dom (map_of xs). P k} = k"
    using kv(3) by (intro Max_eqI) (auto simp: dom_map_of_keys simp del: set_map)
  with Cons x kv(1) \<open>k \<in> _\<close> show ?thesis by (auto simp: last_where_def Let_def)
qed

text \<open>What the abstract search returns, without minimum and maximum.\<close>

lemma first_where_None_iff: "first_where P M = None \<longleftrightarrow> (\<forall>x \<in> dom M. \<not> P x)"
  by (auto simp: first_where_def Let_def)

lemma first_where_Some_iff:
  assumes "finite (dom M)"
  shows "first_where P M = Some (k, v) \<longleftrightarrow>
    M k = Some v \<and> P k \<and> (\<forall>x \<in> dom M. P x \<longrightarrow> k \<le> x)"
proof -
  let ?S = "{x \<in> dom M. P x}"
  have fin: "finite ?S" using assms by simp
  show ?thesis
  proof (cases "?S = {}")
    case False
    from fin False have min: "Min ?S \<in> ?S" by (rule Min_in)
    have least: "\<And>x. x \<in> ?S \<Longrightarrow> Min ?S \<le> x" using fin by simp
    have "k = Min ?S" if "M k = Some v" "P k" "\<forall>x \<in> dom M. P x \<longrightarrow> k \<le> x"
      using that min least [of k] by (intro antisym) auto
    then show ?thesis using False min least by (auto simp: first_where_def Let_def)
  qed (auto simp: first_where_def Let_def)
qed

lemma last_where_None_iff: "last_where P M = None \<longleftrightarrow> (\<forall>x \<in> dom M. \<not> P x)"
  by (auto simp: last_where_def Let_def)

lemma last_where_Some_iff:
  assumes "finite (dom M)"
  shows "last_where P M = Some (k, v) \<longleftrightarrow>
    M k = Some v \<and> P k \<and> (\<forall>x \<in> dom M. P x \<longrightarrow> x \<le> k)"
proof -
  let ?S = "{x \<in> dom M. P x}"
  have fin: "finite ?S" using assms by simp
  show ?thesis
  proof (cases "?S = {}")
    case False
    from fin False have max: "Max ?S \<in> ?S" by (rule Max_in)
    have greatest: "\<And>x. x \<in> ?S \<Longrightarrow> x \<le> Max ?S" using fin by simp
    have "k = Max ?S" if "M k = Some v" "P k" "\<forall>x \<in> dom M. P x \<longrightarrow> x \<le> k"
      using that max greatest [of k] by (intro antisym) auto
    then show ?thesis using False max greatest by (auto simp: last_where_def Let_def)
  qed (auto simp: last_where_def Let_def)
qed

text \<open>The keys with one prefix are an interval, so the search for a prefix is a search from
  the prefix upwards, with one test.\<close>

lemma prefix_convex: "prefix k z \<Longrightarrow> k \<le> y \<Longrightarrow> y \<le> z \<Longrightarrow> prefix k (y :: bytes)"
proof (induction k y arbitrary: z rule: list_induct2')
  case (2 x xs)
  then show ?case by simp
next
  case (4 x xs y ys)
  then show ?case by (cases z) auto
qed auto

lemma first_where_prefix:
  assumes "finite (dom M)"
  shows "first_where (prefix k) M =
    (case first_where ((\<le>) k) M of
       None \<Rightarrow> None
     | Some (x, v) \<Rightarrow> if prefix k x then Some (x, v) else None)"
proof (cases "first_where ((\<le>) k) M")
  case None
  then have "first_where (prefix k) M = None"
    using prefix_le [of k] by (auto simp: first_where_None_iff)
  with None show ?thesis by simp
next
  case (Some p)
  obtain x v where p: "p = (x, v)" by (cases p)
  with Some have x: "M x = Some v" "k \<le> x" "\<And>y. y \<in> dom M \<Longrightarrow> k \<le> y \<Longrightarrow> x \<le> y"
    by (auto simp: first_where_Some_iff [OF assms])
  have "first_where (prefix k) M = (if prefix k x then Some (x, v) else None)"
  proof (cases "prefix k x")
    case True
    then show ?thesis
      using x prefix_le [of k] by (auto simp: first_where_Some_iff [OF assms])
  next
    case False
    then have "\<not> prefix k y" if "y \<in> dom M" for y
      using prefix_convex [of k y x] x(2) x(3) [OF that] prefix_le [of k y] by blast
    with False show ?thesis by (simp add: first_where_None_iff)
  qed
  with Some p show ?thesis by simp
qed

text \<open>Splitting the rows at a key that is present.\<close>

lemma filter_from_present:
  "ordered xs \<Longrightarrow> map_of xs k = Some v \<Longrightarrow>
     filter (\<lambda>(x, _). k \<le> x) xs = (k, v) # filter (\<lambda>(x, _). k < x) xs"
proof (induction xs)
  case (Cons y ys)
  obtain a b where y: "y = (a, b)" by (cases y)
  show ?case
  proof (cases "a = k")
    case True
    with Cons.prems y have "\<forall>x \<in> set ys. k < fst x" and "b = v" by auto
    then have "filter (\<lambda>(x, _). k \<le> x) ys = ys" "filter (\<lambda>(x, _). k < x) ys = ys"
      by (auto simp: filter_id_conv less_imp_le)
    with True y \<open>b = v\<close> show ?thesis by simp
  next
    case False
    with Cons.prems y have "map_of ys k = Some v" by simp
    then have "(k, v) \<in> set ys" by (rule map_of_SomeD)
    with Cons.prems y have "a < k" by auto
    with Cons y \<open>map_of ys k = Some v\<close> show ?thesis by (auto simp: not_le not_less less_imp_le)
  qed
qed simp

lemma filter_from_present_and:
  assumes "ordered xs" and "map_of xs k = Some v" and "P k"
  shows "filter (\<lambda>(x, _). k \<le> x \<and> P x) xs = (k, v) # filter (\<lambda>(x, _). k < x \<and> P x) xs"
proof -
  have "filter (\<lambda>(x, _). P x) (filter (\<lambda>(x, _). k \<le> x) xs) =
      filter (\<lambda>(x, _). P x) ((k, v) # filter (\<lambda>(x, _). k < x) xs)"
    by (simp only: filter_from_present [OF assms(1,2)])
  then show ?thesis using assms(3) by (simp add: split_def conj_commute)
qed

lemma filter_from_absent:
  "map_of xs (k :: bytes) = None \<Longrightarrow> filter (\<lambda>(x, _). k \<le> x) xs = filter (\<lambda>(x, _). k < x) xs"
  by (rule filter_cong) (auto simp: map_of_eq_None_iff image_iff order.order_iff_strict)

lemma ordered_split_at:
  assumes "ordered xs" and "i < length xs"
  shows "filter (\<lambda>(x, _). fst (xs ! i) \<le> x) xs = drop i xs"
    and "filter (\<lambda>(x, _). x < fst (xs ! i)) xs = take i xs"
proof -
  let ?k = "fst (xs ! i)"
  have ord: "ordered (take i xs @ xs ! i # drop (Suc i) xs)"
    using assms by (simp add: id_take_nth_drop [symmetric])
  then have lo: "\<forall>x \<in> set (take i xs). fst x < ?k" by (auto simp: ordered_append)
  have hi: "\<forall>x \<in> set (drop i xs). ?k \<le> fst x"
    using ord assms(2) by (cases "xs ! i") (auto simp: ordered_append Cons_nth_drop_Suc [symmetric] less_imp_le)
  have "filter P xs = filter P (take i xs) @ filter P (drop i xs)" for P
    by (metis append_take_drop_id filter_append)
  moreover have "filter (\<lambda>(x, _). ?k \<le> x) (take i xs) = []"
    "filter (\<lambda>(x, _). ?k \<le> x) (drop i xs) = drop i xs"
    "filter (\<lambda>(x, _). x < ?k) (take i xs) = take i xs"
    "filter (\<lambda>(x, _). x < ?k) (drop i xs) = []"
    using lo hi by (auto simp: filter_empty_conv filter_id_conv)
  ultimately show "filter (\<lambda>(x, _). ?k \<le> x) xs = drop i xs"
    and "filter (\<lambda>(x, _). x < ?k) xs = take i xs" by simp_all
qed

end
