(* ===== verification/Store_Api.thy ===== *)
theory Store_Api imports Ordered_Entries begin

text \<open>
  The key-value store under the application. The Cosmos SDK's \<open>CommitMultiStore\<close> and
  \<open>CacheMultiStore\<close> are not code of the repository, so they are a parameter of the model: a
  record \<open>store_api\<close> of the operations the repository calls, over an arbitrary type \<open>'ms\<close> of
  commit multistores and \<open>'cs\<close> of cache multistores. The locale \<open>multistore\<close> states the
  documented behaviour the code relies on:
  \<^item> an iterator over \<open>[start, end)\<close> yields the rows of the range in ascending key order, a
    reverse iterator in descending order, over a view fixed when it is created (the SDK allows
    writes to a cached store while an iterator is open);
  \<^item> a cached store reads through to its parent, its writes and deletions are visible through
    it at once, and \<open>Write\<close> makes them the parent's and leaves the cached store empty;
  \<^item> \<open>PrefixEndBytes k\<close> ends the range of the keys with prefix \<open>k\<close>.
  \<open>ms_rows\<close> and \<open>cs_rows\<close> are the rows of a named store, in key order: the abstraction in
  which the properties are stated. \<open>journal_api\<close> is a store that satisfies the laws, a journal
  of writes; it is the instance at which the witnesses evaluate.
\<close>

section \<open>The operations and their laws\<close>

record ('ms, 'cs) store_api =
  CacheMultiStore :: "'ms \<Rightarrow> 'cs"
  ms_Iterator :: "'ms \<Rightarrow> string \<Rightarrow> bytes option \<Rightarrow> bytes option \<Rightarrow> entries"
  ms_ReverseIterator :: "'ms \<Rightarrow> string \<Rightarrow> bytes option \<Rightarrow> bytes option \<Rightarrow> entries"
  ms_Has :: "'ms \<Rightarrow> string \<Rightarrow> bytes \<Rightarrow> bool"
  ms_Get :: "'ms \<Rightarrow> string \<Rightarrow> bytes \<Rightarrow> bytes"
  ms_Set :: "'ms \<Rightarrow> string \<Rightarrow> bytes \<Rightarrow> bytes \<Rightarrow> 'ms"
  cs_Iterator :: "'ms \<times> 'cs \<Rightarrow> string \<Rightarrow> bytes option \<Rightarrow> bytes option \<Rightarrow> entries"
  cs_ReverseIterator :: "'ms \<times> 'cs \<Rightarrow> string \<Rightarrow> bytes option \<Rightarrow> bytes option \<Rightarrow> entries"
  cs_Has :: "'ms \<times> 'cs \<Rightarrow> string \<Rightarrow> bytes \<Rightarrow> bool"
  cs_Set :: "'cs \<Rightarrow> string \<Rightarrow> bytes \<Rightarrow> bytes \<Rightarrow> 'cs"
  cs_Delete :: "'cs \<Rightarrow> string \<Rightarrow> bytes \<Rightarrow> 'cs"
  cs_Write :: "'ms \<times> 'cs \<Rightarrow> 'ms \<times> 'cs"
  PrefixEndBytes :: "bytes \<Rightarrow> bytes option"

text \<open>What reading a store promises, for a committed and for a cached store alike.\<close>

locale kv_reader =
  fixes rows :: "'s \<Rightarrow> string \<Rightarrow> entries"
    and iterator :: "'s \<Rightarrow> string \<Rightarrow> bytes option \<Rightarrow> bytes option \<Rightarrow> entries"
    and reverse_iterator :: "'s \<Rightarrow> string \<Rightarrow> bytes option \<Rightarrow> bytes option \<Rightarrow> entries"
    and has :: "'s \<Rightarrow> string \<Rightarrow> bytes \<Rightarrow> bool"
  assumes rows_ordered: "ordered (rows s n)"
    and iterator_rows: "iterator s n lo hi = range_entries lo hi (rows s n)"
    and reverse_rows: "reverse_iterator s n lo hi = rev (range_entries lo hi (rows s n))"
    and has_rows: "has s n k \<longleftrightarrow> map_of (rows s n) k \<noteq> None"
begin

lemma iterator_all: "iterator s n None None = rows s n"
  by (simp add: iterator_rows range_entries_def in_range_def)

lemma reverse_all: "reverse_iterator s n None None = rev (rows s n)"
  by (simp add: reverse_rows range_entries_def in_range_def)

lemma iterator_from: "iterator s n (Some k) None = filter (\<lambda>(x, _). k \<le> x) (rows s n)"
  by (simp add: iterator_rows range_entries_def in_range_def)

lemma reverse_below:
  "reverse_iterator s n None (Some k) = rev (filter (\<lambda>(x, _). x < k) (rows s n))"
  by (simp add: reverse_rows range_entries_def in_range_def)

lemma iterator_first: "head_row (iterator s n (Some k) None) = first_where ((\<le>) k) (map_of (rows s n))"
  by (simp add: iterator_from first_where_rows [OF rows_ordered])

lemma iterator_hd: "head_row (iterator s n None None) = first_where (\<lambda>_. True) (map_of (rows s n))"
  by (simp add: iterator_all first_where_rows [OF rows_ordered])

lemma reverse_hd:
  "head_row (reverse_iterator s n None None) = last_where (\<lambda>_. True) (map_of (rows s n))"
  by (simp add: reverse_all last_where_rows [OF rows_ordered])

lemma reverse_below_hd:
  "head_row (reverse_iterator s n None (Some k)) = last_where (\<lambda>x. x < k) (map_of (rows s n))"
  by (simp add: reverse_below last_where_rows [OF rows_ordered])

end

locale multistore =
  committed: kv_reader ms_rows "ms_Iterator api" "ms_ReverseIterator api" "ms_Has api" +
  cached: kv_reader cs_rows "cs_Iterator api" "cs_ReverseIterator api" "cs_Has api"
  for api :: "('ms, 'cs) store_api"
    and ms_rows :: "'ms \<Rightarrow> string \<Rightarrow> entries"
    and cs_rows :: "'ms \<times> 'cs \<Rightarrow> string \<Rightarrow> entries" +
  assumes get_rows: "map_of (ms_rows m n) k = Some v \<Longrightarrow> ms_Get api m n k = v"
    and set_rows: "ms_rows (ms_Set api m n k v) n' =
      (if n' = n then put_entry k v (ms_rows m n') else ms_rows m n')"
    and fresh_rows: "cs_rows (m', CacheMultiStore api m) n = ms_rows m' n"
    and cache_set_rows: "cs_rows (m, cs_Set api c n k v) n' =
      (if n' = n then put_entry k v (cs_rows (m, c) n') else cs_rows (m, c) n')"
    and cache_delete_rows: "cs_rows (m, cs_Delete api c n k) n' =
      (if n' = n then del_entry k (cs_rows (m, c) n') else cs_rows (m, c) n')"
    and write_rows: "ms_rows (fst (cs_Write api (m, c))) n = cs_rows (m, c) n"
    and written_rows: "cs_rows (m', snd (cs_Write api (m, c))) n = ms_rows m' n"
    and prefix_end: "in_range (Some k) (PrefixEndBytes api k) x \<longleftrightarrow> prefix k x"
begin

lemma write_clean: "cs_rows (cs_Write api (m, c)) n = ms_rows (fst (cs_Write api (m, c))) n"
  using written_rows [of "fst (cs_Write api (m, c))" m c n] by simp

lemma iterator_prefix:
  "ms_Iterator api m n (Some k) (PrefixEndBytes api k) = filter (\<lambda>(x, _). prefix k x) (ms_rows m n)"
  "cs_Iterator api mc n (Some k) (PrefixEndBytes api k) = filter (\<lambda>(x, _). prefix k x) (cs_rows mc n)"
  "cs_ReverseIterator api mc n (Some k) (PrefixEndBytes api k) =
     rev (filter (\<lambda>(x, _). prefix k x) (cs_rows mc n))"
  by (simp_all add: committed.iterator_rows cached.iterator_rows cached.reverse_rows
      range_entries_def prefix_end)

lemma prefix_end_None:
  assumes "PrefixEndBytes api k = None" and "b \<in> set k"
  shows "b = 255"
proof (rule ccontr)
  assume ne: "b \<noteq> 255"
  have "k < replicate (length k) 255"
    using assms(2) ne by (rule bytes_less_all_255)
  then have "in_range (Some k) None (replicate (length k) 255)"
    by (simp add: in_range_def)
  then have "prefix k (replicate (length k) 255)"
    using prefix_end [of k] assms(1) by simp
  then have "k = replicate (length k) 255"
    by (metis length_replicate not_equal_is_parallel parallelE)
  then show False using assms(2) ne by (metis in_set_replicate)
qed

lemma prefix_end_all_255:
  assumes "set k \<subseteq> {255}"
  shows "PrefixEndBytes api k = None"
proof (cases "PrefixEndBytes api k")
  case (Some e)
  have "k < e" using prefix_end [of k k] Some by (simp add: in_range_def)
  then have "prefix k e" using all_255_le_iff_prefix [OF assms, of e] by auto
  then show ?thesis using prefix_end [of k e] Some by (simp add: in_range_def)
qed

lemma prefix_end_None_iff: "PrefixEndBytes api k = None \<longleftrightarrow> set k \<subseteq> {255}"
  using prefix_end_None prefix_end_all_255 by blast

text \<open>Past the end of a prefix come the greater keys without it.\<close>

lemma iterator_past_prefix:
  assumes "PrefixEndBytes api k \<noteq> None"
  shows "ms_Iterator api m n (PrefixEndBytes api k) None =
      filter (\<lambda>(x, _). k < x \<and> \<not> prefix k x) (ms_rows m n)"
    and "cs_Iterator api mc n (PrefixEndBytes api k) None =
      filter (\<lambda>(x, _). k < x \<and> \<not> prefix k x) (cs_rows mc n)"
proof -
  obtain e where e: "PrefixEndBytes api k = Some e" using assms by blast
  have "e \<le> x \<longleftrightarrow> k < x \<and> \<not> prefix k x" for x
    using prefix_end [of k x] prefix_end [of k k] e
    by (auto simp: in_range_def not_le less_imp_le)
  then show "ms_Iterator api m n (PrefixEndBytes api k) None =
      filter (\<lambda>(x, _). k < x \<and> \<not> prefix k x) (ms_rows m n)"
    and "cs_Iterator api mc n (PrefixEndBytes api k) None =
      filter (\<lambda>(x, _). k < x \<and> \<not> prefix k x) (cs_rows mc n)"
    by (simp_all add: e committed.iterator_from cached.iterator_from)
qed

end

section \<open>A store that satisfies the laws\<close>

text \<open>
  A commit multistore is the journal of its writes, newest first (\<open>None\<close> for a deletion); a
  cache multistore is the journal of the writes it holds back.
\<close>

type_synonym journal = "(string \<times> bytes \<times> bytes option) list"

fun replay :: "journal \<Rightarrow> string \<Rightarrow> entries" where
  "replay [] n = []"
| "replay ((n', k, w) # j) n =
     (if n' = n
      then (case w of Some v \<Rightarrow> put_entry k v (replay j n) | None \<Rightarrow> del_entry k (replay j n))
      else replay j n)"

fun successor :: "bytes \<Rightarrow> bytes option" where
  "successor [] = None"
| "successor (b # bs) =
     (case successor bs of
        Some e \<Rightarrow> Some (b # e)
      | None \<Rightarrow> if b = 255 then None else Some [b + 1])"

definition journal_rows :: "journal \<times> journal \<Rightarrow> string \<Rightarrow> entries" where
  "journal_rows mc n = replay (snd mc @ fst mc) n"

definition journal_api :: "(journal, journal) store_api" where
  "journal_api = \<lparr>
     CacheMultiStore = (\<lambda>_. []),
     ms_Iterator = (\<lambda>m n lo hi. range_entries lo hi (replay m n)),
     ms_ReverseIterator = (\<lambda>m n lo hi. rev (range_entries lo hi (replay m n))),
     ms_Has = (\<lambda>m n k. map_of (replay m n) k \<noteq> None),
     ms_Get = (\<lambda>m n k. case map_of (replay m n) k of None \<Rightarrow> [] | Some v \<Rightarrow> v),
     ms_Set = (\<lambda>m n k v. (n, k, Some v) # m),
     cs_Iterator = (\<lambda>mc n lo hi. range_entries lo hi (journal_rows mc n)),
     cs_ReverseIterator = (\<lambda>mc n lo hi. rev (range_entries lo hi (journal_rows mc n))),
     cs_Has = (\<lambda>mc n k. map_of (journal_rows mc n) k \<noteq> None),
     cs_Set = (\<lambda>c n k v. (n, k, Some v) # c),
     cs_Delete = (\<lambda>c n k. (n, k, None) # c),
     cs_Write = (\<lambda>(m, c). (c @ m, [])),
     PrefixEndBytes = successor\<rparr>"

lemma ordered_replay: "ordered (replay j n)"
  by (induction j n rule: replay.induct)
     (auto simp: ordered_put_entry ordered_del_entry split: option.split)

lemma successor_None: "successor k = None \<longleftrightarrow> set k \<subseteq> {255}"
  by (induction k) (auto split: option.splits if_splits)

lemma successor_Some: "successor k = Some e \<Longrightarrow> k \<le> x \<and> x < e \<longleftrightarrow> prefix k x"
proof (induction k arbitrary: e x)
  case (Cons b k)
  show ?case
  proof (cases "successor k")
    case None
    with Cons.prems have "b \<noteq> 255" and e: "e = [b + 1]" by (auto split: if_splits)
    moreover have "set k \<subseteq> {255}" using None by (simp add: successor_None)
    ultimately show ?thesis
      by (cases x) (auto simp: byte_less_succ_iff all_255_le_iff_prefix)
  next
    case (Some e')
    with Cons.prems have "e = b # e'" by simp
    with Cons.IH [OF Some, of "tl x"] show ?thesis by (cases x) auto
  qed
qed simp

interpretation journal: multistore journal_api replay journal_rows
proof unfold_locales
  show "in_range (Some k) (PrefixEndBytes journal_api k) x \<longleftrightarrow> prefix k x" for k x
  proof (cases "successor k")
    case None
    then show ?thesis
      by (simp add: journal_api_def in_range_def all_255_le_iff_prefix successor_None [THEN iffD1])
  next
    case (Some e)
    then show ?thesis by (simp add: journal_api_def in_range_def successor_Some)
  qed
qed (auto simp: journal_api_def journal_rows_def ordered_replay)

end
