(* ===== verification/Go_Sync.thy ===== *)
theory Go_Sync imports Go_Base begin

text \<open>
  Go's \<open>sync.RWMutex\<close> and the idiom \<open>mu.Lock(); defer mu.Unlock()\<close>. A lock counts its
  readers, knows whether a writer holds it and whether one waits for it: a writer that has to
  wait announces itself first, and from then on no new reader is let in. Acquiring a lock gives
  \<open>Inr\<close> the lock held, or \<open>Inl\<close> the lock as the waiting goroutine leaves it, and the call is
  \<open>Blocked\<close>: the deferred releases of the calls around it do not run. A return and a panic run
  them. The locale \<open>scoped_lock\<close> collects what the idiom promises for
  a lock kept in a field of the state; every lock of the application is an interpretation.
\<close>

record rwlock =
  writer :: bool
  readers :: nat
  announced :: bool

definition unlocked :: rwlock where
  "unlocked = \<lparr>writer = False, readers = 0, announced = False\<rparr>"

definition RLock :: "rwlock \<Rightarrow> rwlock + rwlock" where
  "RLock l = (if writer l \<or> announced l then Inl l else Inr (l\<lparr>readers := readers l + 1\<rparr>))"

definition RUnlock :: "rwlock \<Rightarrow> rwlock" where
  "RUnlock l = l\<lparr>readers := readers l - 1\<rparr>"

definition Lock :: "rwlock \<Rightarrow> rwlock + rwlock" where
  "Lock l = (if writer l \<or> announced l \<or> 0 < readers l then Inl (l\<lparr>announced := True\<rparr>)
     else Inr (l\<lparr>writer := True\<rparr>))"

definition Unlock :: "rwlock \<Rightarrow> rwlock" where
  "Unlock l = l\<lparr>writer := False\<rparr>"

definition scoped ::
  "(rwlock \<Rightarrow> rwlock + rwlock) \<Rightarrow> (rwlock \<Rightarrow> rwlock) \<Rightarrow> ('s \<Rightarrow> rwlock) \<Rightarrow>
     ((rwlock \<Rightarrow> rwlock) \<Rightarrow> 's \<Rightarrow> 's) \<Rightarrow> ('s \<Rightarrow> 'a outcome \<times> 's) \<Rightarrow> 's \<Rightarrow> 'a outcome \<times> 's" where
  "scoped acquire release get upd body s =
     (case acquire (get s) of
        Inl l \<Rightarrow> (Blocked, upd (\<lambda>_. l) s)
      | Inr l \<Rightarrow>
          (case body (upd (\<lambda>_. l) s) of
             (Ret x, s') \<Rightarrow> (Ret x, upd release s')
           | (Panic, s') \<Rightarrow> (Panic, upd release s')
           | (Blocked, s') \<Rightarrow> (Blocked, s')))"

declare unlocked_def [go_simps] RLock_def [go_simps] RUnlock_def [go_simps]
  Lock_def [go_simps] Unlock_def [go_simps]

section \<open>What the idiom promises\<close>

locale lock_mode =
  fixes acquire :: "rwlock \<Rightarrow> rwlock + rwlock"
    and release :: "rwlock \<Rightarrow> rwlock"
  assumes release_acquire: "acquire l = Inr l' \<Longrightarrow> release l' = l"
    and acquire_unlocked: "\<not> isl (acquire unlocked)"

locale lock_field =
  fixes get :: "'s \<Rightarrow> rwlock"
    and upd :: "(rwlock \<Rightarrow> rwlock) \<Rightarrow> 's \<Rightarrow> 's"
  assumes get_upd: "get (upd f s) = f (get s)"
    and upd_upd: "upd f (upd g s) = upd (\<lambda>l. f (g l)) s"
    and upd_same: "f (get s) = get s \<Longrightarrow> upd f s = s"

locale scoped_lock = lock_mode acquire release + lock_field get upd
  for acquire release and get :: "'s \<Rightarrow> rwlock" and upd
begin

text \<open>A body that leaves the lock as it finds it leaves it as it was: the idiom is balanced.\<close>

lemma scoped_balanced:
  assumes "\<And>s r s'. body s = (r, s') \<Longrightarrow> r \<noteq> Blocked \<Longrightarrow> get s' = get s"
    and "scoped acquire release get upd body s = (r, s')" and "r \<noteq> Blocked"
  shows "get s' = get s"
proof -
  obtain l where l: "acquire (get s) = Inr l"
    using assms(2,3) by (auto simp: scoped_def split: sum.splits)
  obtain r1 s1 where b: "body (upd (\<lambda>_. l) s) = (r1, s1)" by fastforce
  then have r1: "r = r1" "r1 \<noteq> Blocked" and s1: "s' = upd release s1"
    using assms(2,3) l by (auto simp: scoped_def split: outcome.splits)
  have "get s1 = l" using assms(1) [OF b r1(2)] by (simp add: get_upd)
  then show ?thesis using s1 l by (simp add: get_upd release_acquire)
qed

text \<open>A body that changes nothing under a free lock: the scope is the body.\<close>

lemma scoped_pure:
  assumes "acquire (get s) = Inr l" and "body (upd (\<lambda>_. l) s) = (Ret x, upd (\<lambda>_. l) s)"
  shows "scoped acquire release get upd body s = (Ret x, s)"
  using assms release_acquire [OF assms(1)] by (simp add: scoped_def upd_upd upd_same)

lemma scoped_blocked:
  "acquire (get s) = Inl l \<Longrightarrow> scoped acquire release get upd body s = (Blocked, upd (\<lambda>_. l) s)"
  by (simp add: scoped_def)

lemma scoped_not_blocked:
  assumes "get s = unlocked" and "\<And>l. fst (body (upd (\<lambda>_. l) s)) \<noteq> Blocked"
  shows "fst (scoped acquire release get upd body s) \<noteq> Blocked"
proof -
  obtain l where "acquire (get s) = Inr l"
    using assms(1) acquire_unlocked by (cases "acquire (get s)") auto
  with assms(2) [of l] show ?thesis
    by (auto simp: scoped_def split: outcome.splits prod.splits)
qed

end

interpretation read_mode: lock_mode RLock RUnlock
  by unfold_locales (auto simp: go_simps split: if_splits)

interpretation write_mode: lock_mode Lock Unlock
  by unfold_locales (auto simp: go_simps split: if_splits)

end
