(* ===== verification/App_State.thy ===== *)
theory App_State imports Store_Api Go_Sync begin

text \<open>
  The state of the application that the database router works on, from \<open>app/app.go\<close>,
  \<open>app/tables.go\<close>, \<open>app/constants.go\<close> and \<open>app/errors.go\<close>: the multistores, the table
  catalogue, the process-wide cursor map with its lock, and the lock of the stores.
\<close>

section \<open>Errors\<close>

datatype db_error =
    ErrInvalidExecutionClient
  | ErrInvalidRequestData
  | ErrDataNotFound
  | ErrInvalidOperationCode
  | ErrTableNotFound
  | ErrTableIsEmpty
  | ErrKeyNotExists
  | ErrExactOrGreaterKeyNotExists
  | ErrCurrentIteratorKeyIsInvalid
  | ErrCannotIterateToPrevFromFirst
  | ErrCannotIterateToNextFromLast
  | ErrCurrentKeyIsNotSet
  | ErrKeyAlreadyPresent
  | ErrCannotAppendIfKeyIsLessThanCurrentGreatestKey
  | ErrCannotAppendDupIfSubkeyIsLessThanGreatestSubKeyForKey

fun error_text :: "db_error \<Rightarrow> string" where
  "error_text ErrInvalidExecutionClient = ''invalid execution client type''"
| "error_text ErrInvalidRequestData = ''invalid request data''"
| "error_text ErrDataNotFound = ''data not found''"
| "error_text ErrInvalidOperationCode = ''invalid operation code''"
| "error_text ErrTableNotFound = ''table not found''"
| "error_text ErrTableIsEmpty = ''table is empty''"
| "error_text ErrKeyNotExists = ''exact key not exists''"
| "error_text ErrExactOrGreaterKeyNotExists = ''exact or greater key does not exists''"
| "error_text ErrCurrentIteratorKeyIsInvalid = ''current iterator key not exists''"
| "error_text ErrCannotIterateToPrevFromFirst = ''cannot iterate to prev from first key''"
| "error_text ErrCannotIterateToNextFromLast = ''cannot iterate to next from last key''"
| "error_text ErrCurrentKeyIsNotSet = ''current key is not set''"
| "error_text ErrKeyAlreadyPresent = ''key already present''"
| "error_text ErrCannotAppendIfKeyIsLessThanCurrentGreatestKey =
     ''cannot append entry when key is less than greatest key in the table''"
| "error_text ErrCannotAppendDupIfSubkeyIsLessThanGreatestSubKeyForKey =
     ''cannot append entry when subkey is less than greatest subkey for the key''"

section \<open>Tables\<close>

record tableInfo =
  DupSorted :: bool
  KeyBytes :: nat
  SubKeyBytes :: nat
  StoreKey :: string

definition HashedAccountsStoreName :: string where
  "HashedAccountsStoreName = ''hashed_accounts''"

definition HashedStoragesStoreName :: string where
  "HashedStoragesStoreName = ''hashed_storages''"

definition CursorIDBytes :: nat where [simp]: "CursorIDBytes = 8"
definition SerializedHashedAccountsKeyBytes :: nat where
  [simp]: "SerializedHashedAccountsKeyBytes = 40"
definition SerializedHashedStoragesKeyBytes :: nat where
  [simp]: "SerializedHashedStoragesKeyBytes = 40"
definition SerializedHashedStoragesSubKeyBytes :: nat where
  [simp]: "SerializedHashedStoragesSubKeyBytes = 40"
definition HashedAccountsTableCode :: byte where [simp]: "HashedAccountsTableCode = 0"
definition HashedStoragesTableCode :: byte where [simp]: "HashedStoragesTableCode = 1"

text \<open>The catalogue that \<open>NewClient\<close> installs for the EVM client.\<close>

definition accounts_table :: tableInfo where
  "accounts_table = \<lparr>DupSorted = False, KeyBytes = SerializedHashedAccountsKeyBytes,
     SubKeyBytes = 0, StoreKey = HashedAccountsStoreName\<rparr>"

definition storages_table :: tableInfo where
  "storages_table = \<lparr>DupSorted = True, KeyBytes = SerializedHashedStoragesKeyBytes,
     SubKeyBytes = SerializedHashedStoragesSubKeyBytes, StoreKey = HashedStoragesStoreName\<rparr>"

definition evm_tables :: "byte \<rightharpoonup> tableInfo" where
  "evm_tables = [HashedAccountsTableCode \<mapsto> accounts_table,
     HashedStoragesTableCode \<mapsto> storages_table]"

section \<open>The state\<close>

record ('ms, 'cs) app =
  commitMultiStore :: 'ms
  executionCacheMultistore :: 'cs
  executionTablesInfo :: "byte \<rightharpoonup> tableInfo"
  ethIteratorsCurrentKey :: "bytes \<rightharpoonup> bytes"
  rwMutex :: rwlock
  ethIteratorsCurrentKeyLock :: rwlock

type_synonym ('ms, 'cs, 'a) op = "('ms, 'cs) app \<Rightarrow> 'a outcome \<times> ('ms, 'cs) app"

abbreviation cached_store :: "('ms, 'cs) app \<Rightarrow> 'ms \<times> 'cs" where
  "cached_store a \<equiv> (commitMultiStore a, executionCacheMultistore a)"

abbreviation set_cursor :: "bytes \<Rightarrow> bytes \<Rightarrow> ('ms, 'cs) app \<Rightarrow> ('ms, 'cs) app" where
  "set_cursor c k a \<equiv> a\<lparr>ethIteratorsCurrentKey := (ethIteratorsCurrentKey a)(c \<mapsto> k)\<rparr>"

abbreviation unset_cursor :: "bytes \<Rightarrow> ('ms, 'cs) app \<Rightarrow> ('ms, 'cs) app" where
  "unset_cursor c a \<equiv> a\<lparr>ethIteratorsCurrentKey := (ethIteratorsCurrentKey a)(c := None)\<rparr>"

text \<open>\<open>getTable\<close> of \<open>app/tables.go\<close>; \<open>tableAt\<close> is Go's map index, with the zero value for a
  missing key.\<close>

definition getTable :: "('ms, 'cs) app \<Rightarrow> byte \<Rightarrow> db_error + tableInfo" where
  "getTable a tableCode =
     (case executionTablesInfo a tableCode of
        None \<Rightarrow> Inl ErrTableNotFound
      | Some table \<Rightarrow> Inr table)"

definition tableAt :: "('ms, 'cs) app \<Rightarrow> byte \<Rightarrow> tableInfo" where
  "tableAt a tableCode =
     (case executionTablesInfo a tableCode of
        None \<Rightarrow> \<lparr>DupSorted = False, KeyBytes = 0, SubKeyBytes = 0, StoreKey = []\<rparr>
      | Some table \<Rightarrow> table)"

section \<open>Locks\<close>

definition rw_RLocked :: "('ms, 'cs, 'a) op \<Rightarrow> ('ms, 'cs, 'a) op" where
  "rw_RLocked = scoped RLock RUnlock rwMutex rwMutex_update"

definition rw_Locked :: "('ms, 'cs, 'a) op \<Rightarrow> ('ms, 'cs, 'a) op" where
  "rw_Locked = scoped Lock Unlock rwMutex rwMutex_update"

definition cur_RLocked :: "('ms, 'cs, 'a) op \<Rightarrow> ('ms, 'cs, 'a) op" where
  "cur_RLocked = scoped RLock RUnlock ethIteratorsCurrentKeyLock ethIteratorsCurrentKeyLock_update"

definition cur_Locked :: "('ms, 'cs, 'a) op \<Rightarrow> ('ms, 'cs, 'a) op" where
  "cur_Locked = scoped Lock Unlock ethIteratorsCurrentKeyLock ethIteratorsCurrentKeyLock_update"

interpretation rw_read: scoped_lock RLock RUnlock rwMutex rwMutex_update
  by unfold_locales auto

interpretation rw_write: scoped_lock Lock Unlock rwMutex rwMutex_update
  by unfold_locales auto

interpretation cur_read: scoped_lock RLock RUnlock
    ethIteratorsCurrentKeyLock ethIteratorsCurrentKeyLock_update
  by unfold_locales auto

interpretation cur_write: scoped_lock Lock Unlock
    ethIteratorsCurrentKeyLock ethIteratorsCurrentKeyLock_update
  by unfold_locales auto

text \<open>No lock is held: the state between two requests.\<close>

definition locks_free :: "('ms, 'cs) app \<Rightarrow> bool" where
  "locks_free a \<longleftrightarrow> rwMutex a = unlocked \<and> ethIteratorsCurrentKeyLock a = unlocked"

lemma locks_free_updates:
  "locks_free (a\<lparr>commitMultiStore := m\<rparr>) = locks_free a"
  "locks_free (a\<lparr>executionCacheMultistore := c\<rparr>) = locks_free a"
  "locks_free (a\<lparr>ethIteratorsCurrentKey := f\<rparr>) = locks_free a"
  by (simp_all add: locks_free_def)

section \<open>The contract of an operation\<close>

text \<open>
  What every operation of the router promises its caller: the table catalogue and the
  committed store are as before, and, unless the goroutine waits forever, so are the locks.
  A reading operation leaves the cached store alone as well.
\<close>

definition keeps :: "('ms, 'cs) app \<Rightarrow> 'a outcome \<times> ('ms, 'cs) app \<Rightarrow> bool" where
  "keeps a res \<longleftrightarrow>
     executionTablesInfo (snd res) = executionTablesInfo a \<and>
     commitMultiStore (snd res) = commitMultiStore a \<and>
     (locks_free a \<longrightarrow> fst res \<noteq> Blocked \<longrightarrow> locks_free (snd res))"

lemma keeps_same [simp, intro]: "keeps a (r, a)"
  by (simp add: keeps_def)

lemma keeps_mapped [simp]: "keeps a (apfst (map_outcome g) res) \<longleftrightarrow> keeps a res"
  by (cases "fst res") (auto simp: keeps_def)

locale db_operation =
  fixes run :: "('ms, 'cs, 'a) op"
  assumes tables_kept: "executionTablesInfo (snd (run a)) = executionTablesInfo a"
    and commit_kept: "commitMultiStore (snd (run a)) = commitMultiStore a"
    and locks_kept: "locks_free a \<Longrightarrow> fst (run a) \<noteq> Blocked \<Longrightarrow> locks_free (snd (run a))"
begin

lemma keeps_run: "keeps a (run a)"
  by (simp add: keeps_def tables_kept commit_kept locks_kept)

lemma locks_kept': "locks_free a \<Longrightarrow> run a = (r, a') \<Longrightarrow> r \<noteq> Blocked \<Longrightarrow> locks_free a'"
  using locks_kept [of a] by simp

end

locale read_operation = db_operation run for run :: "('ms, 'cs, 'a) op" +
  assumes cache_kept: "executionCacheMultistore (snd (run a)) = executionCacheMultistore a"

end
