(* ===== verification/Sample_State.thy ===== *)
theory Sample_State imports App_State begin

text \<open>
  A concrete application at which the properties are instantiated: the EVM client's tables,
  two accounts, and four storage slots of two accounts, committed to a journal store. It is
  data for the witnesses, not a model of code.
\<close>

definition acct :: "byte \<Rightarrow> bytes" where
  "acct x = replicate 40 x"

definition slot :: "byte \<Rightarrow> byte \<Rightarrow> bytes" where
  "slot x y = acct x @ replicate 40 y"

definition cursor_id :: "byte \<Rightarrow> bytes" where
  "cursor_id x = replicate 8 x"

definition sample_journal :: journal where
  "sample_journal =
     [(HashedAccountsStoreName, acct 3, Some [30]),
      (HashedAccountsStoreName, acct 5, Some [50]),
      (HashedStoragesStoreName, slot 2 1, Some [21]),
      (HashedStoragesStoreName, slot 2 4, Some [24]),
      (HashedStoragesStoreName, slot 7 1, Some [71]),
      (HashedStoragesStoreName, slot 7 9, Some [79])]"

definition sample_app :: "(journal, journal) app" where
  "sample_app = \<lparr>commitMultiStore = sample_journal, executionCacheMultistore = [],
     executionTablesInfo = evm_tables, ethIteratorsCurrentKey = Map.empty,
     rwMutex = unlocked, ethIteratorsCurrentKeyLock = unlocked\<rparr>"

section \<open>Evaluating at it\<close>

named_theorems sample_simps \<open>evaluation at the sample state\<close>

lemma append_less_append: "(p @ u :: bytes) < p @ v \<longleftrightarrow> u < v"
  by (induction p) auto

lemma replicate_append_less:
  "0 < n \<Longrightarrow> (replicate n x @ u :: bytes) < replicate n y @ v \<longleftrightarrow> x < y \<or> x = y \<and> u < v"
  by (cases n) (auto simp: append_less_append)

lemma replicate_less: "0 < n \<Longrightarrow> (replicate n x :: bytes) < replicate n y \<longleftrightarrow> x < y"
  using replicate_append_less [of n x "[]" y "[]"] by simp

lemma acct_less [sample_simps]: "acct x < acct y \<longleftrightarrow> x < y"
  by (simp add: acct_def replicate_less)

lemma acct_eq [sample_simps]: "acct x = acct y \<longleftrightarrow> x = y"
  by (simp add: acct_def)

lemma slot_less [sample_simps]: "slot x y < slot x' y' \<longleftrightarrow> x < x' \<or> x = x' \<and> y < y'"
  by (simp add: slot_def acct_def replicate_append_less replicate_less)

lemma slot_eq [sample_simps]: "slot x y = slot x' y' \<longleftrightarrow> x = x' \<and> y = y'"
  by (simp add: slot_def acct_def)

lemma le_bytes [sample_simps]:
  "acct x \<le> acct y \<longleftrightarrow> \<not> y < x"
  "slot x y \<le> slot x' y' \<longleftrightarrow> \<not> (x' < x \<or> x' = x \<and> y' < y)"
  by (auto simp: acct_less slot_less simp flip: not_less)

lemma Nil_less_bytes: "([] :: bytes) < u \<longleftrightarrow> u \<noteq> []"
  by (cases u) auto

lemma length_sample: "length (acct x) = 40" "length (slot x y) = 80"
  by (simp_all add: acct_def slot_def)

lemma acct_slot [sample_simps]:
  "acct x < slot x' y \<longleftrightarrow> x \<le> x'" "slot x' y < acct x \<longleftrightarrow> x' < x"
  "acct x \<noteq> slot x' y" "slot x' y \<noteq> acct x"
proof -
  show "acct x < slot x' y \<longleftrightarrow> x \<le> x'"
    using replicate_append_less [of 40 x "[]" x' "replicate 40 y"]
    by (auto simp: slot_def acct_def Nil_less_bytes)
  show "slot x' y < acct x \<longleftrightarrow> x' < x"
    using replicate_append_less [of 40 x' "replicate 40 y" x "[]"]
    by (auto simp: slot_def acct_def)
  show "acct x \<noteq> slot x' y" "slot x' y \<noteq> acct x"
    by (auto simp: length_sample dest!: arg_cong [where f = length])
qed

lemma acct_le_slot [sample_simps]: "acct x \<le> slot x' y \<longleftrightarrow> x \<le> x'"
  by (simp add: order.order_iff_strict [of "acct x"] acct_slot)

text \<open>The marker's key among the keys.\<close>

lemma acct_Cons: "acct x = x # replicate 39 x"
  by (simp add: acct_def flip: replicate_Suc)

lemma marker_key [sample_simps]:
  "[x] < acct y \<longleftrightarrow> x \<le> y" "[x] \<noteq> acct y" "acct y \<noteq> [x]" "[x] < slot y z \<longleftrightarrow> x \<le> y"
  "acct y < [x] \<longleftrightarrow> y < x" "\<not> prefix (acct y) [x]"
  by (auto simp: acct_Cons slot_def order.order_iff_strict Nil_less_bytes)

lemma prefix_slot [sample_simps]: "prefix (acct x) (slot x' y) \<longleftrightarrow> x = x'"
  by (auto simp: slot_def acct_def prefix_def append_eq_append_conv)

lemma prefix_acct [sample_simps]: "prefix (acct x) (acct y) \<longleftrightarrow> x = y"
  by (auto simp: acct_def prefix_def hd_append dest: arg_cong [where f = hd])

lemma slot_parts [sample_simps]:
  "take 40 (slot x y) = acct x" "drop 40 (slot x y) = replicate 40 y"
  "length (slot x y) = 80" "length (acct x) = 40" "length (cursor_id x) = 8"
  "take 40 (acct x) = acct x" "set (acct x) = {x}"
  by (simp_all add: slot_def acct_def cursor_id_def)

lemma cursor_id_eq [sample_simps]: "cursor_id x = cursor_id y \<longleftrightarrow> x = y"
  by (simp add: cursor_id_def)

lemma store_names [sample_simps]:
  "HashedAccountsStoreName \<noteq> HashedStoragesStoreName"
  "HashedStoragesStoreName \<noteq> HashedAccountsStoreName"
  by (simp_all add: HashedAccountsStoreName_def HashedStoragesStoreName_def)

lemma evm_tables_at [sample_simps]:
  "evm_tables 0 = Some accounts_table" "evm_tables 1 = Some storages_table"
  by (simp_all add: evm_tables_def)

lemma table_fields [sample_simps]:
  "\<not> DupSorted accounts_table" "DupSorted storages_table"
  "KeyBytes accounts_table = 40" "KeyBytes storages_table = 40"
  "SubKeyBytes accounts_table = 0" "SubKeyBytes storages_table = 40"
  "StoreKey accounts_table = HashedAccountsStoreName"
  "StoreKey storages_table = HashedStoragesStoreName"
  by (simp_all add: accounts_table_def storages_table_def)

lemma journal_api_fields [sample_simps]:
  "CacheMultiStore journal_api m = []"
  "ms_Set journal_api m n k v = (n, k, Some v) # m"
  "cs_Set journal_api c n k v = (n, k, Some v) # c"
  "cs_Delete journal_api c n k = (n, k, None) # c"
  "cs_Write journal_api (m, c) = (c @ m, [])"
  by (simp_all add: journal_api_def)

lemma journal_rows_at [sample_simps]: "journal_rows (m, c) n = replay (c @ m) n"
  by (simp add: journal_rows_def)

lemma sample_rows [sample_simps]:
  "replay sample_journal HashedAccountsStoreName = [(acct 3, [30]), (acct 5, [50])]"
  "replay sample_journal HashedStoragesStoreName =
     [(slot 2 1, [21]), (slot 2 4, [24]), (slot 7 1, [71]), (slot 7 9, [79])]"
  by (simp_all add: sample_journal_def sample_simps)

lemma sample_app_fields [sample_simps]:
  "commitMultiStore sample_app = sample_journal"
  "executionCacheMultistore sample_app = []"
  "executionTablesInfo sample_app = evm_tables"
  "ethIteratorsCurrentKey sample_app = Map.empty"
  by (simp_all add: sample_app_def)

lemma sample_locks_free [sample_simps]: "locks_free sample_app"
  by (simp add: sample_app_def locks_free_def)

declare locks_free_updates [sample_simps]

lemma journal_search [sample_simps]:
  "first_where P (map_of (replay j n)) = head_row (filter (\<lambda>(k, _). P k) (replay j n))"
  "last_where P (map_of (replay j n)) = head_row (rev (filter (\<lambda>(k, _). P k) (replay j n)))"
  "first_where P (map_of (journal_rows mc n)) = head_row (filter (\<lambda>(k, _). P k) (journal_rows mc n))"
  "last_where P (map_of (journal_rows mc n)) =
     head_row (rev (filter (\<lambda>(k, _). P k) (journal_rows mc n)))"
  by (simp_all add: first_where_rows last_where_rows ordered_replay journal_rows_def)

text \<open>The map that is searched is not unfolded before the search is.\<close>

lemma search_cong:
  "P = P' \<Longrightarrow> first_where P M = first_where P' M"
  "P = P' \<Longrightarrow> last_where P M = last_where P' M"
  by simp_all

end
