(* ===== verification/Db_Tx.thy ===== *)
theory Db_Tx imports Sample_State begin

text \<open>
  The transaction operations of \<open>app/db_eth.go\<close> (\<open>Get\<close>, \<open>Put\<close>, \<open>Delete\<close>, \<open>Write\<close>). Each is the
  body under the lock the code takes. Reads go to the commit multistore, writes to the cached
  one. A result \<open>[]\<close> is Go's nil slice: the reply carries no bytes in either case.

  The lemmas \<open>*_run\<close> give each operation's whole effect when no lock is held.
\<close>

section \<open>The operations\<close>

definition Get :: "('ms, 'cs) store_api \<Rightarrow> byte \<Rightarrow> bytes \<Rightarrow> ('ms, 'cs, db_error + bytes) op" where
  "Get api tableCode key = rw_RLocked (\<lambda>a.
     (case getTable a tableCode of
        Inl err \<Rightarrow> (Ret (Inl err), a)
      | Inr table \<Rightarrow>
          if DupSorted table then
            (case ms_Iterator api (commitMultiStore a) (StoreKey table)
                    (Some key) (PrefixEndBytes api key) of
               [] \<Rightarrow> (Ret (Inr []), a)
             | (k, value) # _ \<Rightarrow>
                 (case slice_from k (KeyBytes table) of
                    None \<Rightarrow> (Panic, a)
                  | Some subkey \<Rightarrow> (Ret (Inr (subkey @ value)), a)))
          else if \<not> ms_Has api (commitMultiStore a) (StoreKey table) key then (Ret (Inr []), a)
          else (Ret (Inr (ms_Get api (commitMultiStore a) (StoreKey table) key)), a)))"

definition Put :: "('ms, 'cs) store_api \<Rightarrow> byte \<Rightarrow> bytes \<Rightarrow> bytes \<Rightarrow>
    ('ms, 'cs, db_error + unit) op" where
  "Put api tableCode key value = rw_Locked (\<lambda>a.
     (case getTable a tableCode of
        Inl err \<Rightarrow> (Ret (Inl err), a)
      | Inr table \<Rightarrow>
          (Ret (Inr ()), a\<lparr>executionCacheMultistore :=
             cs_Set api (executionCacheMultistore a) (StoreKey table) key value\<rparr>)))"

text \<open>\<open>for ; iterator.Valid(); iterator.Next() { store.Delete(iterator.Key()) }\<close>\<close>

fun delete_each :: "('ms, 'cs) store_api \<Rightarrow> string \<Rightarrow> entries \<Rightarrow> 'cs \<Rightarrow> 'cs" where
  "delete_each api n [] c = c"
| "delete_each api n ((k, _) # it) c = delete_each api n it (cs_Delete api c n k)"

definition Delete :: "('ms, 'cs) store_api \<Rightarrow> byte \<Rightarrow> bytes \<Rightarrow> bool \<Rightarrow>
    ('ms, 'cs, db_error + unit) op" where
  "Delete api tableCode key keyIncludesSubkey = rw_Locked (\<lambda>a.
     (case getTable a tableCode of
        Inl err \<Rightarrow> (Ret (Inl err), a)
      | Inr table \<Rightarrow>
          if DupSorted table then
            if keyIncludesSubkey then
              (Ret (Inr ()), a\<lparr>executionCacheMultistore :=
                 cs_Delete api (executionCacheMultistore a) (StoreKey table) key\<rparr>)
            else
              (Ret (Inr ()), a\<lparr>executionCacheMultistore :=
                 delete_each api (StoreKey table)
                   (ms_Iterator api (commitMultiStore a) (StoreKey table)
                      (Some key) (PrefixEndBytes api key))
                   (executionCacheMultistore a)\<rparr>)
          else
            (Ret (Inr ()), a\<lparr>executionCacheMultistore :=
               cs_Delete api (executionCacheMultistore a) (StoreKey table) key\<rparr>)))"

definition Write :: "('ms, 'cs) store_api \<Rightarrow> ('ms, 'cs, unit) op" where
  "Write api = rw_Locked (\<lambda>a.
     (case cs_Write api (cached_store a) of
        (m, c) \<Rightarrow> (Ret (), a\<lparr>commitMultiStore := m, executionCacheMultistore := c\<rparr>)))"

section \<open>Their contract\<close>

lemmas lock_simps = rw_RLocked_def rw_Locked_def cur_RLocked_def cur_Locked_def scoped_def
  locks_free_def go_simps getTable_def

lemmas lock_splits = option.splits if_splits prod.splits list.splits sum.splits outcome.splits

interpretation Get_op: read_operation "Get api t k" for api t k
  by unfold_locales (auto simp: Get_def lock_simps split: lock_splits)

interpretation Put_op: db_operation "Put api t k v" for api t k v
  by unfold_locales (auto simp: Put_def lock_simps split: lock_splits)

interpretation Delete_op: db_operation "Delete api t k b" for api t k b
  by unfold_locales (auto simp: Delete_def lock_simps split: lock_splits)

section \<open>What they do\<close>

text \<open>A table code outside the catalogue is refused, and nothing changes.\<close>

lemma unknown_table_tx:
  assumes "locks_free a" and "executionTablesInfo a t = None"
  shows "Get api t k a = (Ret (Inl ErrTableNotFound), a)"
    and "Put api t k v a = (Ret (Inl ErrTableNotFound), a)"
    and "Delete api t k b a = (Ret (Inl ErrTableNotFound), a)"
  using assms by (auto simp: Get_def Put_def Delete_def lock_simps)

lemma Put_known:
  "locks_free a \<Longrightarrow> executionTablesInfo a t = Some table \<Longrightarrow>
     Put api t k v a = (Ret (Inr ()), a\<lparr>executionCacheMultistore :=
       cs_Set api (executionCacheMultistore a) (StoreKey table) k v\<rparr>)"
  by (auto simp: Put_def lock_simps)

lemma Delete_known:
  "locks_free a \<Longrightarrow> executionTablesInfo a t = Some table \<Longrightarrow>
     Delete api t k b a = (Ret (Inr ()), a\<lparr>executionCacheMultistore :=
       (if DupSorted table \<and> \<not> b
        then delete_each api (StoreKey table)
          (ms_Iterator api (commitMultiStore a) (StoreKey table) (Some k) (PrefixEndBytes api k))
          (executionCacheMultistore a)
        else cs_Delete api (executionCacheMultistore a) (StoreKey table) k)\<rparr>)"
  by (auto simp: Delete_def lock_simps)

lemma Write_free:
  "locks_free a \<Longrightarrow> Write api a =
     (Ret (), a\<lparr>commitMultiStore := fst (cs_Write api (cached_store a)),
       executionCacheMultistore := snd (cs_Write api (cached_store a))\<rparr>)"
  by (auto simp: Write_def lock_simps split: prod.splits)

context multistore
begin

lemma Get_single:
  assumes "locks_free a" and "executionTablesInfo a t = Some table" and "\<not> DupSorted table"
  shows "Get api t k a =
    (Ret (Inr (case map_of (ms_rows (commitMultiStore a) (StoreKey table)) k of
                 None \<Rightarrow> [] | Some v \<Rightarrow> v)), a)"
  using assms by (auto simp: Get_def lock_simps committed.has_rows get_rows split: option.splits)

text \<open>In a table with subkeys: the row with the least key that has the prefix asked for.\<close>

lemma Get_dup:
  assumes "locks_free a" and "executionTablesInfo a t = Some table" and "DupSorted table"
    and "KeyBytes table \<le> length k"
  shows "Get api t k a =
    (Ret (Inr (case first_where (prefix k) (map_of (ms_rows (commitMultiStore a) (StoreKey table))) of
                 None \<Rightarrow> [] | Some (k', v) \<Rightarrow> drop (KeyBytes table) k' @ v)), a)"
proof -
  let ?rows = "ms_rows (commitMultiStore a) (StoreKey table)"
  let ?it = "filter (\<lambda>(x, _). prefix k x) ?rows"
  have fw: "first_where (prefix k) (map_of ?rows) = head_row ?it"
    by (rule first_where_rows) (rule committed.rows_ordered)
  show ?thesis
  proof (cases ?it)
    case Nil
    then show ?thesis
      using assms fw by (simp add: Get_def lock_simps iterator_prefix)
  next
    case (Cons x ys)
    obtain k' v where x: "x = (k', v)" by (cases x)
    have "x \<in> set ?it" using Cons by simp
    then have "prefix k k'" using x by auto
    then have "KeyBytes table \<le> length k'" using assms(4) prefix_length_le by fastforce
    then show ?thesis
      using assms fw Cons x by (simp add: Get_def lock_simps iterator_prefix slice_from_def)
  qed
qed

text \<open>Deleting the keys of an iterator removes exactly those rows.\<close>

lemma delete_each_rows:
  "cs_rows (m, delete_each api n it c) n' =
     (if n' = n then filter (\<lambda>(x, _). x \<notin> set (keys_of it)) (cs_rows (m, c) n')
      else cs_rows (m, c) n')"
proof (induction it arbitrary: c)
  case (Cons x it)
  then show ?case
    by (cases x) (auto simp: cache_delete_rows del_entry_def intro!: filter_cong)
qed simp

text \<open>\<open>Delete\<close> without a subkey removes the rows whose key is committed with the prefix.\<close>

lemma Delete_rows:
  assumes "locks_free a" and "executionTablesInfo a t = Some table"
    and "Delete api t k b a = (r, a')"
  shows "cs_rows (cached_store a') n =
    (if n \<noteq> StoreKey table then cs_rows (cached_store a) n
     else if DupSorted table \<and> \<not> b
       then filter (\<lambda>(x, _). \<not> (prefix k x \<and> map_of (ms_rows (commitMultiStore a) n) x \<noteq> None))
              (cs_rows (cached_store a) n)
     else del_entry k (cs_rows (cached_store a) n))"
proof -
  have "x \<in> set (keys_of (filter (\<lambda>(x, _). prefix k x) rows)) \<longleftrightarrow>
      prefix k x \<and> map_of rows x \<noteq> None" for x and rows :: entries
    by (force simp: map_of_eq_None_iff)
  then show ?thesis
    using assms
    by (auto simp: Delete_known delete_each_rows cache_delete_rows iterator_prefix
        simp del: set_map split: if_splits)
qed

lemma Put_rows:
  assumes "locks_free a" and "executionTablesInfo a t = Some table"
    and "Put api t k v a = (r, a')"
  shows "cs_rows (cached_store a') n =
    (if n = StoreKey table then put_entry k v (cs_rows (cached_store a) n)
     else cs_rows (cached_store a) n)"
  using assms by (auto simp: Put_known cache_set_rows)

lemma Write_rows:
  assumes "locks_free a" and "Write api a = (r, a')"
  shows "ms_rows (commitMultiStore a') n = cs_rows (cached_store a) n"
    and "cs_rows (cached_store a') n = cs_rows (cached_store a) n"
  using assms by (auto simp: Write_free write_rows write_clean)

end

section \<open>Properties\<close>

text \<open>
  C24: a transaction round trip. After \<open>Put\<close> and then \<open>Write\<close>, \<open>Get\<close> of a table without subkeys
  returns the value put for that key, and for every other key what the cached store held
  before, whether it was pending or committed.
\<close>

theorem put_write_get:
  assumes store: "multistore api ms_rows cs_rows"
    and a: "locks_free a" "executionTablesInfo a t = Some table" "\<not> DupSorted table"
    and put: "Put api t k v a = (r1, a1)" and wr: "Write api a1 = (r2, a2)"
  shows "Get api t k' a2 =
    (Ret (Inr (if k' = k then v
       else case map_of (cs_rows (cached_store a) (StoreKey table)) k' of
              None \<Rightarrow> [] | Some w \<Rightarrow> w)), a2)"
proof -
  have a1: "locks_free a1" using Put_op.locks_kept' [OF a(1) put] put a by (auto simp: Put_known)
  then have a2: "locks_free a2" "executionTablesInfo a2 t = Some table"
    using a put wr by (auto simp: Put_known Write_free locks_free_def)
  have "ordered (cs_rows (cached_store a) (StoreKey table))"
    using multistore.axioms(2) [OF store] by (simp add: kv_reader.rows_ordered)
  then have "map_of (ms_rows (commitMultiStore a2) (StoreKey table)) =
      (map_of (cs_rows (cached_store a) (StoreKey table)))(k \<mapsto> v)"
    using multistore.Write_rows(1) [OF store a1 wr, of "StoreKey table"]
      multistore.Put_rows [OF store a(1,2) put, of "StoreKey table"]
    by (simp add: map_of_put_entry)
  then show ?thesis by (simp add: multistore.Get_single [OF store a2 a(3)])
qed

theorem put_write_get_witness:
  "Get journal_api 0 (acct 4) (snd (Write journal_api (snd (Put journal_api 0 (acct 4) [9] sample_app))))
     = (Ret (Inr [9]), snd (Write journal_api (snd (Put journal_api 0 (acct 4) [9] sample_app))))"
  using put_write_get [OF journal.multistore_axioms, of sample_app 0 accounts_table "acct 4" "[9]"
      "fst (Put journal_api 0 (acct 4) [9] sample_app)" "snd (Put journal_api 0 (acct 4) [9] sample_app)"
      "fst (Write journal_api (snd (Put journal_api 0 (acct 4) [9] sample_app)))"
      "snd (Write journal_api (snd (Put journal_api 0 (acct 4) [9] sample_app)))" "acct 4"]
  by (simp add: sample_simps)

text \<open>
  In a table with subkeys, \<open>Get\<close> of a table key returns the subkey and the value of the
  committed row with the least subkey, and nothing when the key has no row; the state stays.
\<close>

theorem get_least_duplicate:
  assumes "multistore api ms_rows cs_rows"
    and "locks_free a" "executionTablesInfo a t = Some table" "DupSorted table"
    and "length k = KeyBytes table"
  shows "Get api t k a =
    (Ret (Inr (case first_where (prefix k) (map_of (ms_rows (commitMultiStore a) (StoreKey table))) of
                 None \<Rightarrow> [] | Some (k', v) \<Rightarrow> drop (KeyBytes table) k' @ v)), a)"
  using multistore.Get_dup [OF assms(1-4)] assms(5) by simp

theorem get_least_duplicate_witness:
  "Get journal_api 1 (acct 7) sample_app = (Ret (Inr (replicate 40 1 @ [71])), sample_app)"
  using get_least_duplicate [OF journal.multistore_axioms, of sample_app 1 storages_table "acct 7"]
  by (simp add: sample_simps cong: search_cong)

definition sample_pending :: "(journal, journal) app" where
  "sample_pending = snd (Put journal_api 1 (slot 2 6) [26] sample_app)"

lemma sample_pending_eq [sample_simps]:
  "sample_pending = sample_app
     \<lparr>executionCacheMultistore := [(HashedStoragesStoreName, slot 2 6, Some [26])]\<rparr>"
  by (simp add: sample_pending_def Put_known sample_simps)

text \<open>
  C26: \<open>Delete\<close> and then \<open>Write\<close>, whatever was pending before. Removed from the table are exactly
  the row of the key, or, in a table with subkeys and without a subkey given, the rows of that
  table key that were committed before. Every other row is committed as the cached store held
  it, pending or not: a row of the table key that was only pending is not seen by \<open>Delete\<close> and
  is committed.
\<close>

theorem delete_write_removes:
  assumes store: "multistore api ms_rows cs_rows"
    and a: "locks_free a" "executionTablesInfo a t = Some table"
    and del: "Delete api t k keyIncludesSubkey a = (r1, a1)" and wr: "Write api a1 = (r2, a2)"
  shows "map_of (ms_rows (commitMultiStore a2) (StoreKey table)) x =
    (if (if DupSorted table \<and> \<not> keyIncludesSubkey
         then prefix k x \<and> map_of (ms_rows (commitMultiStore a) (StoreKey table)) x \<noteq> None
         else x = k) then None
     else map_of (cs_rows (cached_store a) (StoreKey table)) x)"
proof -
  have a1: "locks_free a1" using Delete_op.locks_kept' [OF a(1) del] del a by (auto simp: Delete_known)
  show ?thesis
    using multistore.Write_rows(1) [OF store a1 wr, of "StoreKey table"]
      multistore.Delete_rows [OF store a del, of "StoreKey table"]
      map_of_filter_key [of "\<lambda>x. \<not> (prefix k x \<and>
        map_of (ms_rows (commitMultiStore a) (StoreKey table)) x \<noteq> None)"
        "cs_rows (cached_store a) (StoreKey table)" x]
    by (auto simp: map_of_del_entry)
qed

theorem delete_write_removes_witness:
  "map_of (replay (commitMultiStore
      (snd (Write journal_api (snd (Delete journal_api 1 (acct 2) False sample_pending)))))
      HashedStoragesStoreName) (slot 2 4) = None \<and>
   map_of (replay (commitMultiStore
      (snd (Write journal_api (snd (Delete journal_api 1 (acct 2) False sample_pending)))))
      HashedStoragesStoreName) (slot 2 6) = Some [26]"
proof -
  let ?del = "Delete journal_api 1 (acct 2) False sample_pending"
  let ?wr = "Write journal_api (snd ?del)"
  have "map_of (journal_rows (commitMultiStore (snd ?wr), []) HashedStoragesStoreName) x =
      (if prefix (acct 2) x \<and> map_of (replay sample_journal HashedStoragesStoreName) x \<noteq> None then None
       else map_of (journal_rows (cached_store sample_pending) HashedStoragesStoreName) x)" for x
    using delete_write_removes [OF journal.multistore_axioms, of sample_pending 1 storages_table "acct 2"
        False "fst ?del" "snd ?del" "fst ?wr" "snd ?wr" x]
    by (simp add: sample_simps)
  from this [of "slot 2 4"] this [of "slot 2 6"] show ?thesis by (simp add: sample_simps)
qed

end
