(* ===== verification/Db_Cursor.thy ===== *)
theory Db_Cursor imports Db_Tx begin

text \<open>
  The cursor operations of \<open>app/db_eth.go\<close> for every kind of table. A cursor is an entry of
  the process-wide map \<open>ethIteratorsCurrentKey\<close>: the key it stands on. An iterator is the
  list of the rows it has still to yield, so \<open>Valid\<close> is non-emptiness, \<open>Key\<close> and \<open>Value\<close> are
  the head row and \<open>Next\<close> is the tail. The read operations look at the commit multistore, the
  write operations at the cached one.
\<close>

section \<open>Reading\<close>

definition First :: "('ms, 'cs) store_api \<Rightarrow> byte \<Rightarrow> bytes \<Rightarrow> ('ms, 'cs, db_error + bytes) op" where
  "First api tableCode cursorID = rw_RLocked (\<lambda>a.
     (case getTable a tableCode of
        Inl err \<Rightarrow> (Ret (Inl err), a)
      | Inr table \<Rightarrow>
          (case ms_Iterator api (commitMultiStore a) (StoreKey table) None None of
             [] \<Rightarrow> (Ret (Inr []), a)
           | (k, v) # _ \<Rightarrow>
               cur_Locked (\<lambda>a. (Ret (Inr (k @ v)), set_cursor cursorID k a)) a)))"

definition SeekExact :: "('ms, 'cs) store_api \<Rightarrow> byte \<Rightarrow> bytes \<Rightarrow> bytes \<Rightarrow>
    ('ms, 'cs, db_error + bytes) op" where
  "SeekExact api tableCode cursorID key = rw_RLocked (\<lambda>a.
     (case getTable a tableCode of
        Inl err \<Rightarrow> (Ret (Inl err), a)
      | Inr table \<Rightarrow>
          (case ms_Iterator api (commitMultiStore a) (StoreKey table) (Some key) None of
             [] \<Rightarrow> (Ret (Inr []), a)
           | (k, v) # _ \<Rightarrow>
               cur_Locked (\<lambda>a.
                 if (DupSorted table \<and> \<not> has_prefix k key) \<or> (\<not> DupSorted table \<and> key \<noteq> k)
                 then (Ret (Inr []), set_cursor cursorID k a)
                 else (Ret (Inr (k @ v)), set_cursor cursorID k a)) a)))"

definition Seek :: "('ms, 'cs) store_api \<Rightarrow> byte \<Rightarrow> bytes \<Rightarrow> bytes \<Rightarrow>
    ('ms, 'cs, db_error + bytes) op" where
  "Seek api tableCode cursorID key = rw_RLocked (\<lambda>a.
     (case getTable a tableCode of
        Inl err \<Rightarrow> (Ret (Inl err), a)
      | Inr table \<Rightarrow>
          (case ms_Iterator api (commitMultiStore a) (StoreKey table) (Some key) None of
             [] \<Rightarrow> (Ret (Inr []), a)
           | (k, v) # _ \<Rightarrow>
               cur_Locked (\<lambda>a. (Ret (Inr (k @ v)), set_cursor cursorID k a)) a)))"

definition Last :: "('ms, 'cs) store_api \<Rightarrow> byte \<Rightarrow> bytes \<Rightarrow> ('ms, 'cs, db_error + bytes) op" where
  "Last api tableCode cursorID = rw_RLocked (\<lambda>a.
     (case getTable a tableCode of
        Inl err \<Rightarrow> (Ret (Inl err), a)
      | Inr table \<Rightarrow>
          (case ms_ReverseIterator api (commitMultiStore a) (StoreKey table) None None of
             [] \<Rightarrow> (Ret (Inr []), a)
           | (k, v) # _ \<Rightarrow>
               cur_Locked (\<lambda>a. (Ret (Inr (k @ v)), set_cursor cursorID k a)) a)))"

text \<open>
  \<open>Next\<close> and \<open>Prev\<close> take the cursor lock before they look the cursor up, and call \<open>First\<close> and
  \<open>Last\<close>, which take it too, while they hold it.
\<close>

definition Next :: "('ms, 'cs) store_api \<Rightarrow> byte \<Rightarrow> bytes \<Rightarrow> ('ms, 'cs, db_error + bytes) op" where
  "Next api tableCode cursorID = rw_RLocked (\<lambda>a.
     (case getTable a tableCode of
        Inl err \<Rightarrow> (Ret (Inl err), a)
      | Inr table \<Rightarrow>
          cur_Locked (\<lambda>a.
            (case ethIteratorsCurrentKey a cursorID of
               None \<Rightarrow> First api tableCode cursorID a
             | Some currentKey \<Rightarrow>
                 (case ms_Iterator api (commitMultiStore a) (StoreKey table) (Some currentKey) None of
                    [] \<Rightarrow> (Ret (Inr []), a)
                  | _ # iterator \<Rightarrow>
                      (case iterator of
                         [] \<Rightarrow> (Ret (Inr []), a)
                       | (k, v) # _ \<Rightarrow> (Ret (Inr (k @ v)), set_cursor cursorID k a))))) a))"

definition Prev :: "('ms, 'cs) store_api \<Rightarrow> byte \<Rightarrow> bytes \<Rightarrow> ('ms, 'cs, db_error + bytes) op" where
  "Prev api tableCode cursorID = rw_RLocked (\<lambda>a.
     (case getTable a tableCode of
        Inl err \<Rightarrow> (Ret (Inl err), a)
      | Inr table \<Rightarrow>
          cur_Locked (\<lambda>a.
            (case ethIteratorsCurrentKey a cursorID of
               None \<Rightarrow> Last api tableCode cursorID a
             | Some currentKey \<Rightarrow>
                 (case ms_ReverseIterator api (commitMultiStore a) (StoreKey table)
                         None (Some currentKey) of
                    [] \<Rightarrow> (Ret (Inr []), a)
                  | (k, v) # _ \<Rightarrow> (Ret (Inr (k @ v)), set_cursor cursorID k a)))) a))"

definition Current :: "('ms, 'cs) store_api \<Rightarrow> byte \<Rightarrow> bytes \<Rightarrow> ('ms, 'cs, db_error + bytes) op" where
  "Current api tableCode cursorID = rw_RLocked (\<lambda>a.
     (case getTable a tableCode of
        Inl err \<Rightarrow> (Ret (Inl err), a)
      | Inr table \<Rightarrow>
          cur_RLocked (\<lambda>a.
            (case ethIteratorsCurrentKey a cursorID of
               None \<Rightarrow> (Ret (Inl ErrCurrentKeyIsNotSet), a)
             | Some currentKey \<Rightarrow>
                 if \<not> ms_Has api (commitMultiStore a) (StoreKey table) currentKey
                 then (Ret (Inr []), a)
                 else (Ret (Inr (currentKey @
                         ms_Get api (commitMultiStore a) (StoreKey table) currentKey)), a))) a))"

section \<open>Writing\<close>

text \<open>\<open>Upsert\<close> calls \<open>Put\<close>, which takes and releases the store lock, and then sets the cursor.\<close>

definition Upsert :: "('ms, 'cs) store_api \<Rightarrow> byte \<Rightarrow> bytes \<Rightarrow> bytes \<Rightarrow> bytes \<Rightarrow>
    ('ms, 'cs, db_error + unit) op" where
  "Upsert api tableCode cursorID key value a =
     (case Put api tableCode key value a of
        (Ret (Inr _), a) \<Rightarrow>
          cur_Locked (\<lambda>a. (Ret (Inr ()), set_cursor cursorID key a)) a
      | (r, a) \<Rightarrow> (r, a))"

definition cache_set :: "('ms, 'cs) store_api \<Rightarrow> string \<Rightarrow> bytes \<Rightarrow> bytes \<Rightarrow>
    ('ms, 'cs) app \<Rightarrow> ('ms, 'cs) app" where
  "cache_set api n k v a =
     a\<lparr>executionCacheMultistore := cs_Set api (executionCacheMultistore a) n k v\<rparr>"

definition Insert :: "('ms, 'cs) store_api \<Rightarrow> byte \<Rightarrow> bytes \<Rightarrow> bytes \<Rightarrow> bytes \<Rightarrow>
    ('ms, 'cs, db_error + unit) op" where
  "Insert api tableCode cursorID key value = rw_Locked (\<lambda>a.
     (case getTable a tableCode of
        Inl err \<Rightarrow> (Ret (Inl err), a)
      | Inr table \<Rightarrow>
          (let store = (\<lambda>a. cur_Locked (\<lambda>a. (Ret (Inr ()), set_cursor cursorID key a))
                 (cache_set api (StoreKey table) key value a))
           in if DupSorted table then
                (case slice_to key (KeyBytes table) of
                   None \<Rightarrow> (Panic, a)
                 | Some k \<Rightarrow>
                     if cs_Iterator api (cached_store a) (StoreKey table)
                          (Some k) (PrefixEndBytes api k) \<noteq> []
                     then (Ret (Inl ErrKeyAlreadyPresent), a)
                     else store a)
              else if cs_Has api (cached_store a) (StoreKey table) key
              then (Ret (Inl ErrKeyAlreadyPresent), a)
              else store a)))"

definition Append :: "('ms, 'cs) store_api \<Rightarrow> byte \<Rightarrow> bytes \<Rightarrow> bytes \<Rightarrow> bytes \<Rightarrow>
    ('ms, 'cs, db_error + unit) op" where
  "Append api tableCode cursorID k value = rw_Locked (\<lambda>a.
     (case getTable a tableCode of
        Inl err \<Rightarrow> (Ret (Inl err), a)
      | Inr table \<Rightarrow>
          (case (if DupSorted table then slice_to k (KeyBytes table) else Some k) of
             None \<Rightarrow> (Panic, a)
           | Some key \<Rightarrow>
               (case cs_ReverseIterator api (cached_store a) (StoreKey table) None None of
                  [] \<Rightarrow> (Ret (Inr ()), cache_set api (StoreKey table) k value a)
                | (greatest, _) # _ \<Rightarrow>
                    (case slice_to greatest (KeyBytes table) of
                       None \<Rightarrow> (Panic, a)
                     | Some greatestKeyPresent \<Rightarrow>
                         if bytes_compare key greatestKeyPresent < 0
                         then (Ret (Inl ErrCannotAppendIfKeyIsLessThanCurrentGreatestKey), a)
                         else cur_Locked (\<lambda>a. (Ret (Inr ()), set_cursor cursorID k a))
                                (cache_set api (StoreKey table) k value a))))))"

text \<open>\<open>DeleteCurrent\<close> reads the cursor before it takes the cursor lock.\<close>

definition DeleteCurrent :: "('ms, 'cs) store_api \<Rightarrow> byte \<Rightarrow> bytes \<Rightarrow>
    ('ms, 'cs, db_error + unit) op" where
  "DeleteCurrent api tableCode cursorID = rw_Locked (\<lambda>a.
     (case getTable a tableCode of
        Inl err \<Rightarrow> (Ret (Inl err), a)
      | Inr table \<Rightarrow>
          (case ethIteratorsCurrentKey a cursorID of
             None \<Rightarrow> (Ret (Inl ErrCurrentKeyIsNotSet), a)
           | Some currentKey \<Rightarrow>
               (case cs_Iterator api (cached_store a) (StoreKey table) (Some currentKey) None of
                  [] \<Rightarrow> (Ret (Inl ErrCurrentIteratorKeyIsInvalid), a)
                | _ # iterator \<Rightarrow>
                    (let a = a\<lparr>executionCacheMultistore :=
                           cs_Delete api (executionCacheMultistore a) (StoreKey table) currentKey\<rparr>
                     in cur_Locked (\<lambda>a.
                          (case iterator of
                             [] \<Rightarrow> (Ret (Inr ()), unset_cursor cursorID a)
                           | (k, _) # _ \<Rightarrow> (Ret (Inr ()), set_cursor cursorID k a))) a)))))"

section \<open>Their contract\<close>

interpretation First_op: read_operation "First api t c" for api t c
  by unfold_locales (auto simp: First_def lock_simps split: lock_splits)

interpretation SeekExact_op: read_operation "SeekExact api t c k" for api t c k
  by unfold_locales (auto simp: SeekExact_def lock_simps split: lock_splits)

interpretation Seek_op: read_operation "Seek api t c k" for api t c k
  by unfold_locales (auto simp: Seek_def lock_simps split: lock_splits)

interpretation Last_op: read_operation "Last api t c" for api t c
  by unfold_locales (auto simp: Last_def lock_simps split: lock_splits)

interpretation Next_op: read_operation "Next api t c" for api t c
  by unfold_locales (auto simp: Next_def First_def lock_simps split: lock_splits)

interpretation Prev_op: read_operation "Prev api t c" for api t c
  by unfold_locales (auto simp: Prev_def Last_def lock_simps split: lock_splits)

interpretation Current_op: read_operation "Current api t c" for api t c
  by unfold_locales (auto simp: Current_def lock_simps split: lock_splits)

interpretation Upsert_op: db_operation "Upsert api t c k v" for api t c k v
  by unfold_locales (auto simp: Upsert_def Put_def lock_simps split: lock_splits)

interpretation Insert_op: db_operation "Insert api t c k v" for api t c k v
  by unfold_locales (auto simp: Insert_def cache_set_def Let_def lock_simps split: lock_splits)

interpretation Append_op: db_operation "Append api t c k v" for api t c k v
  by unfold_locales (auto simp: Append_def cache_set_def lock_simps split: lock_splits)

interpretation DeleteCurrent_op: db_operation "DeleteCurrent api t c" for api t c
  by unfold_locales (auto simp: DeleteCurrent_def Let_def lock_simps split: lock_splits)

section \<open>What they do\<close>

text \<open>
  The abstract effect of a positioning operation: the row found is the reply, and its key the
  cursor's new position; when there is none the reply is empty and the cursor stays.
\<close>

definition reply_row :: "(bytes \<times> bytes) option \<Rightarrow> bytes" where
  "reply_row r = (case r of None \<Rightarrow> [] | Some (k, v) \<Rightarrow> k @ v)"

definition move_cursor :: "bytes \<Rightarrow> (bytes \<times> bytes) option \<Rightarrow> ('ms, 'cs) app \<Rightarrow> ('ms, 'cs) app" where
  "move_cursor c r a = (case r of None \<Rightarrow> a | Some (k, _) \<Rightarrow> set_cursor c k a)"

definition positioned :: "bytes \<Rightarrow> (bytes \<times> bytes) option \<Rightarrow> ('ms, 'cs) app \<Rightarrow>
    (db_error + bytes) outcome \<times> ('ms, 'cs) app" where
  "positioned c r a = (Ret (Inr (reply_row r)), move_cursor c r a)"

lemmas positioned_defs = positioned_def reply_row_def move_cursor_def

lemma positioned_simps [simp]:
  "positioned c None a = (Ret (Inr []), a)"
  "positioned c (Some (k, v)) a = (Ret (Inr (k @ v)), set_cursor c k a)"
  by (simp_all add: positioned_defs)

text \<open>A table code outside the catalogue is refused, and nothing changes.\<close>

lemma unknown_table_cursor:
  assumes "locks_free a" and "executionTablesInfo a t = None"
  shows "First api t c a = (Ret (Inl ErrTableNotFound), a)"
    and "SeekExact api t c k a = (Ret (Inl ErrTableNotFound), a)"
    and "Seek api t c k a = (Ret (Inl ErrTableNotFound), a)"
    and "Next api t c a = (Ret (Inl ErrTableNotFound), a)"
    and "Prev api t c a = (Ret (Inl ErrTableNotFound), a)"
    and "Last api t c a = (Ret (Inl ErrTableNotFound), a)"
    and "Current api t c a = (Ret (Inl ErrTableNotFound), a)"
    and "Upsert api t c k v a = (Ret (Inl ErrTableNotFound), a)"
    and "Insert api t c k v a = (Ret (Inl ErrTableNotFound), a)"
    and "Append api t c k v a = (Ret (Inl ErrTableNotFound), a)"
    and "DeleteCurrent api t c a = (Ret (Inl ErrTableNotFound), a)"
  using assms
  by (auto simp: First_def SeekExact_def Seek_def Next_def Prev_def Last_def Current_def
      Upsert_def Put_def Insert_def Append_def DeleteCurrent_def lock_simps)

lemma First_rows:
  "locks_free a \<Longrightarrow> executionTablesInfo a t = Some table \<Longrightarrow>
     First api t c a =
       positioned c (head_row (ms_Iterator api (commitMultiStore a) (StoreKey table) None None)) a"
  by (auto simp: First_def lock_simps split: list.split)

lemma Last_rows:
  "locks_free a \<Longrightarrow> executionTablesInfo a t = Some table \<Longrightarrow>
     Last api t c a =
       positioned c (head_row (ms_ReverseIterator api (commitMultiStore a) (StoreKey table) None None)) a"
  by (auto simp: Last_def lock_simps split: list.split)

lemma Seek_rows:
  "locks_free a \<Longrightarrow> executionTablesInfo a t = Some table \<Longrightarrow>
     Seek api t c k a =
       positioned c (head_row (ms_Iterator api (commitMultiStore a) (StoreKey table) (Some k) None)) a"
  by (auto simp: Seek_def lock_simps split: list.split)

lemma SeekExact_rows:
  "locks_free a \<Longrightarrow> executionTablesInfo a t = Some table \<Longrightarrow>
     head_row (ms_Iterator api (commitMultiStore a) (StoreKey table) (Some k) None) = r \<Longrightarrow>
     SeekExact api t c k a =
       (Ret (Inr (case r of None \<Rightarrow> []
          | Some (k', v) \<Rightarrow> if (if DupSorted table then prefix k k' else k = k') then k' @ v else [])),
        move_cursor c r a)"
  by (auto simp: SeekExact_def lock_simps has_prefix_iff move_cursor_def split: list.split)

lemma Next_rows:
  "locks_free a \<Longrightarrow> executionTablesInfo a t = Some table \<Longrightarrow>
     ethIteratorsCurrentKey a c = Some cur \<Longrightarrow>
     Next api t c a = positioned c (head_row (tl
       (ms_Iterator api (commitMultiStore a) (StoreKey table) (Some cur) None))) a"
  by (auto simp: Next_def lock_simps split: list.split)

lemma Prev_rows:
  "locks_free a \<Longrightarrow> executionTablesInfo a t = Some table \<Longrightarrow>
     ethIteratorsCurrentKey a c = Some cur \<Longrightarrow>
     Prev api t c a = positioned c (head_row
       (ms_ReverseIterator api (commitMultiStore a) (StoreKey table) None (Some cur))) a"
  by (auto simp: Prev_def lock_simps split: list.split)

lemma Upsert_known:
  "locks_free a \<Longrightarrow> executionTablesInfo a t = Some table \<Longrightarrow>
     Upsert api t c k v a = (Ret (Inr ()), set_cursor c k (cache_set api (StoreKey table) k v a))"
  by (auto simp: Upsert_def Put_def cache_set_def lock_simps)

lemma Current_unset:
  "locks_free a \<Longrightarrow> executionTablesInfo a t = Some table \<Longrightarrow> ethIteratorsCurrentKey a c = None \<Longrightarrow>
     Current api t c a = (Ret (Inl ErrCurrentKeyIsNotSet), a)"
  by (auto simp: Current_def lock_simps)

lemma DeleteCurrent_unset:
  "locks_free a \<Longrightarrow> executionTablesInfo a t = Some table \<Longrightarrow> ethIteratorsCurrentKey a c = None \<Longrightarrow>
     DeleteCurrent api t c a = (Ret (Inl ErrCurrentKeyIsNotSet), a)"
  by (auto simp: DeleteCurrent_def lock_simps)

section \<open>Waiting forever\<close>

text \<open>
  A goroutine that waits for the cursor lock while it holds it never releases the store lock
  either. In such a state every operation that needs one of the two waits.
\<close>

definition stuck :: "('ms, 'cs) app \<Rightarrow> bool" where
  "stuck a \<longleftrightarrow> 0 < readers (rwMutex a) \<and> \<not> writer (rwMutex a) \<and>
     writer (ethIteratorsCurrentKeyLock a)"

lemma Next_unset:
  assumes "locks_free a" and "executionTablesInfo a t = Some table"
    and "ethIteratorsCurrentKey a c = None"
  shows "ms_Iterator api (commitMultiStore a) (StoreKey table) None None = [] \<Longrightarrow>
      Next api t c a = (Ret (Inr []), a)"
    and "ms_Iterator api (commitMultiStore a) (StoreKey table) None None \<noteq> [] \<Longrightarrow>
      \<exists>a'. Next api t c a = (Blocked, a') \<and> stuck a'"
  using assms
  by (auto simp: Next_def First_def lock_simps stuck_def split: list.split)

lemma Prev_unset:
  assumes "locks_free a" and "executionTablesInfo a t = Some table"
    and "ethIteratorsCurrentKey a c = None"
  shows "ms_ReverseIterator api (commitMultiStore a) (StoreKey table) None None = [] \<Longrightarrow>
      Prev api t c a = (Ret (Inr []), a)"
    and "ms_ReverseIterator api (commitMultiStore a) (StoreKey table) None None \<noteq> [] \<Longrightarrow>
      \<exists>a'. Prev api t c a = (Blocked, a') \<and> stuck a'"
  using assms
  by (auto simp: Prev_def Last_def lock_simps stuck_def split: list.split)

text \<open>A writer that has to wait announces itself; readers that come later wait as well.\<close>

definition writer_waits :: "('ms, 'cs) app \<Rightarrow> ('ms, 'cs) app" where
  "writer_waits a = a\<lparr>rwMutex := (rwMutex a)\<lparr>announced := True\<rparr>\<rparr>"

lemma writer_waits_simps [simp]:
  "stuck (writer_waits a) = stuck a"
  "executionCacheMultistore (writer_waits a) = executionCacheMultistore a"
  "commitMultiStore (writer_waits a) = commitMultiStore a"
  "executionTablesInfo (writer_waits a) = executionTablesInfo a"
  "ethIteratorsCurrentKey (writer_waits a) = ethIteratorsCurrentKey a"
  by (simp_all add: writer_waits_def stuck_def)

lemma rw_Locked_stuck: "stuck a \<Longrightarrow> rw_Locked body a = (Blocked, writer_waits a)"
  by (simp add: rw_Locked_def stuck_def scoped_def Lock_def writer_waits_def)

lemma stuck_writes:
  assumes "stuck a"
  shows "Put api t k v a = (Blocked, writer_waits a)"
    and "Delete api t k b a = (Blocked, writer_waits a)"
    and "Write api a = (Blocked, writer_waits a)"
    and "Upsert api t c k v a = (Blocked, writer_waits a)"
    and "Insert api t c k v a = (Blocked, writer_waits a)"
    and "Append api t c k v a = (Blocked, writer_waits a)"
    and "DeleteCurrent api t c a = (Blocked, writer_waits a)"
  using assms
  by (simp_all add: Put_def Delete_def Write_def Upsert_def Insert_def Append_def
      DeleteCurrent_def rw_Locked_stuck)

lemma stuck_cursors:
  assumes "stuck a" and "executionTablesInfo a t = Some table"
  shows "\<exists>a'. Next api t c a = (Blocked, a') \<and> stuck a'"
    and "\<exists>a'. Prev api t c a = (Blocked, a') \<and> stuck a'"
    and "\<exists>a'. Current api t c a = (Blocked, a') \<and> stuck a'"
    and "ms_Iterator api (commitMultiStore a) (StoreKey table) None None \<noteq> [] \<Longrightarrow>
      \<exists>a'. First api t c a = (Blocked, a') \<and> stuck a'"
    and "ms_ReverseIterator api (commitMultiStore a) (StoreKey table) None None \<noteq> [] \<Longrightarrow>
      \<exists>a'. Last api t c a = (Blocked, a') \<and> stuck a'"
  using assms
  by (auto simp: Next_def Prev_def Current_def First_def Last_def rw_RLocked_def cur_Locked_def
      cur_RLocked_def scoped_def getTable_def RLock_def Lock_def stuck_def neq_Nil_conv)

section \<open>The cursor operations over the map of the rows\<close>

context multistore
begin

lemma First_map:
  "locks_free a \<Longrightarrow> executionTablesInfo a t = Some table \<Longrightarrow>
     First api t c a = positioned c
       (first_where (\<lambda>_. True) (map_of (ms_rows (commitMultiStore a) (StoreKey table)))) a"
  by (simp add: First_rows committed.iterator_hd)

lemma Last_map:
  "locks_free a \<Longrightarrow> executionTablesInfo a t = Some table \<Longrightarrow>
     Last api t c a = positioned c
       (last_where (\<lambda>_. True) (map_of (ms_rows (commitMultiStore a) (StoreKey table)))) a"
  by (simp add: Last_rows committed.reverse_hd)

lemma Seek_map:
  "locks_free a \<Longrightarrow> executionTablesInfo a t = Some table \<Longrightarrow>
     Seek api t c k a = positioned c
       (first_where ((\<le>) k) (map_of (ms_rows (commitMultiStore a) (StoreKey table)))) a"
  by (simp add: Seek_rows committed.iterator_first)

lemma Prev_map:
  "locks_free a \<Longrightarrow> executionTablesInfo a t = Some table \<Longrightarrow>
     ethIteratorsCurrentKey a c = Some cur \<Longrightarrow>
     Prev api t c a = positioned c
       (last_where (\<lambda>x. x < cur) (map_of (ms_rows (commitMultiStore a) (StoreKey table)))) a"
  by (simp add: Prev_rows committed.reverse_below_hd)

lemma Next_map:
  assumes "locks_free a" and "executionTablesInfo a t = Some table"
    and "ethIteratorsCurrentKey a c = Some cur"
    and "map_of (ms_rows (commitMultiStore a) (StoreKey table)) cur = Some v"
  shows "Next api t c a = positioned c
    (first_where ((<) cur) (map_of (ms_rows (commitMultiStore a) (StoreKey table)))) a"
proof -
  note split = filter_from_present [OF committed.rows_ordered assms(4)]
  from assms(1-3) show ?thesis
    by (simp add: Next_rows committed.iterator_from split first_where_rows [OF committed.rows_ordered])
qed

text \<open>
  When the key under the cursor is not a committed row, the iterator starts at the next row
  and \<open>Next\<close> steps past it.
\<close>

lemma Next_map_absent:
  assumes "locks_free a" and "executionTablesInfo a t = Some table"
    and "ethIteratorsCurrentKey a c = Some cur"
    and "map_of (ms_rows (commitMultiStore a) (StoreKey table)) cur = None"
  shows "Next api t c a = positioned c
    (case first_where ((<) cur) (map_of (ms_rows (commitMultiStore a) (StoreKey table))) of
       None \<Rightarrow> None
     | Some (k, _) \<Rightarrow>
         first_where ((<) k) (map_of (ms_rows (commitMultiStore a) (StoreKey table)))) a"
proof -
  let ?rows = "ms_rows (commitMultiStore a) (StoreKey table)"
  let ?it = "filter (\<lambda>(x, _). cur < x) ?rows"
  have ord: "ordered ?rows" by (rule committed.rows_ordered)
  have run: "Next api t c a = positioned c (head_row (tl ?it)) a"
    using assms by (simp add: Next_rows committed.iterator_from filter_from_absent)
  have fw: "first_where ((<) cur) (map_of ?rows) = head_row ?it"
    by (rule first_where_rows [OF ord])
  show ?thesis
  proof (cases ?it)
    case Nil
    then show ?thesis by (simp add: run fw)
  next
    case (Cons x ys)
    obtain k v where x: "x = (k, v)" by (cases x)
    note kv = ordered_filter_ConsD [OF ord Cons [unfolded x]]
    have "filter (\<lambda>(x, _). k < x) ?it = filter (\<lambda>(x, _). k < x) ?rows"
      using kv(2) by (auto simp: filter_filter intro!: filter_cong)
    moreover have "filter (\<lambda>(x, _). k < x) ?it = ys"
    proof -
      have "ordered ((k, v) # ys)" using ordered_filter [OF ord] Cons x by metis
      then show ?thesis by (auto simp: Cons x filter_id_conv)
    qed
    ultimately show ?thesis
      by (simp add: run fw Cons x first_where_rows [OF ord])
  qed
qed

lemma SeekExact_map:
  assumes "locks_free a" and "executionTablesInfo a t = Some table"
    and "first_where ((\<le>) k) (map_of (ms_rows (commitMultiStore a) (StoreKey table))) = r"
  shows "SeekExact api t c k a =
    (Ret (Inr (case r of None \<Rightarrow> []
       | Some (k', v) \<Rightarrow> if (if DupSorted table then prefix k k' else k = k') then k' @ v else [])),
     move_cursor c r a)"
  using assms by (intro SeekExact_rows) (simp_all add: committed.iterator_first)

text \<open>In a table without subkeys the reply of \<open>SeekExact\<close> is the row of the key itself.\<close>

lemma SeekExact_single:
  assumes "locks_free a" and "executionTablesInfo a t = Some table" and "\<not> DupSorted table"
  shows "fst (SeekExact api t c k a) =
    Ret (Inr (case map_of (ms_rows (commitMultiStore a) (StoreKey table)) k of
                None \<Rightarrow> [] | Some v \<Rightarrow> k @ v))"
proof -
  let ?rows = "ms_rows (commitMultiStore a) (StoreKey table)"
  have ord: "ordered ?rows" by (rule committed.rows_ordered)
  have fw: "first_where ((\<le>) k) (map_of ?rows) = head_row (filter (\<lambda>(x, _). k \<le> x) ?rows)"
    by (rule first_where_rows [OF ord])
  show ?thesis
  proof (cases "map_of ?rows k")
    case None
    have "head_row (filter (\<lambda>(x, _). k < x) ?rows) \<noteq> Some (k, v)" for v
      by (cases "filter (\<lambda>(x, _). k < x) ?rows")
         (auto dest: filter_eq_ConsD)
    then show ?thesis
      using None assms fw
      by (auto simp: SeekExact_map filter_from_absent split: option.splits)
  next
    case (Some v)
    then show ?thesis
      using assms fw filter_from_present [OF ord Some] by (simp add: SeekExact_map)
  qed
qed

lemma Current_map:
  assumes "locks_free a" and "executionTablesInfo a t = Some table"
    and "ethIteratorsCurrentKey a c = Some cur"
  shows "Current api t c a =
    (Ret (Inr (case map_of (ms_rows (commitMultiStore a) (StoreKey table)) cur of
                 None \<Rightarrow> [] | Some v \<Rightarrow> cur @ v)), a)"
  using assms
  by (auto simp: Current_def lock_simps committed.has_rows get_rows split: option.splits)

lemma cache_set_app_rows:
  "cs_rows (cached_store (cache_set api n k v a)) n' =
     (if n' = n then put_entry k v (cs_rows (cached_store a) n') else cs_rows (cached_store a) n')"
  by (simp add: cache_set_def cache_set_rows)

text \<open>\<open>Insert\<close> refuses a key that is present: in a table with subkeys, whatever the subkey.\<close>

lemma Insert_map:
  assumes "locks_free a" and "executionTablesInfo a t = Some table"
    and "DupSorted table \<Longrightarrow> KeyBytes table \<le> length k"
  shows "Insert api t c k v a =
    (if \<exists>x. map_of (cs_rows (cached_store a) (StoreKey table)) x \<noteq> None \<and>
           (if DupSorted table then prefix (take (KeyBytes table) k) x else x = k)
     then (Ret (Inl ErrKeyAlreadyPresent), a)
     else (Ret (Inr ()), set_cursor c k (cache_set api (StoreKey table) k v a)))"
proof -
  have "filter (\<lambda>(x, _). P x) rows \<noteq> [] \<longleftrightarrow> (\<exists>x. map_of rows x \<noteq> None \<and> P x)"
    for P and rows :: entries
    by (force simp: filter_empty_conv map_of_eq_None_iff)
  note nonempty = this [of "prefix (take (KeyBytes table) k)"]
  show ?thesis
  proof (cases "DupSorted table")
    case True
    with assms nonempty show ?thesis
      by (auto simp: Insert_def Let_def lock_simps slice_to_def iterator_prefix cache_set_def)
  next
    case False
    with assms show ?thesis
      by (auto simp: Insert_def Let_def lock_simps cached.has_rows cache_set_def)
  qed
qed

text \<open>\<open>Append\<close> compares with the key part of the last row; into an empty table it writes
  without moving the cursor; a last key shorter than the key part is a panic.\<close>

lemma Append_map:
  assumes "locks_free a" and "executionTablesInfo a t = Some table"
    and "DupSorted table \<Longrightarrow> KeyBytes table \<le> length k"
  shows "Append api t c k v a =
    (case last_where (\<lambda>_. True) (map_of (cs_rows (cached_store a) (StoreKey table))) of
       None \<Rightarrow> (Ret (Inr ()), cache_set api (StoreKey table) k v a)
     | Some (g, _) \<Rightarrow>
         if length g < KeyBytes table then (Panic, a)
         else if (if DupSorted table then take (KeyBytes table) k else k) < take (KeyBytes table) g
         then (Ret (Inl ErrCannotAppendIfKeyIsLessThanCurrentGreatestKey), a)
         else (Ret (Inr ()), set_cursor c k (cache_set api (StoreKey table) k v a)))"
proof -
  have "last_where (\<lambda>_. True) (map_of (cs_rows (cached_store a) (StoreKey table))) =
      head_row (cs_ReverseIterator api (cached_store a) (StoreKey table) None None)"
    by (simp add: cached.reverse_hd)
  then show ?thesis
    using assms
    by (auto simp: Append_def lock_simps slice_to_def cache_set_def split: list.split)
qed

text \<open>\<open>DeleteCurrent\<close> at a row of the table: the row goes, the cursor moves to the next one.\<close>

lemma DeleteCurrent_map:
  assumes "locks_free a" and "executionTablesInfo a t = Some table"
    and "ethIteratorsCurrentKey a c = Some cur"
    and "map_of (cs_rows (cached_store a) (StoreKey table)) cur = Some v"
  shows "DeleteCurrent api t c a =
    (Ret (Inr ()),
     (case first_where ((<) cur) (map_of (cs_rows (cached_store a) (StoreKey table))) of
        None \<Rightarrow> unset_cursor c
      | Some (k, _) \<Rightarrow> set_cursor c k)
     (a\<lparr>executionCacheMultistore :=
        cs_Delete api (executionCacheMultistore a) (StoreKey table) cur\<rparr>))"
proof -
  have it: "cs_Iterator api (cached_store a) (StoreKey table) (Some cur) None =
      (cur, v) # filter (\<lambda>(x, _). cur < x) (cs_rows (cached_store a) (StoreKey table))"
    by (simp add: cached.iterator_from filter_from_present [OF cached.rows_ordered assms(4)])
  show ?thesis
    using assms(1-3) it
    by (auto simp: DeleteCurrent_def Let_def lock_simps
        first_where_rows [OF cached.rows_ordered] split: list.split)
qed

lemma DeleteCurrent_absent:
  assumes "locks_free a" and "executionTablesInfo a t = Some table"
    and "ethIteratorsCurrentKey a c = Some cur"
    and "first_where ((\<le>) cur) (map_of (cs_rows (cached_store a) (StoreKey table))) = None"
  shows "DeleteCurrent api t c a = (Ret (Inl ErrCurrentIteratorKeyIsInvalid), a)"
proof -
  have "head_row (cs_Iterator api (cached_store a) (StoreKey table) (Some cur) None) = None"
    using assms(4) by (simp add: cached.iterator_first)
  then show ?thesis
    using assms(1-3) by (auto simp: DeleteCurrent_def lock_simps)
qed

end
section \<open>Properties\<close>

text \<open>
  C35: the absolute positioning operations. \<open>First\<close>, \<open>Last\<close> and \<open>Seek\<close> find the row with the
  least key, the greatest key, and the least key at or above the one given; the reply is that
  row's key and value, the cursor moves to it, and nothing else of the state changes. With no
  such row the reply is empty and the cursor stays.
\<close>

theorem cursor_positions:
  assumes "multistore api ms_rows cs_rows"
    and "locks_free a" and "executionTablesInfo a t = Some table"
    and M: "M = map_of (ms_rows (commitMultiStore a) (StoreKey table))"
  shows "First api t c a = positioned c (first_where (\<lambda>_. True) M) a \<and>
    Last api t c a = positioned c (last_where (\<lambda>_. True) M) a \<and>
    Seek api t c k a = positioned c (first_where ((\<le>) k) M) a"
  using multistore.First_map [OF assms(1-3)] multistore.Last_map [OF assms(1-3)]
    multistore.Seek_map [OF assms(1-3)] M by simp

theorem cursor_positions_witness:
  "First journal_api 0 (cursor_id 1) sample_app =
      (Ret (Inr (acct 3 @ [30])), set_cursor (cursor_id 1) (acct 3) sample_app) \<and>
    Last journal_api 0 (cursor_id 1) sample_app =
      (Ret (Inr (acct 5 @ [50])), set_cursor (cursor_id 1) (acct 5) sample_app) \<and>
    Seek journal_api 0 (cursor_id 1) (acct 4) sample_app =
      (Ret (Inr (acct 5 @ [50])), set_cursor (cursor_id 1) (acct 5) sample_app)"
  using cursor_positions [OF journal.multistore_axioms, of sample_app 0 accounts_table
      "map_of (replay (commitMultiStore sample_app) (StoreKey accounts_table))" "cursor_id 1" "acct 4"]
  by (simp add: sample_simps cong: search_cong)

text \<open>
  \<open>SeekExact\<close>. In a table without subkeys the reply is the row of the key, if it is
  committed; in a table with subkeys it is the row with the least subkey of the key. Either
  way, found or not, the cursor moves to the least key at or above the one given.
\<close>

theorem seek_exact_finds:
  assumes store: "multistore api ms_rows cs_rows"
    and a: "locks_free a" "executionTablesInfo a t = Some table"
    and M: "M = map_of (ms_rows (commitMultiStore a) (StoreKey table))"
  shows "SeekExact api t c k a =
    (Ret (Inr (reply_row (if DupSorted table then first_where (prefix k) M
                          else map_option (Pair k) (M k)))),
     move_cursor c (first_where ((\<le>) k) M) a)"
proof -
  have fin: "finite (dom M)" by (simp add: M finite_dom_map_of)
  note run = multistore.SeekExact_map [OF store a, of k _ c, OF refl, folded M]
  show ?thesis
  proof (cases "DupSorted table")
    case True
    then show ?thesis
      by (simp add: run first_where_prefix [OF fin] reply_row_def split: option.split)
  next
    case False
    then have "fst (SeekExact api t c k a) = Ret (Inr (case M k of None \<Rightarrow> [] | Some v \<Rightarrow> k @ v))"
      using multistore.SeekExact_single [OF store a, of c k] M by simp
    with False show ?thesis
      by (simp add: run reply_row_def split: option.splits)
  qed
qed

theorem seek_exact_finds_witness:
  "SeekExact journal_api 1 (cursor_id 1) (acct 7) sample_app =
      (Ret (Inr (slot 7 1 @ [71])), set_cursor (cursor_id 1) (slot 7 1) sample_app)"
  using seek_exact_finds [OF journal.multistore_axioms, of sample_app 1 storages_table
      "map_of (replay (commitMultiStore sample_app) (StoreKey storages_table))" "cursor_id 1" "acct 7"]
  by (simp add: sample_simps reply_row_def move_cursor_def cong: search_cong)

text \<open>
  \<open>Current\<close> replies with the committed row under the cursor, empty when its key is no row,
  and with an error when the cursor is not set; it changes nothing.
\<close>

theorem current_reads_cursor:
  assumes "multistore api ms_rows cs_rows"
    and "locks_free a" and "executionTablesInfo a t = Some table"
    and M: "M = map_of (ms_rows (commitMultiStore a) (StoreKey table))"
  shows "Current api t c a =
    (Ret (case ethIteratorsCurrentKey a c of
            None \<Rightarrow> Inl ErrCurrentKeyIsNotSet
          | Some cur \<Rightarrow> Inr (reply_row (map_option (Pair cur) (M cur)))), a)"
proof (cases "ethIteratorsCurrentKey a c")
  case None
  then show ?thesis using Current_unset [OF assms(2,3)] by simp
next
  case (Some cur)
  then show ?thesis
    using multistore.Current_map [OF assms(1-3) Some] M
    by (simp add: reply_row_def split: option.split)
qed

theorem current_reads_cursor_witness:
  "Current journal_api 0 (cursor_id 1) (set_cursor (cursor_id 1) (acct 5) sample_app) =
    (Ret (Inr (acct 5 @ [50])), set_cursor (cursor_id 1) (acct 5) sample_app)"
  using current_reads_cursor [OF journal.multistore_axioms,
      of "set_cursor (cursor_id 1) (acct 5) sample_app" 0 accounts_table
      "map_of (replay (commitMultiStore sample_app) (StoreKey accounts_table))" "cursor_id 1"]
  by (simp add: sample_simps reply_row_def)

text \<open>
  When the key under the cursor is not a committed row (it was deleted, or written and not
  yet committed), \<open>Next\<close> does not go to the next row but to the one after it, and ends the scan
  when there is only one.
\<close>

theorem next_skips_a_row:
  assumes "multistore api ms_rows cs_rows"
    and "locks_free a" and "executionTablesInfo a t = Some table"
    and "ethIteratorsCurrentKey a c = Some cur"
    and M: "M = map_of (ms_rows (commitMultiStore a) (StoreKey table))" and "M cur = None"
    and "first_where ((<) cur) M = Some (k, v)"
  shows "Next api t c a = positioned c (first_where ((<) k) M) a"
  using multistore.Next_map_absent [OF assms(1-4), folded M] assms(6,7) by simp

theorem next_skips_a_row_witness:
  "Next journal_api 0 (cursor_id 1) (set_cursor (cursor_id 1) (acct 2) sample_app) =
    (Ret (Inr (acct 5 @ [50])), set_cursor (cursor_id 1) (acct 5) sample_app)"
  using next_skips_a_row [OF journal.multistore_axioms,
      of "set_cursor (cursor_id 1) (acct 2) sample_app" 0 accounts_table "cursor_id 1" "acct 2"
      "map_of (replay (commitMultiStore sample_app) (StoreKey accounts_table))" "acct 3" "[30]"]
  by (simp add: sample_simps fun_upd_twist cong: search_cong)

text \<open>
  C29: \<open>Insert\<close> writes exactly when the key is new, counting pending rows: in a table without
  subkeys the key itself, in one with subkeys any row of the table key. A refused insertion
  changes nothing; an accepted one adds the row to the cached store, moves the cursor to it,
  and leaves the committed store alone.
\<close>

theorem insert_only_new:
  assumes store: "multistore api ms_rows cs_rows"
    and a: "locks_free a" "executionTablesInfo a t = Some table"
    and k: "DupSorted table \<Longrightarrow> KeyBytes table \<le> length k"
    and M: "M = map_of (cs_rows (cached_store a) (StoreKey table))"
    and present: "present \<longleftrightarrow>
      (\<exists>x \<in> dom M. if DupSorted table then prefix (take (KeyBytes table) k) x else x = k)"
    and run: "Insert api t c k v a = (r, a')"
  shows "if present then r = Ret (Inl ErrKeyAlreadyPresent) \<and> a' = a
    else r = Ret (Inr ()) \<and>
      map_of (cs_rows (cached_store a') (StoreKey table)) = M(k \<mapsto> v) \<and>
      (\<forall>n. n \<noteq> StoreKey table \<longrightarrow> cs_rows (cached_store a') n = cs_rows (cached_store a) n) \<and>
      ethIteratorsCurrentKey a' = (ethIteratorsCurrentKey a)(c \<mapsto> k) \<and>
      commitMultiStore a' = commitMultiStore a \<and> locks_free a'"
proof -
  have ord: "ordered (cs_rows (cached_store a) (StoreKey table))"
    using multistore.axioms(2) [OF store] by (simp add: kv_reader.rows_ordered)
  have "present \<longleftrightarrow> (\<exists>x. M x \<noteq> None \<and>
      (if DupSorted table then prefix (take (KeyBytes table) k) x else x = k))"
    by (auto simp: present)
  then have ins: "Insert api t c k v a = (if present then (Ret (Inl ErrKeyAlreadyPresent), a)
      else (Ret (Inr ()), set_cursor c k (cache_set api (StoreKey table) k v a)))"
    using multistore.Insert_map [OF store a k, folded M, of c v] by simp
  show ?thesis
  proof (cases present)
    case False
    with ins run have "r = Ret (Inr ())"
      and a': "a' = set_cursor c k (cache_set api (StoreKey table) k v a)" by simp_all
    then show ?thesis
      using False ord a(1) multistore.cache_set_app_rows [OF store, of "StoreKey table" k v a]
      by (simp add: map_of_put_entry M cache_set_def locks_free_def)
  qed (use ins run in simp)
qed

theorem insert_only_new_witness:
  "Insert journal_api 1 (cursor_id 1) (slot 7 5) [75] sample_app =
    (Ret (Inl ErrKeyAlreadyPresent), sample_app)"
  using insert_only_new [OF journal.multistore_axioms _ _ _ _ _ prod.collapse [symmetric],
      of sample_app 1 storages_table "slot 7 5"
      "map_of (journal_rows (cached_store sample_app) (StoreKey storages_table))" True "cursor_id 1" "[75]"]
  by (simp add: sample_simps prod_eq_iff)

text \<open>
  C33: \<open>Append\<close> to a table without subkeys whose keys, pending and committed, have the table's
  length or are the router's one-byte marker row, as they are while the router runs. With the
  marker as the greatest key it panics and changes nothing. Otherwise it accepts a key exactly
  when no key of the table is greater, and the key is then the greatest; the cursor moves to
  it, except that an append to the empty table leaves the cursor where it was.
\<close>

theorem append_greatest:
  assumes store: "multistore api ms_rows cs_rows"
    and a: "locks_free a" "executionTablesInfo a t = Some table" "\<not> DupSorted table"
    and M: "M = map_of (cs_rows (cached_store a) (StoreKey table))"
    and len: "\<forall>x \<in> dom M. length x = KeyBytes table \<or> x = [1]" "1 < KeyBytes table"
    and run: "Append api t c k v a = (r, a')"
  shows "if \<exists>w. last_where (\<lambda>_. True) M = Some ([1], w) then r = Panic \<and> a' = a
    else if \<exists>x \<in> dom M. k < x
    then r = Ret (Inl ErrCannotAppendIfKeyIsLessThanCurrentGreatestKey) \<and> a' = a
    else r = Ret (Inr ()) \<and>
      last_where (\<lambda>_. True) (map_of (cs_rows (cached_store a') (StoreKey table))) = Some (k, v) \<and>
      map_of (cs_rows (cached_store a') (StoreKey table)) = M(k \<mapsto> v) \<and>
      ethIteratorsCurrentKey a' =
        (if M = Map.empty then ethIteratorsCurrentKey a else (ethIteratorsCurrentKey a)(c \<mapsto> k))"
proof -
  have fin: "finite (dom M)" by (simp add: M finite_dom_map_of)
  have "ordered (cs_rows (cached_store a) (StoreKey table))"
    using multistore.axioms(2) [OF store] by (simp add: kv_reader.rows_ordered)
  then have upd: "map_of (cs_rows (cached_store (cache_set api (StoreKey table) k v a)) (StoreKey table))
      = M(k \<mapsto> v)"
    using multistore.cache_set_app_rows [OF store, of "StoreKey table" k v a]
    by (simp add: map_of_put_entry M)
  then have upd': "map_of (cs_rows (cached_store (set_cursor c k (cache_set api (StoreKey table) k v a)))
      (StoreKey table)) = M(k \<mapsto> v)" by simp
  note app = multistore.Append_map [OF store a(1,2), of k c v, folded M]
  show ?thesis
  proof (cases "last_where (\<lambda>_. True) M")
    case None
    then have "M = Map.empty" by (auto simp: last_where_None_iff)
    with None show ?thesis
      using app run upd a(3) by (auto simp: last_where_Some_iff cache_set_def)
  next
    case (Some gw)
    obtain g w where gw: "gw = (g, w)" by (cases gw)
    then have g: "M g = Some w" "\<And>x. x \<in> dom M \<Longrightarrow> x \<le> g"
      using Some by (auto simp: last_where_Some_iff [OF fin])
    then have gl: "length g = KeyBytes table \<or> g = [1]" using len(1) by auto
    show ?thesis
    proof (cases "g = [1]")
      case True
      then show ?thesis using app run a(3) len(2) Some gw by simp
    next
      case False
      have "M \<noteq> Map.empty" using g(1) by auto
      moreover have "(\<exists>x \<in> dom M. k < x) \<longleftrightarrow> k < g"
        using g by (auto intro: less_le_trans)
      moreover have "last_where (\<lambda>_. True) (M(k \<mapsto> v)) = Some (k, v)" if "\<not> k < g"
        using that g(2) fin by (subst last_where_Some_iff) (auto simp: not_less intro: order.trans [of _ g])
      ultimately show ?thesis
        using app run upd upd' a(3) gl False Some gw by (auto simp: cache_set_def)
    qed
  qed
qed

text \<open>Two states of a running router: the first table as it starts, and with two accounts.\<close>

definition sample_marked :: "journal \<Rightarrow> (journal, journal) app" where
  "sample_marked rows = sample_app\<lparr>commitMultiStore := (HashedAccountsStoreName, [1], Some [1]) # rows\<rparr>"

theorem append_greatest_witness:
  "fst (Append journal_api 0 (cursor_id 1) (acct 4) [40] (sample_marked [])) = Panic \<and>
    Append journal_api 0 (cursor_id 1) (acct 4) [40] (sample_marked sample_journal) =
      (Ret (Inl ErrCannotAppendIfKeyIsLessThanCurrentGreatestKey), sample_marked sample_journal) \<and>
    fst (Append journal_api 0 (cursor_id 1) (acct 6) [60] (sample_marked sample_journal)) = Ret (Inr ())"
  using append_greatest [OF journal.multistore_axioms _ _ _ _ _ _ prod.collapse [symmetric],
      of "sample_marked []" 0 accounts_table
      "map_of (journal_rows (cached_store (sample_marked [])) (StoreKey accounts_table))"
      "cursor_id 1" "acct 4" "[40]"]
    append_greatest [OF journal.multistore_axioms _ _ _ _ _ _ prod.collapse [symmetric],
      of "sample_marked sample_journal" 0 accounts_table
      "map_of (journal_rows (cached_store (sample_marked sample_journal)) (StoreKey accounts_table))"
      "cursor_id 1" "acct 4" "[40]"]
    append_greatest [OF journal.multistore_axioms _ _ _ _ _ _ prod.collapse [symmetric],
      of "sample_marked sample_journal" 0 accounts_table
      "map_of (journal_rows (cached_store (sample_marked sample_journal)) (StoreKey accounts_table))"
      "cursor_id 1" "acct 6" "[60]"]
  by (simp add: sample_marked_def sample_simps prod_eq_iff cong: search_cong)

text \<open>
  C34: \<open>DeleteCurrent\<close> at a row of the table, pending or committed: the row is gone from the
  cached store, the others stay, and the cursor moves to the next row there, or is unset when
  the row was the last.
\<close>

theorem delete_current_moves_on:
  assumes store: "multistore api ms_rows cs_rows"
    and a: "locks_free a" "executionTablesInfo a t = Some table"
      "ethIteratorsCurrentKey a c = Some cur"
    and M: "M = map_of (cs_rows (cached_store a) (StoreKey table))" and v: "M cur = Some v"
    and run: "DeleteCurrent api t c a = (r, a')"
  shows "r = Ret (Inr ()) \<and>
    map_of (cs_rows (cached_store a') (StoreKey table)) = M(cur := None) \<and>
    ethIteratorsCurrentKey a' =
      (ethIteratorsCurrentKey a)(c := map_option fst (first_where ((<) cur) M)) \<and>
    commitMultiStore a' = commitMultiStore a"
  using multistore.DeleteCurrent_map [OF store a v [unfolded M]] M run
    multistore.cache_delete_rows [OF store]
  by (auto simp: map_of_del_entry split: option.split)

theorem delete_current_moves_on_witness:
  "\<exists>a'. DeleteCurrent journal_api 0 (cursor_id 1) (set_cursor (cursor_id 1) (acct 3) sample_app) =
      (Ret (Inr ()), a') \<and>
    map_of (journal_rows (cached_store a') HashedAccountsStoreName) (acct 3) = None \<and>
    ethIteratorsCurrentKey a' (cursor_id 1) = Some (acct 5)"
proof -
  obtain r a' where run: "DeleteCurrent journal_api 0 (cursor_id 1)
      (set_cursor (cursor_id 1) (acct 3) sample_app) = (r, a')" by fastforce
  then show ?thesis
    using delete_current_moves_on [OF journal.multistore_axioms _ _ _ _ _ run, of accounts_table
      "acct 3" "map_of (journal_rows (cached_store sample_app) (StoreKey accounts_table))" "[30]"]
    by (auto simp: sample_simps cong: search_cong)
qed

end
