(* ===== verification/Db_Dup.thy ===== *)
theory Db_Dup imports Db_Cursor begin

text \<open>
  The cursor operations of \<open>app/db_eth.go\<close> for tables with subkeys (\<open>DupSorted\<close>): a row's
  key is the table key, of \<open>KeyBytes\<close> bytes, followed by the subkey, and the rows of one table
  key are its duplicates.
\<close>

section \<open>The operations\<close>

definition NextDup :: "('ms, 'cs) store_api \<Rightarrow> bool \<Rightarrow> byte \<Rightarrow> bytes \<Rightarrow>
    ('ms, 'cs, db_error + bytes) op" where
  "NextDup api onlyVal tableCode cursorID = rw_RLocked (\<lambda>a.
     (case getTable a tableCode of
        Inl err \<Rightarrow> (Ret (Inl err), a)
      | Inr table \<Rightarrow>
          if \<not> DupSorted table then (Ret (Inl ErrInvalidRequestData), a)
          else cur_Locked (\<lambda>a.
            (case ethIteratorsCurrentKey a cursorID of
               None \<Rightarrow>
                 (case First api tableCode cursorID a of
                    (Ret (Inr resp), a) \<Rightarrow>
                      if onlyVal then
                        (case slice_from resp (KeyBytes table) of
                           None \<Rightarrow> (Panic, a)
                         | Some resp \<Rightarrow> (Ret (Inr resp), a))
                      else (Ret (Inr resp), a)
                  | (r, a) \<Rightarrow> (r, a))
             | Some currentKey \<Rightarrow>
                 (case slice_to currentKey (KeyBytes table) of
                    None \<Rightarrow> (Panic, a)
                  | Some key \<Rightarrow>
                      (case ms_Iterator api (commitMultiStore a) (StoreKey table)
                              (Some currentKey) (PrefixEndBytes api key) of
                         [] \<Rightarrow> (Ret (Inl ErrCurrentIteratorKeyIsInvalid), a)
                       | _ # iterator \<Rightarrow>
                           (case iterator of
                              [] \<Rightarrow> (Ret (Inr []), a)
                            | (k, v) # _ \<Rightarrow>
                                if has_prefix k key then
                                  (if onlyVal then
                                     (case slice_from k (KeyBytes table) of
                                        None \<Rightarrow> (Panic, set_cursor cursorID k a)
                                      | Some subkey \<Rightarrow>
                                          (Ret (Inr (subkey @ v)), set_cursor cursorID k a))
                                   else (Ret (Inr (k @ v)), set_cursor cursorID k a))
                                else (Ret (Inr []), a)))))) a))"

definition NextNoDup :: "('ms, 'cs) store_api \<Rightarrow> byte \<Rightarrow> bytes \<Rightarrow>
    ('ms, 'cs, db_error + bytes) op" where
  "NextNoDup api tableCode cursorID = rw_RLocked (\<lambda>a.
     (case getTable a tableCode of
        Inl err \<Rightarrow> (Ret (Inl err), a)
      | Inr table \<Rightarrow>
          if \<not> DupSorted table then (Ret (Inl ErrInvalidRequestData), a)
          else cur_Locked (\<lambda>a.
            (case ethIteratorsCurrentKey a cursorID of
               None \<Rightarrow> First api tableCode cursorID a
             | Some currentKey \<Rightarrow>
                 (case slice_to currentKey (KeyBytes table) of
                    None \<Rightarrow> (Panic, a)
                  | Some key \<Rightarrow>
                      (case ms_Iterator api (commitMultiStore a) (StoreKey table)
                              (PrefixEndBytes api key) None of
                         [] \<Rightarrow> (Ret (Inr []), a)
                       | (k, v) # _ \<Rightarrow> (Ret (Inr (k @ v)), set_cursor cursorID k a))))) a))"

text \<open>\<open>SeekByKeySubkey\<close> moves the cursor before it slices the key it was given.\<close>

definition SeekByKeySubkey :: "('ms, 'cs) store_api \<Rightarrow> byte \<Rightarrow> bytes \<Rightarrow> bytes \<Rightarrow>
    ('ms, 'cs, db_error + bytes) op" where
  "SeekByKeySubkey api tableCode cursorID key = rw_RLocked (\<lambda>a.
     (case getTable a tableCode of
        Inl err \<Rightarrow> (Ret (Inl err), a)
      | Inr table \<Rightarrow>
          if \<not> DupSorted table then (Ret (Inl ErrInvalidRequestData), a)
          else
            (let iterator = ms_Iterator api (commitMultiStore a) (StoreKey table) (Some key) None
             in cur_Locked (\<lambda>a.
                  (case iterator of
                     [] \<Rightarrow> (Ret (Inr []), unset_cursor cursorID a)
                   | (k, v) # _ \<Rightarrow>
                       (let a = set_cursor cursorID k a in
                        (case slice_to key (KeyBytes table) of
                           None \<Rightarrow> (Panic, a)
                         | Some p \<Rightarrow>
                             if \<not> has_prefix k p then (Ret (Inr []), a)
                             else
                               (case slice_from k (KeyBytes table) of
                                  None \<Rightarrow> (Panic, a)
                                | Some subkey \<Rightarrow> (Ret (Inr (subkey @ v)), a)))))) a)))"

definition DeleteCurrentDuplicates :: "('ms, 'cs) store_api \<Rightarrow> byte \<Rightarrow> bytes \<Rightarrow>
    ('ms, 'cs, db_error + unit) op" where
  "DeleteCurrentDuplicates api tableCode cursorID = rw_Locked (\<lambda>a.
     (case getTable a tableCode of
        Inl err \<Rightarrow> (Ret (Inl err), a)
      | Inr table \<Rightarrow>
          if \<not> DupSorted table then (Ret (Inl ErrInvalidRequestData), a)
          else cur_Locked (\<lambda>a.
            (case ethIteratorsCurrentKey a cursorID of
               None \<Rightarrow> (Ret (Inl ErrCurrentKeyIsNotSet), a)
             | Some currentKey \<Rightarrow>
                 (case slice_to currentKey (KeyBytes table) of
                    None \<Rightarrow> (Panic, a)
                  | Some key \<Rightarrow>
                      (case cs_Iterator api (cached_store a) (StoreKey table)
                              (Some key) (PrefixEndBytes api key) of
                         [] \<Rightarrow> (Ret (Inl ErrCurrentIteratorKeyIsInvalid), a)
                       | iterator \<Rightarrow>
                           (let a = a\<lparr>executionCacheMultistore := delete_each api (StoreKey table)
                                  iterator (executionCacheMultistore a)\<rparr> in
                            (case cs_Iterator api (cached_store a) (StoreKey table)
                                    (PrefixEndBytes api key) None of
                               [] \<Rightarrow> (Ret (Inr ()), unset_cursor cursorID a)
                             | (k, _) # _ \<Rightarrow> (Ret (Inr ()), set_cursor cursorID k a))))))) a))"

definition AppendDup :: "('ms, 'cs) store_api \<Rightarrow> byte \<Rightarrow> bytes \<Rightarrow> bytes \<Rightarrow> bytes \<Rightarrow>
    ('ms, 'cs, db_error + unit) op" where
  "AppendDup api tableCode cursorID k value = rw_Locked (\<lambda>a.
     (case getTable a tableCode of
        Inl err \<Rightarrow> (Ret (Inl err), a)
      | Inr table \<Rightarrow>
          if \<not> DupSorted table then (Ret (Inl ErrInvalidRequestData), a)
          else
            (case slice_to k (KeyBytes table) of
               None \<Rightarrow> (Panic, a)
             | Some key \<Rightarrow>
                 (case slice_from k (KeyBytes table) of
                    None \<Rightarrow> (Panic, a)
                  | Some subkey \<Rightarrow>
                      (let iterator = cs_ReverseIterator api (cached_store a) (StoreKey table)
                             (Some key) (PrefixEndBytes api key)
                       in cur_Locked (\<lambda>a.
                            (case iterator of
                               [] \<Rightarrow>
                                 (Ret (Inr ()),
                                  set_cursor cursorID k (cache_set api (StoreKey table) k value a))
                             | (g, _) # _ \<Rightarrow>
                                 (case slice_from g (KeyBytes table) of
                                    None \<Rightarrow> (Panic, a)
                                  | Some greatestSubkey \<Rightarrow>
                                      if bytes_compare subkey greatestSubkey < 0 then
                                        (Ret (Inl ErrCannotAppendDupIfSubkeyIsLessThanGreatestSubKeyForKey), a)
                                      else
                                        (Ret (Inr ()), set_cursor cursorID k
                                           (cache_set api (StoreKey table) k value a))))) a)))))"

section \<open>Their contract\<close>

interpretation NextDup_op: read_operation "NextDup api b t c" for api b t c
  by unfold_locales (auto simp: NextDup_def First_def lock_simps split: lock_splits)

interpretation NextNoDup_op: read_operation "NextNoDup api t c" for api t c
  by unfold_locales (auto simp: NextNoDup_def First_def lock_simps split: lock_splits)

interpretation SeekByKeySubkey_op: read_operation "SeekByKeySubkey api t c k" for api t c k
  by unfold_locales (auto simp: SeekByKeySubkey_def Let_def lock_simps split: lock_splits)

interpretation DeleteCurrentDuplicates_op: db_operation "DeleteCurrentDuplicates api t c" for api t c
  by unfold_locales (auto simp: DeleteCurrentDuplicates_def Let_def lock_simps split: lock_splits)

interpretation AppendDup_op: db_operation "AppendDup api t c k v" for api t c k v
  by unfold_locales (auto simp: AppendDup_def cache_set_def Let_def lock_simps split: lock_splits)

section \<open>What they do\<close>

lemma unknown_table_dup:
  assumes "locks_free a" and "executionTablesInfo a t = None"
  shows "NextDup api b t c a = (Ret (Inl ErrTableNotFound), a)"
    and "NextNoDup api t c a = (Ret (Inl ErrTableNotFound), a)"
    and "SeekByKeySubkey api t c k a = (Ret (Inl ErrTableNotFound), a)"
    and "DeleteCurrentDuplicates api t c a = (Ret (Inl ErrTableNotFound), a)"
    and "AppendDup api t c k v a = (Ret (Inl ErrTableNotFound), a)"
  using assms
  by (auto simp: NextDup_def NextNoDup_def SeekByKeySubkey_def DeleteCurrentDuplicates_def
      AppendDup_def lock_simps)

lemma not_dup_table:
  assumes "locks_free a" and "executionTablesInfo a t = Some table" and "\<not> DupSorted table"
  shows "NextDup api b t c a = (Ret (Inl ErrInvalidRequestData), a)"
    and "NextNoDup api t c a = (Ret (Inl ErrInvalidRequestData), a)"
    and "SeekByKeySubkey api t c k a = (Ret (Inl ErrInvalidRequestData), a)"
    and "DeleteCurrentDuplicates api t c a = (Ret (Inl ErrInvalidRequestData), a)"
    and "AppendDup api t c k v a = (Ret (Inl ErrInvalidRequestData), a)"
  using assms
  by (auto simp: NextDup_def NextNoDup_def SeekByKeySubkey_def DeleteCurrentDuplicates_def
      AppendDup_def lock_simps)

lemma dup_unset:
  assumes "locks_free a" and "executionTablesInfo a t = Some table" and "DupSorted table"
    and "ethIteratorsCurrentKey a c = None"
    and "ms_Iterator api (commitMultiStore a) (StoreKey table) None None \<noteq> []"
  shows "\<exists>a'. NextDup api b t c a = (Blocked, a') \<and> stuck a'"
    and "\<exists>a'. NextNoDup api t c a = (Blocked, a') \<and> stuck a'"
  using assms
  by (auto simp: NextDup_def NextNoDup_def First_def lock_simps stuck_def neq_Nil_conv)

lemma stuck_dup_writes:
  assumes "stuck a"
  shows "DeleteCurrentDuplicates api t c a = (Blocked, writer_waits a)"
    and "AppendDup api t c k v a = (Blocked, writer_waits a)"
  using assms by (simp_all add: DeleteCurrentDuplicates_def AppendDup_def rw_Locked_stuck)

text \<open>A cursor that stands on a key shorter than the table key is a panic.\<close>

lemma short_cursor_panics:
  assumes "locks_free a" and "executionTablesInfo a t = Some table" and "DupSorted table"
    and "ethIteratorsCurrentKey a c = Some cur" and "length cur < KeyBytes table"
  shows "NextDup api b t c a = (Panic, a)"
    and "NextNoDup api t c a = (Panic, a)"
    and "DeleteCurrentDuplicates api t c a = (Panic, a)"
  using assms
  by (auto simp: NextDup_def NextNoDup_def DeleteCurrentDuplicates_def lock_simps slice_to_def)

lemma prefix_drop_less_iff:
  assumes "prefix p x" and "prefix p y"
  shows "drop (length p) x < drop (length p) y \<longleftrightarrow> x < (y :: bytes)"
proof -
  have "p @ u < p @ v \<longleftrightarrow> u < v" for u v :: bytes
    by (induction p) auto
  with assms show ?thesis by (auto simp: prefix_def)
qed

context multistore
begin

lemma duplicates_from:
  assumes "prefix key cur"
  shows "ms_Iterator api m n (Some cur) (PrefixEndBytes api key) =
    filter (\<lambda>(x, _). cur \<le> x \<and> prefix key x) (ms_rows m n)"
proof -
  have "in_range (Some cur) (PrefixEndBytes api key) x \<longleftrightarrow> cur \<le> x \<and> prefix key x" for x
    using prefix_end [of key x] prefix_le [OF assms] by (auto simp: in_range_def)
  then show ?thesis by (simp add: committed.iterator_rows range_entries_def)
qed

text \<open>\<open>NextDup\<close> at a committed row: the next row of the same table key, if there is one.\<close>

lemma NextDup_map:
  assumes "locks_free a" and "executionTablesInfo a t = Some table" and "DupSorted table"
    and "ethIteratorsCurrentKey a c = Some cur" and "KeyBytes table \<le> length cur"
    and "map_of (ms_rows (commitMultiStore a) (StoreKey table)) cur = Some v"
  shows "NextDup api False t c a = positioned c
    (first_where (\<lambda>x. cur < x \<and> prefix (take (KeyBytes table) cur) x)
       (map_of (ms_rows (commitMultiStore a) (StoreKey table)))) a"
proof -
  let ?key = "take (KeyBytes table) cur"
  let ?rows = "ms_rows (commitMultiStore a) (StoreKey table)"
  have ord: "ordered ?rows" by (rule committed.rows_ordered)
  have it: "ms_Iterator api (commitMultiStore a) (StoreKey table) (Some cur)
      (PrefixEndBytes api ?key) = (cur, v) # filter (\<lambda>(x, _). cur < x \<and> prefix ?key x) ?rows"
    by (simp add: duplicates_from take_is_prefix filter_from_present_and [OF ord assms(6)])
  show ?thesis
  proof (cases "filter (\<lambda>(x, _). cur < x \<and> prefix ?key x) ?rows")
    case Nil
    then show ?thesis
      using assms(1-5) it
      by (simp add: NextDup_def lock_simps slice_to_def first_where_rows [OF ord])
  next
    case (Cons y ys)
    obtain k w where y: "y = (k, w)" by (cases y)
    have "prefix ?key k" using ordered_filter_ConsD(2) [OF ord Cons [unfolded y]] by simp
    then show ?thesis
      using assms(1-5) it Cons y
      by (simp add: NextDup_def lock_simps slice_to_def has_prefix_iff first_where_rows [OF ord])
  qed
qed

text \<open>\<open>NextNoDup\<close>: the first row of the next table key; past the table key of all bytes 255
  it starts again at the first row of the table.\<close>

lemma NextNoDup_map:
  assumes "locks_free a" and "executionTablesInfo a t = Some table" and "DupSorted table"
    and "ethIteratorsCurrentKey a c = Some cur" and "KeyBytes table \<le> length cur"
    and "key = take (KeyBytes table) cur"
  shows "NextNoDup api t c a = positioned c
    (first_where (\<lambda>x. set key \<subseteq> {255} \<or> (key < x \<and> \<not> prefix key x))
       (map_of (ms_rows (commitMultiStore a) (StoreKey table)))) a"
proof -
  let ?rows = "ms_rows (commitMultiStore a) (StoreKey table)"
  have "head_row (ms_Iterator api (commitMultiStore a) (StoreKey table) (PrefixEndBytes api key) None)
      = first_where (\<lambda>x. set key \<subseteq> {255} \<or> (key < x \<and> \<not> prefix key x)) (map_of ?rows)"
  proof (cases "PrefixEndBytes api key")
    case None
    then have "set key \<subseteq> {255}" by (simp add: prefix_end_None_iff)
    with None show ?thesis by (simp add: committed.iterator_hd)
  next
    case (Some e)
    then have "\<not> set key \<subseteq> {255}" using prefix_end_None_iff by force
    with Some show ?thesis
      using iterator_past_prefix(1) [of key]
      by (simp add: first_where_rows [OF committed.rows_ordered])
  qed
  moreover have "NextNoDup api t c a = positioned c
      (head_row (ms_Iterator api (commitMultiStore a) (StoreKey table) (PrefixEndBytes api key) None)) a"
    using assms by (auto simp: NextNoDup_def lock_simps slice_to_def split: list.split)
  ultimately show ?thesis by simp
qed

lemma SeekByKeySubkey_map:
  assumes "locks_free a" and "executionTablesInfo a t = Some table" and "DupSorted table"
    and "KeyBytes table \<le> length key"
  shows "SeekByKeySubkey api t c key a =
    (case first_where ((\<le>) key) (map_of (ms_rows (commitMultiStore a) (StoreKey table))) of
       None \<Rightarrow> (Ret (Inr []), unset_cursor c a)
     | Some (k, v) \<Rightarrow>
         (Ret (Inr (if prefix (take (KeyBytes table) key) k then drop (KeyBytes table) k @ v else [])),
          set_cursor c k a))"
proof -
  have "first_where ((\<le>) key) (map_of (ms_rows (commitMultiStore a) (StoreKey table))) =
      head_row (ms_Iterator api (commitMultiStore a) (StoreKey table) (Some key) None)"
    by (simp add: committed.iterator_first)
  moreover have "prefix (take (KeyBytes table) key) k \<Longrightarrow> KeyBytes table \<le> length k" for k
    using assms(4) prefix_length_le by fastforce
  ultimately show ?thesis
    using assms
    by (auto simp: SeekByKeySubkey_def Let_def lock_simps slice_to_def slice_from_def
        has_prefix_iff split: list.split)
qed

text \<open>
  \<open>DeleteCurrentDuplicates\<close>: every row of the cursor's table key goes, and the cursor moves to
  the first row after them; past the table key of all bytes 255, to the first row left.
\<close>

lemma DeleteCurrentDuplicates_map:
  assumes "locks_free a" and "executionTablesInfo a t = Some table" and "DupSorted table"
    and "ethIteratorsCurrentKey a c = Some cur" and "KeyBytes table \<le> length cur"
    and key: "key = take (KeyBytes table) cur"
    and rows: "rows = cs_rows (cached_store a) (StoreKey table)"
    and present: "filter (\<lambda>(x, _). prefix key x) rows \<noteq> []"
  obtains c' where
    "DeleteCurrentDuplicates api t c a = (Ret (Inr ()),
      (case head_row (filter (\<lambda>(x, _). \<not> prefix key x \<and> (set key \<subseteq> {255} \<or> key < x)) rows) of
         None \<Rightarrow> unset_cursor c
       | Some (k, _) \<Rightarrow> set_cursor c k)
      (a\<lparr>executionCacheMultistore := c'\<rparr>))"
    and "cs_rows (commitMultiStore a, c') (StoreKey table) = filter (\<lambda>(x, _). \<not> prefix key x) rows"
    and "\<And>n. n \<noteq> StoreKey table \<Longrightarrow> cs_rows (commitMultiStore a, c') n = cs_rows (cached_store a) n"
proof -
  let ?it = "cs_Iterator api (cached_store a) (StoreKey table) (Some key) (PrefixEndBytes api key)"
  obtain d where d: "d = delete_each api (StoreKey table) ?it (executionCacheMultistore a)"
    by simp
  let ?P = "\<lambda>x. \<not> prefix key x \<and> (set key \<subseteq> {255} \<or> key < x)"
  have it: "?it = filter (\<lambda>(x, _). prefix key x) rows" by (simp add: iterator_prefix rows)
  have gone: "filter (\<lambda>(x, _). x \<notin> set (keys_of (filter (\<lambda>(x, _). prefix key x) rows))) rows =
      filter (\<lambda>(x, _). \<not> prefix key x) rows"
    by (rule filter_cong [OF refl]) force
  have c1: "cs_rows (commitMultiStore a, d) (StoreKey table) =
      filter (\<lambda>(x, _). \<not> prefix key x) rows"
    by (simp only: d delete_each_rows it if_True refl gone rows [symmetric])
  have c2: "cs_rows (commitMultiStore a, d) n = cs_rows (cached_store a) n"
    if "n \<noteq> StoreKey table" for n
    using that by (simp add: d delete_each_rows)
  have nxt: "cs_Iterator api (commitMultiStore a, d) (StoreKey table) (PrefixEndBytes api key) None =
      filter (\<lambda>(x, _). ?P x) rows"
  proof (cases "set key \<subseteq> {255}")
    case True
    then have "PrefixEndBytes api key = None" by (rule prefix_end_all_255)
    with True show ?thesis by (simp add: cached.iterator_all c1)
  next
    case False
    then have "PrefixEndBytes api key \<noteq> None" by (simp add: prefix_end_None_iff)
    with False show ?thesis
      by (auto simp: iterator_past_prefix(2) c1 filter_filter intro!: filter_cong)
  qed
  obtain x xs where x: "?it = x # xs" using present it by (metis neq_Nil_conv)
  have "DeleteCurrentDuplicates api t c a = (Ret (Inr ()),
      (case head_row (cs_Iterator api (commitMultiStore a, d) (StoreKey table)
              (PrefixEndBytes api key) None) of
         None \<Rightarrow> unset_cursor c
       | Some (k, _) \<Rightarrow> set_cursor c k)
      (a\<lparr>executionCacheMultistore := d\<rparr>))"
    using assms(1-5) x
    by (auto simp: d key [symmetric] DeleteCurrentDuplicates_def Let_def lock_simps slice_to_def split: list.split)
  then show thesis using c1 c2 by (intro that [of d]) (simp_all only: nxt)
qed

text \<open>\<open>AppendDup\<close> refuses a subkey below the greatest one of its table key.\<close>

lemma AppendDup_map:
  assumes "locks_free a" and "executionTablesInfo a t = Some table" and "DupSorted table"
    and "KeyBytes table \<le> length k"
  shows "AppendDup api t c k v a =
    (case last_where (prefix (take (KeyBytes table) k))
            (map_of (cs_rows (cached_store a) (StoreKey table))) of
       None \<Rightarrow> (Ret (Inr ()), set_cursor c k (cache_set api (StoreKey table) k v a))
     | Some (g, _) \<Rightarrow>
         if k < g
         then (Ret (Inl ErrCannotAppendDupIfSubkeyIsLessThanGreatestSubKeyForKey), a)
         else (Ret (Inr ()), set_cursor c k (cache_set api (StoreKey table) k v a)))"
proof -
  let ?key = "take (KeyBytes table) k"
  let ?rows = "cs_rows (cached_store a) (StoreKey table)"
  have ord: "ordered ?rows" by (rule cached.rows_ordered)
  have it: "cs_ReverseIterator api (cached_store a) (StoreKey table) (Some ?key)
      (PrefixEndBytes api ?key) = rev (filter (\<lambda>(x, _). prefix ?key x) ?rows)"
    by (rule iterator_prefix)
  show ?thesis
  proof (cases "rev (filter (\<lambda>(x, _). prefix ?key x) ?rows)")
    case Nil
    then show ?thesis
      using assms it last_where_rows [OF ord, of "prefix ?key"]
      by (simp add: AppendDup_def Let_def lock_simps slice_to_def slice_from_def cache_set_def)
  next
    case (Cons y ys)
    obtain g w where y: "y = (g, w)" by (cases y)
    have g: "prefix ?key g" using ordered_last(2) [OF ord Cons [unfolded y]] .
    then have "KeyBytes table \<le> length g" using assms(4) prefix_length_le by fastforce
    moreover have "drop (KeyBytes table) k < drop (KeyBytes table) g \<longleftrightarrow> k < g"
      using prefix_drop_less_iff [OF take_is_prefix g] assms(4) by (simp add: min_absorb2)
    ultimately show ?thesis
      using assms it Cons y last_where_rows [OF ord, of "prefix ?key"]
      by (simp add: AppendDup_def Let_def lock_simps slice_to_def slice_from_def cache_set_def)
  qed
qed

end

section \<open>Properties\<close>

text \<open>
  \<open>SeekByKeySubkey\<close> goes to the least row at or above key and subkey. The reply is that
  row's subkey and value when it is a duplicate of the key asked for, and empty otherwise; the
  cursor moves to the row even then, and is unset when there is no row.
\<close>

theorem seek_by_key_subkey_positions:
  assumes "multistore api ms_rows cs_rows"
    and "locks_free a" and "executionTablesInfo a t = Some table" and "DupSorted table"
    and "length key = KeyBytes table"
    and M: "M = map_of (ms_rows (commitMultiStore a) (StoreKey table))"
  shows "SeekByKeySubkey api t c (key @ subkey) a =
    (case first_where ((\<le>) (key @ subkey)) M of
       None \<Rightarrow> (Ret (Inr []), unset_cursor c a)
     | Some (k, v) \<Rightarrow>
         (Ret (Inr (if prefix key k then drop (KeyBytes table) k @ v else [])), set_cursor c k a))"
  using multistore.SeekByKeySubkey_map [OF assms(1-4), of "key @ subkey" c] assms(5) M
  by (simp split: option.split)

theorem seek_by_key_subkey_positions_witness:
  "SeekByKeySubkey journal_api 1 (cursor_id 1) (acct 2 @ replicate 40 3) sample_app =
      (Ret (Inr (replicate 40 4 @ [24])), set_cursor (cursor_id 1) (slot 2 4) sample_app)"
  using seek_by_key_subkey_positions [OF journal.multistore_axioms, of sample_app 1 storages_table
      "acct 2" "map_of (replay (commitMultiStore sample_app) (StoreKey storages_table))"
      "cursor_id 1" "replicate 40 3"]
  by (simp add: sample_simps slot_def [symmetric] cong: search_cong)

text \<open>
  C32: \<open>AppendDup\<close> accepts a row exactly when no row of its table key, pending or committed, has
  a greater subkey; the row is then the last duplicate of its key, the other rows stay, and the
  cursor moves to it. A refused one changes nothing.
\<close>

theorem append_dup_keeps_last:
  assumes store: "multistore api ms_rows cs_rows"
    and a: "locks_free a" "executionTablesInfo a t = Some table" "DupSorted table"
    and key: "length key = KeyBytes table"
    and M: "M = map_of (cs_rows (cached_store a) (StoreKey table))"
    and run: "AppendDup api t c (key @ subkey) v a = (r, a')"
  shows "if \<exists>x \<in> dom M. prefix key x \<and> key @ subkey < x
    then r = Ret (Inl ErrCannotAppendDupIfSubkeyIsLessThanGreatestSubKeyForKey) \<and> a' = a
    else r = Ret (Inr ()) \<and>
      map_of (cs_rows (cached_store a') (StoreKey table)) = M(key @ subkey \<mapsto> v) \<and>
      last_where (prefix key) (map_of (cs_rows (cached_store a') (StoreKey table))) =
        Some (key @ subkey, v) \<and>
      ethIteratorsCurrentKey a' = (ethIteratorsCurrentKey a)(c \<mapsto> key @ subkey)"
proof -
  let ?k = "key @ subkey"
  let ?b = "set_cursor c ?k (cache_set api (StoreKey table) ?k v a)"
  have fin: "finite (dom M)" by (simp add: M finite_dom_map_of)
  have "ordered (cs_rows (cached_store a) (StoreKey table))"
    using multistore.axioms(2) [OF store] by (simp add: kv_reader.rows_ordered)
  then have b: "map_of (cs_rows (cached_store ?b) (StoreKey table)) = M(?k \<mapsto> v)"
    "ethIteratorsCurrentKey ?b = (ethIteratorsCurrentKey a)(c \<mapsto> ?k)"
    using multistore.cache_set_app_rows [OF store, of "StoreKey table" ?k v a]
    by (simp_all add: map_of_put_entry M cache_set_def)
  have app: "(r, a') = (case last_where (prefix key) M of
       None \<Rightarrow> (Ret (Inr ()), ?b)
     | Some (g, _) \<Rightarrow>
         if ?k < g then (Ret (Inl ErrCannotAppendDupIfSubkeyIsLessThanGreatestSubKeyForKey), a)
         else (Ret (Inr ()), ?b))"
    using multistore.AppendDup_map [OF store a, of ?k c v] key M run by simp
  have last: "last_where (prefix key) (M(?k \<mapsto> v)) = Some (?k, v)"
    if "\<forall>x \<in> dom M. prefix key x \<longrightarrow> x \<le> ?k"
    using that fin by (subst last_where_Some_iff) auto
  show ?thesis
  proof (cases "last_where (prefix key) M")
    case None
    then have none: "\<forall>x \<in> dom M. \<not> prefix key x" by (simp add: last_where_None_iff)
    then show ?thesis using None app b last by auto
  next
    case (Some gw)
    obtain g w where gw: "gw = (g, w)" by (cases gw)
    with Some have g: "g \<in> dom M" "prefix key g" "\<And>x. x \<in> dom M \<Longrightarrow> prefix key x \<Longrightarrow> x \<le> g"
      by (auto simp: last_where_Some_iff [OF fin])
    then have ex: "(\<exists>x \<in> dom M. prefix key x \<and> ?k < x) \<longleftrightarrow> ?k < g"
      by (auto intro: less_le_trans)
    show ?thesis
    proof (cases "?k < g")
      case False
      then have "\<forall>x \<in> dom M. prefix key x \<longrightarrow> x \<le> ?k"
        using g(3) by (auto simp: not_less intro: order.trans)
      then show ?thesis using False ex app b last Some gw by simp
    qed (use ex app Some gw in simp)
  qed
qed

theorem append_dup_keeps_last_witness:
  "AppendDup journal_api 1 (cursor_id 1) (acct 7 @ replicate 40 5) [75] sample_app =
      (Ret (Inl ErrCannotAppendDupIfSubkeyIsLessThanGreatestSubKeyForKey), sample_app) \<and>
    fst (AppendDup journal_api 1 (cursor_id 1) (acct 2 @ replicate 40 5) [25] sample_app) =
      Ret (Inr ())"
  using append_dup_keeps_last [OF journal.multistore_axioms _ _ _ _ _ prod.collapse [symmetric],
      of sample_app 1 storages_table "acct 7"
      "map_of (journal_rows (cached_store sample_app) (StoreKey storages_table))"
      "replicate 40 5" "cursor_id 1" "[75]"]
    append_dup_keeps_last [OF journal.multistore_axioms _ _ _ _ _ prod.collapse [symmetric],
      of sample_app 1 storages_table "acct 2"
      "map_of (journal_rows (cached_store sample_app) (StoreKey storages_table))"
      "replicate 40 5" "cursor_id 1" "[25]"]
  by (simp add: sample_simps slot_def [symmetric] prod_eq_iff)

text \<open>
  C12: \<open>DeleteCurrentDuplicates\<close> removes from the cached store every row of the table key under
  the cursor, pending or committed, and no other row; the cursor moves to the first row of the
  next table key, or is unset when there is none (for a table key that is not all bytes 255).
\<close>

theorem delete_current_duplicates_removes:
  assumes store: "multistore api ms_rows cs_rows"
    and a: "locks_free a" "executionTablesInfo a t = Some table" "DupSorted table"
      "ethIteratorsCurrentKey a c = Some cur" "KeyBytes table \<le> length cur"
    and key: "key = take (KeyBytes table) cur" "\<not> set key \<subseteq> {255}"
    and M: "M = map_of (cs_rows (cached_store a) (StoreKey table))"
    and row: "\<exists>x \<in> dom M. prefix key x"
    and run: "DeleteCurrentDuplicates api t c a = (r, a')"
  shows "r = Ret (Inr ()) \<and>
    (\<forall>x. map_of (cs_rows (cached_store a') (StoreKey table)) x = (if prefix key x then None else M x)) \<and>
    ethIteratorsCurrentKey a' = (ethIteratorsCurrentKey a)
      (c := map_option fst (first_where (\<lambda>x. key < x \<and> \<not> prefix key x) M)) \<and>
    commitMultiStore a' = commitMultiStore a"
proof -
  obtain rows where rows: "rows = cs_rows (cached_store a) (StoreKey table)" by simp
  have ord: "ordered rows"
    using multistore.axioms(2) [OF store] by (simp add: kv_reader.rows_ordered rows)
  have "filter (\<lambda>(x, _). prefix key x) rows \<noteq> []"
    using row by (force simp: M rows filter_empty_conv dest: map_of_SomeD)
  from multistore.DeleteCurrentDuplicates_map [OF store a key(1) rows this]
  obtain c' where del: "DeleteCurrentDuplicates api t c a = (Ret (Inr ()),
      (case head_row (filter (\<lambda>(x, _). \<not> prefix key x \<and> (set key \<subseteq> {255} \<or> key < x)) rows) of
         None \<Rightarrow> unset_cursor c
       | Some (k, _) \<Rightarrow> set_cursor c k)
      (a\<lparr>executionCacheMultistore := c'\<rparr>))"
    and c': "cs_rows (commitMultiStore a, c') (StoreKey table) = filter (\<lambda>(x, _). \<not> prefix key x) rows"
    by blast
  have "head_row (filter (\<lambda>(x, _). \<not> prefix key x \<and> (set key \<subseteq> {255} \<or> key < x)) rows) =
      first_where (\<lambda>x. key < x \<and> \<not> prefix key x) M"
    using key(2) by (simp add: first_where_rows [OF ord] M rows [symmetric] conj_commute)
  then show ?thesis
    using del c' run map_of_filter_key [of "\<lambda>x. \<not> prefix key x" rows]
    by (auto simp: M rows split: option.splits)
qed

theorem delete_current_duplicates_removes_witness:
  "\<exists>a'. DeleteCurrentDuplicates journal_api 1 (cursor_id 1)
        (set_cursor (cursor_id 1) (slot 2 4) sample_app) = (Ret (Inr ()), a') \<and>
    map_of (journal_rows (cached_store a') HashedStoragesStoreName) (slot 2 1) = None \<and>
    map_of (journal_rows (cached_store a') HashedStoragesStoreName) (slot 7 1) = Some [71] \<and>
    ethIteratorsCurrentKey a' (cursor_id 1) = Some (slot 7 1)"
proof -
  obtain r a' where run: "DeleteCurrentDuplicates journal_api 1 (cursor_id 1)
      (set_cursor (cursor_id 1) (slot 2 4) sample_app) = (r, a')" by fastforce
  then show ?thesis
    using delete_current_duplicates_removes [OF journal.multistore_axioms _ _ _ _ _ _ _ _ _ run,
        of storages_table "slot 2 4" "acct 2"
        "map_of (journal_rows (cached_store sample_app) (StoreKey storages_table))"]
    by (auto simp: sample_simps cong: search_cong)
qed

text \<open>
  When the table key under the cursor is all bytes 255 there is no end of its prefix, and
  \<open>NextNoDup\<close> does not end the scan: it goes back to the first row of the table.
\<close>

theorem next_no_dup_wraps:
  assumes "multistore api ms_rows cs_rows"
    and "locks_free a" and "executionTablesInfo a t = Some table" and "DupSorted table"
    and "ethIteratorsCurrentKey a c = Some (replicate (KeyBytes table) 255 @ subkey)"
  shows "NextNoDup api t c a = First api t c a"
  using multistore.NextNoDup_map [OF assms _ refl] multistore.First_map [OF assms(1-3), of c]
  by (simp add: set_replicate_conv_if)

theorem next_no_dup_wraps_witness:
  "NextNoDup journal_api 1 (cursor_id 1) (set_cursor (cursor_id 1) (slot 255 3) sample_app) =
    First journal_api 1 (cursor_id 1) (set_cursor (cursor_id 1) (slot 255 3) sample_app)"
  using next_no_dup_wraps [OF journal.multistore_axioms,
      of "set_cursor (cursor_id 1) (slot 255 3) sample_app" 1 storages_table "cursor_id 1"
      "replicate 40 3"]
  by (simp add: sample_simps slot_def acct_def)

end
