(* ===== verification/Db_Scan.thy ===== *)
theory Db_Scan imports Db_Dup begin

text \<open>
  Scans: a positioning operation followed by steps of the cursor. The locale \<open>row_walk\<close> is what
  a stepping operation promises of a list of rows; \<open>Next\<close> keeps it for the rows of the table,
  \<open>Prev\<close> for the rows backwards, \<open>NextDup\<close> for the duplicates of one table key, \<open>NextNoDup\<close> for
  the first rows of the table keys.
\<close>

fun run_all :: "('ms, 'cs, 'r) op list \<Rightarrow> ('ms, 'cs) app \<Rightarrow> 'r outcome list \<times> ('ms, 'cs) app" where
  "run_all [] a = ([], a)"
| "run_all (f # fs) a = (case f a of (r, b) \<Rightarrow> apfst ((#) r) (run_all fs b))"

abbreviation row_reply :: "bytes \<times> bytes \<Rightarrow> (db_error + bytes) outcome" where
  "row_reply x \<equiv> Ret (Inr (fst x @ snd x))"

abbreviation end_reply :: "(db_error + bytes) outcome" where
  "end_reply \<equiv> Ret (Inr [])"

section \<open>Walking a list of rows\<close>

locale row_walk =
  fixes step :: "('ms, 'cs, db_error + bytes) op" and c :: bytes
    and ok :: "('ms, 'cs) app \<Rightarrow> bool" and walk :: entries
  assumes ok_moves: "ok a \<Longrightarrow> ok (set_cursor c k a)"
    and step_at: "ok a \<Longrightarrow> i < length walk \<Longrightarrow>
      ethIteratorsCurrentKey a c = Some (fst (walk ! i)) \<Longrightarrow>
      step a = positioned c (if Suc i < length walk then Some (walk ! Suc i) else None) a"
begin

lemma walk_from:
  assumes "ok a" and "i < length walk"
  shows "run_all (replicate (length walk - i) step) (set_cursor c (fst (walk ! i)) a) =
    (map row_reply (drop (Suc i) walk) @ [end_reply], set_cursor c (fst (last walk)) a)"
  using assms(2)
proof (induction "length walk - i" arbitrary: i)
  case (Suc n)
  let ?a = "set_cursor c (fst (walk ! i)) a"
  note at = step_at [OF ok_moves [OF assms(1)] Suc.prems, of "fst (walk ! i)"]
  have rep: "replicate (length walk - i) step = step # replicate (length walk - Suc i) step"
    using Suc.prems by (simp add: Suc_diff_Suc flip: replicate_Suc)
  show ?case
  proof (cases "Suc i < length walk")
    case True
    obtain k v where kv: "walk ! Suc i = (k, v)" by fastforce
    have "run_all (replicate (length walk - Suc i) step) (set_cursor c k a) =
        (map row_reply (drop (Suc (Suc i)) walk) @ [end_reply], set_cursor c (fst (last walk)) a)"
      using Suc.hyps(1) [of "Suc i"] Suc.hyps(2) True kv by simp
    with True kv at rep show ?thesis
      by (simp add: Cons_nth_drop_Suc [symmetric])
  next
    case False
    with Suc.prems have "Suc i = length walk" by simp
    then have "last walk = walk ! i" by (metis diff_Suc_1 last_conv_nth length_0_conv nat.distinct(1))
    with False at rep \<open>Suc i = length walk\<close> show ?thesis by simp
  qed
qed simp

text \<open>From a start that stands on the first row, the steps yield the other rows and then stop.\<close>

lemma scan:
  assumes "ok a" and "walk \<noteq> []" and "start a = positioned c (Some (hd walk)) a"
  shows "run_all (start # replicate (length walk) step) a =
    (map row_reply walk @ [end_reply], set_cursor c (fst (last walk)) a)"
  using assms walk_from [OF assms(1), of 0]
  by (cases walk) (auto simp: positioned_def reply_row_def move_cursor_def split: prod.split)

end

section \<open>The walks of the cursor operations\<close>

definition scanning :: "('ms \<Rightarrow> string \<Rightarrow> entries) \<Rightarrow> byte \<Rightarrow> tableInfo \<Rightarrow> entries \<Rightarrow>
    ('ms, 'cs) app \<Rightarrow> bool" where
  "scanning ms_rows t table rows a \<longleftrightarrow> locks_free a \<and> executionTablesInfo a t = Some table \<and>
     ms_rows (commitMultiStore a) (StoreKey table) = rows"

lemma scanning_moves [simp]:
  "scanning ms_rows t table rows (a\<lparr>ethIteratorsCurrentKey := f\<rparr>) = scanning ms_rows t table rows a"
  by (simp add: scanning_def locks_free_def)

lemma head_row_drop: "head_row (drop n xs) = (if n < length xs then Some (xs ! n) else None)"
  by (cases "n < length xs") (simp_all add: Cons_nth_drop_Suc [symmetric])

lemma ordered_split_after:
  assumes "ordered xs" and "i < length xs"
  shows "filter (\<lambda>(x, _). fst (xs ! i) < x) xs = drop (Suc i) xs"
proof -
  have "map_of xs (fst (xs ! i)) = Some (snd (xs ! i))"
    using assms by (simp add: map_of_eq_Some)
  from filter_from_present [OF assms(1) this] ordered_split_at(1) [OF assms]
  have "drop i xs = (fst (xs ! i), snd (xs ! i)) # filter (\<lambda>(x, _). fst (xs ! i) < x) xs" by simp
  then show ?thesis by (metis drop_Suc list.sel(3) tl_drop)
qed

lemma next_in:
  "ordered xs \<Longrightarrow> i < length xs \<Longrightarrow> first_where ((<) (fst (xs ! i))) (map_of xs) =
     (if Suc i < length xs then Some (xs ! Suc i) else None)"
  by (simp add: first_where_rows ordered_split_after head_row_drop)

text \<open>The first row of each table key, of \<open>n\<close> bytes.\<close>

definition table_key_heads :: "nat \<Rightarrow> entries \<Rightarrow> entries" where
  "table_key_heads n rows =
     filter (\<lambda>(x, _). \<forall>y \<in> set (keys_of rows). y < x \<longrightarrow> take n y \<noteq> take n x) rows"

lemma map_of_heads:
  assumes "ordered rows"
  shows "map_of (table_key_heads n rows) x = Some v \<longleftrightarrow>
    map_of rows x = Some v \<and> (\<forall>y \<in> dom (map_of rows). y < x \<longrightarrow> take n y \<noteq> take n x)"
  by (simp add: table_key_heads_def map_of_filter_key dom_map_of_keys del: set_map)

lemma head_after:
  assumes ord: "ordered rows" and heads: "heads = table_key_heads n rows"
    and cur: "cur \<in> dom (map_of heads)" and key: "key = take n cur"
    and long: "\<forall>x \<in> dom (map_of rows). n \<le> length x"
  shows "first_where (\<lambda>x. key < x \<and> \<not> prefix key x) (map_of rows) =
    first_where ((<) cur) (map_of heads)"
proof -
  note in_heads = map_of_heads [OF ord, of n, folded heads]
  have cur_row: "cur \<in> dom (map_of rows)" using cur in_heads by auto
  then have len: "length key = n" using long key by auto
  have key_cur: "prefix key cur" by (simp add: key take_is_prefix)
  have key_of: "take n x = key" if "prefix key x" for x
    using that len by (auto simp: prefix_def)
  have past: "key < z \<and> \<not> prefix key z" if "z \<in> dom (map_of heads)" "cur < z" for z
  proof
    show "key < z" using prefix_le [OF key_cur] that(2) by simp
    have "take n cur \<noteq> take n z" using that cur_row in_heads by blast
    then show "\<not> prefix key z" using key_of key by auto
  qed
  show ?thesis
  proof (cases "first_where (\<lambda>x. key < x \<and> \<not> prefix key x) (map_of rows)")
    case None
    then have "\<forall>x \<in> dom (map_of heads). \<not> cur < x"
      using past in_heads by (fastforce simp: first_where_None_iff)
    then have "first_where ((<) cur) (map_of heads) = None" by (simp add: first_where_None_iff)
    with None show ?thesis by (simp only:)
  next
    case (Some kv)
    obtain k v where kv: "kv = (k, v)" by (cases kv)
    with Some have k: "map_of rows k = Some v" "key < k" "\<not> prefix key k"
      and least: "\<And>x. x \<in> dom (map_of rows) \<Longrightarrow> key < x \<Longrightarrow> \<not> prefix key x \<Longrightarrow> k \<le> x"
      by (auto simp: first_where_Some_iff finite_dom_map_of)
    have "cur < k"
      using prefix_convex [OF key_cur, of k] k(2,3) by (meson less_imp_le not_less)
    moreover have "take n y \<noteq> take n k" if y: "y \<in> dom (map_of rows)" "y < k" for y
    proof
      assume eq: "take n y = take n k"
      have "y \<le> key" using least [OF y(1)] y(2) eq key_of k(3) take_is_prefix by (metis not_less)
      moreover have "take n k \<le> y" using eq prefix_le [OF take_is_prefix] by metis
      ultimately have "prefix (take n k) key"
        using k(2) prefix_convex [OF take_is_prefix [of n k], of key] by simp
      moreover have "length (take n k) = n" using long domI [of "map_of rows" k v] k(1) by (simp add: min_absorb2)
      ultimately have "take n k = key" using len
        by (metis append_Nil2 append_eq_append_conv prefix_def)
      then show False using k(3) take_is_prefix by metis
    qed
    ultimately have "map_of heads k = Some v" "cur < k" using k(1) in_heads by blast+
    moreover have "k \<le> z" if "z \<in> dom (map_of heads)" "cur < z" for z
      using past [OF that] that(1) least [of z] in_heads by blast
    ultimately have "first_where ((<) cur) (map_of heads) = Some (k, v)"
      by (simp add: first_where_Some_iff finite_dom_map_of)
    then show ?thesis using Some kv by simp
  qed
qed

context multistore
begin

lemma next_walk: "row_walk (Next api t c) c (scanning ms_rows t table rows) rows"
proof
  fix a :: "('ms, 'cs) app" and i
  assume a: "scanning ms_rows t table rows a" and i: "i < length rows"
    and cur: "ethIteratorsCurrentKey a c = Some (fst (rows ! i))"
  have ord: "ordered rows" using a committed.rows_ordered by (auto simp: scanning_def)
  then have "map_of rows (fst (rows ! i)) = Some (snd (rows ! i))"
    using i by (simp add: map_of_eq_Some)
  then show "Next api t c a = positioned c (if Suc i < length rows then Some (rows ! Suc i) else None) a"
    using Next_map [of a t table c] a cur next_in [OF ord i] by (simp add: scanning_def)
qed simp

lemma prev_walk: "row_walk (Prev api t c) c (scanning ms_rows t table rows) (rev rows)"
proof
  fix a :: "('ms, 'cs) app" and i
  assume a: "scanning ms_rows t table rows a" and i: "i < length (rev rows)"
    and cur: "ethIteratorsCurrentKey a c = Some (fst (rev rows ! i))"
  have ord: "ordered rows" using a committed.rows_ordered by (auto simp: scanning_def)
  obtain j where j: "j = length rows - Suc i" "j < length rows" using i by simp
  then have "last_where (\<lambda>x. x < fst (rows ! j)) (map_of rows) = head_row (rev (take j rows))"
    using ordered_split_at(2) [OF ord j(2)] by (simp add: last_where_rows [OF ord])
  also have "\<dots> = (if Suc i < length rows then Some (rev rows ! Suc i) else None)"
    using i j by (simp add: rev_take head_row_drop rev_nth)
  finally show "Prev api t c a =
      positioned c (if Suc i < length (rev rows) then Some (rev rows ! Suc i) else None) a"
    using Prev_map [of a t table c] a cur i j by (simp add: scanning_def rev_nth)
qed simp

lemma next_dup_walk:
  "row_walk (NextDup api False t c) c
     (\<lambda>a. scanning ms_rows t table rows a \<and> DupSorted table \<and> length key = KeyBytes table)
     (filter (\<lambda>(x, _). prefix key x) rows)"
proof
  let ?dups = "filter (\<lambda>(x, _). prefix key x) rows"
  fix a :: "('ms, 'cs) app" and i
  assume a: "scanning ms_rows t table rows a \<and> DupSorted table \<and> length key = KeyBytes table"
    and i: "i < length ?dups" and at: "ethIteratorsCurrentKey a c = Some (fst (?dups ! i))"
  obtain cur v where cur: "?dups ! i = (cur, v)" by fastforce
  then have "(cur, v) \<in> set ?dups" using i nth_mem by metis
  then have row: "(cur, v) \<in> set rows" and pre: "prefix key cur" by auto
  have ord: "ordered rows" using a committed.rows_ordered by (auto simp: scanning_def)
  have key: "take (KeyBytes table) cur = key" "KeyBytes table \<le> length cur"
    using pre a by (auto simp: prefix_def)
  have "filter (\<lambda>(x, _). cur < x \<and> prefix key x) rows = filter (\<lambda>(x, _). cur < x) ?dups"
    by (simp add: filter_filter split_def conj_commute)
  then have "first_where (\<lambda>x. cur < x \<and> prefix key x) (map_of rows) =
      first_where ((<) cur) (map_of ?dups)"
    by (simp only: first_where_rows [OF ord] first_where_rows [OF ordered_filter [OF ord]])
  also have "\<dots> = (if Suc i < length ?dups then Some (?dups ! Suc i) else None)"
    using next_in [OF ordered_filter [OF ord] i] cur by simp
  finally show "NextDup api False t c a =
      positioned c (if Suc i < length ?dups then Some (?dups ! Suc i) else None) a"
    using NextDup_map [of a t table c cur v] a at cur key row
    by (simp add: scanning_def map_of_eq_Some [OF ord])
qed simp

lemma next_no_dup_walk:
  "row_walk (NextNoDup api t c) c
     (\<lambda>a. scanning ms_rows t table rows a \<and> DupSorted table \<and>
        (\<forall>x \<in> set (keys_of rows). KeyBytes table \<le> length x \<and>
           \<not> set (take (KeyBytes table) x) \<subseteq> {255}))
     (table_key_heads (KeyBytes table) rows)"
proof
  let ?heads = "table_key_heads (KeyBytes table) rows"
  fix a :: "('ms, 'cs) app" and i
  assume a: "scanning ms_rows t table rows a \<and> DupSorted table \<and>
      (\<forall>x \<in> set (keys_of rows). KeyBytes table \<le> length x \<and>
         \<not> set (take (KeyBytes table) x) \<subseteq> {255})"
    and i: "i < length ?heads" and at: "ethIteratorsCurrentKey a c = Some (fst (?heads ! i))"
  obtain cur v where cur: "?heads ! i = (cur, v)" by fastforce
  have ord: "ordered rows" using a committed.rows_ordered by (auto simp: scanning_def)
  then have ord': "ordered ?heads" by (simp add: table_key_heads_def ordered_filter)
  have "(cur, v) \<in> set ?heads" using i cur nth_mem by metis
  then have head: "cur \<in> dom (map_of ?heads)" using map_of_eq_Some [OF ord'] by auto
  then have row: "cur \<in> set (keys_of rows)"
    using map_of_heads [OF ord] by (auto simp: dom_map_of_keys [symmetric] simp del: set_map)
  have long: "\<forall>x \<in> dom (map_of rows). KeyBytes table \<le> length x"
    and "\<not> set (take (KeyBytes table) cur) \<subseteq> {255}"
    using a row by (auto simp: dom_map_of_keys)
  then have "first_where (\<lambda>x. set (take (KeyBytes table) cur) \<subseteq> {255} \<or>
        take (KeyBytes table) cur < x \<and> \<not> prefix (take (KeyBytes table) cur) x) (map_of rows) =
      first_where ((<) cur) (map_of ?heads)"
    using head_after [OF ord refl head refl long] by simp
  also have "\<dots> = (if Suc i < length ?heads then Some (?heads ! Suc i) else None)"
    using next_in [OF ord' i] cur by simp
  finally show "NextNoDup api t c a =
      positioned c (if Suc i < length ?heads then Some (?heads ! Suc i) else None) a"
    using NextNoDup_map [of a t table c cur, OF _ _ _ _ _ refl] a at cur long row
    by (auto simp: scanning_def dom_map_of_keys)
qed simp

end

interpretation journal_next: row_walk "Next journal_api t c" c "scanning replay t table rows" rows
  for t c table rows
  by (rule journal.next_walk)

interpretation journal_prev: row_walk "Prev journal_api t c" c "scanning replay t table rows" "rev rows"
  for t c table rows
  by (rule journal.prev_walk)

section \<open>Properties\<close>

text \<open>
  C7: \<open>First\<close> and then \<open>Next\<close> as often as the table has rows: the replies are all rows of the
  committed table, each once, in ascending key order, and then the empty reply; the cursor ends
  on the last row.
\<close>

theorem next_scan:
  assumes store: "multistore api ms_rows cs_rows"
    and a: "locks_free a" "executionTablesInfo a t = Some table"
    and rows: "rows = ms_rows (commitMultiStore a) (StoreKey table)" "rows \<noteq> []"
  shows "run_all (First api t c # replicate (length rows) (Next api t c)) a =
    (map row_reply rows @ [end_reply], set_cursor c (fst (last rows)) a)"
proof (rule row_walk.scan [OF multistore.next_walk [OF store]])
  show "scanning ms_rows t table rows a" using a rows by (simp add: scanning_def)
  have "ordered rows"
    using multistore.axioms(1) [OF store] by (simp add: kv_reader.rows_ordered rows)
  from first_where_rows [OF this, of "\<lambda>_. True"] rows(2)
  have "first_where (\<lambda>_. True) (map_of rows) = Some (hd rows)" by (cases rows) auto
  then show "First api t c a = positioned c (Some (hd rows)) a"
    using multistore.First_map [OF store a, of c] rows(1) by simp
qed (rule rows(2))

theorem next_scan_witness:
  "run_all (First journal_api 0 (cursor_id 1) #
      [Next journal_api 0 (cursor_id 1), Next journal_api 0 (cursor_id 1)]) sample_app =
    ([Ret (Inr (acct 3 @ [30])), Ret (Inr (acct 5 @ [50])), Ret (Inr [])],
     set_cursor (cursor_id 1) (acct 5) sample_app)"
  using next_scan [OF journal.multistore_axioms, of sample_app 0 accounts_table _ "cursor_id 1", OF _ _ refl]
  by (simp add: sample_simps)

text \<open>
  C20: \<open>Last\<close> and then \<open>Prev\<close> as often as the table has rows: the replies are all rows of the
  committed table, each once, in descending key order, and then the empty reply.
\<close>

theorem prev_scan:
  assumes store: "multistore api ms_rows cs_rows"
    and a: "locks_free a" "executionTablesInfo a t = Some table"
    and rows: "rows = ms_rows (commitMultiStore a) (StoreKey table)" "rows \<noteq> []"
  shows "run_all (Last api t c # replicate (length rows) (Prev api t c)) a =
    (map row_reply (rev rows) @ [end_reply], set_cursor c (fst (hd rows)) a)"
proof -
  have "ordered rows"
    using multistore.axioms(1) [OF store] by (simp add: kv_reader.rows_ordered rows)
  from last_where_rows [OF this, of "\<lambda>_. True"] rows(2)
  have "last_where (\<lambda>_. True) (map_of rows) = Some (hd (rev rows))"
    by (cases "rev rows") auto
  then have "Last api t c a = positioned c (Some (hd (rev rows))) a"
    using multistore.Last_map [OF store a, of c] rows(1) by simp
  with row_walk.scan [OF multistore.prev_walk [OF store], of t table rows a "Last api t c" c]
  show ?thesis using a rows by (simp add: scanning_def last_rev)
qed

theorem prev_scan_witness:
  "run_all (Last journal_api 0 (cursor_id 1) #
      [Prev journal_api 0 (cursor_id 1), Prev journal_api 0 (cursor_id 1)]) sample_app =
    ([Ret (Inr (acct 5 @ [50])), Ret (Inr (acct 3 @ [30])), Ret (Inr [])],
     set_cursor (cursor_id 1) (acct 3) sample_app)"
  using prev_scan [OF journal.multistore_axioms, of sample_app 0 accounts_table _ "cursor_id 1", OF _ _ refl]
  by (simp add: sample_simps)

text \<open>
  C9: in a table with subkeys, \<open>SeekExact\<close> of a table key and then \<open>NextDup\<close>: the replies are
  all duplicates of that key, each once, in subkey order, and then the empty reply; the scan
  never leaves the key.
\<close>

theorem next_dup_scan:
  assumes store: "multistore api ms_rows cs_rows"
    and a: "locks_free a" "executionTablesInfo a t = Some table" "DupSorted table"
    and key: "length key = KeyBytes table"
    and dups: "dups = filter (\<lambda>(x, _). prefix key x) (ms_rows (commitMultiStore a) (StoreKey table))"
      "dups \<noteq> []"
  shows "run_all (SeekExact api t c key # replicate (length dups) (NextDup api False t c)) a =
    (map row_reply dups @ [end_reply], set_cursor c (fst (last dups)) a)"
proof -
  obtain rows where rows: "rows = ms_rows (commitMultiStore a) (StoreKey table)" by simp
  have ord: "ordered rows"
    using multistore.axioms(1) [OF store] by (simp add: kv_reader.rows_ordered rows)
  obtain k v where kv: "hd dups = (k, v)" by fastforce
  have "first_where (prefix key) (map_of rows) = head_row dups"
    using first_where_rows [OF ord, of "prefix key"] by (simp add: rows dups(1))
  also have "\<dots> = Some (k, v)" using dups(2) kv by (cases dups) auto
  finally have "first_where (prefix key) (map_of rows) = Some (k, v)" .
  then have "first_where ((\<le>) key) (map_of rows) = Some (k, v)" "prefix key k"
    by (auto simp: first_where_prefix finite_dom_map_of split: option.splits if_splits)
  then have start: "SeekExact api t c key a = positioned c (Some (hd dups)) a"
    using multistore.SeekExact_map [OF store a(1,2) refl, of c key] a(3) kv
    by (simp add: rows [symmetric] move_cursor_def)
  with row_walk.scan [OF multistore.next_dup_walk [OF store, of t c table rows key], of a]
  show ?thesis using a key dups rows by (simp add: scanning_def)
qed

theorem next_dup_scan_witness:
  "run_all (SeekExact journal_api 1 (cursor_id 1) (acct 7) #
      [NextDup journal_api False 1 (cursor_id 1), NextDup journal_api False 1 (cursor_id 1)]) sample_app =
    ([Ret (Inr (slot 7 1 @ [71])), Ret (Inr (slot 7 9 @ [79])), Ret (Inr [])],
     set_cursor (cursor_id 1) (slot 7 9) sample_app)"
  using next_dup_scan [OF journal.multistore_axioms, of sample_app 1 storages_table "acct 7" _
      "cursor_id 1", OF _ _ _ _ refl]
  by (simp add: sample_simps)

text \<open>
  C10: in a table with subkeys, \<open>First\<close> and then \<open>NextNoDup\<close>: the replies are the row with the
  least subkey of each table key, each table key once, in key order, and then the empty reply,
  as long as no table key is all bytes 255.
\<close>

theorem next_no_dup_scan:
  assumes store: "multistore api ms_rows cs_rows"
    and a: "locks_free a" "executionTablesInfo a t = Some table" "DupSorted table"
    and rows: "rows = ms_rows (commitMultiStore a) (StoreKey table)" "rows \<noteq> []"
      "\<forall>x \<in> set (keys_of rows). KeyBytes table \<le> length x \<and>
         \<not> set (take (KeyBytes table) x) \<subseteq> {255}"
    and heads: "heads = table_key_heads (KeyBytes table) rows"
  shows "run_all (First api t c # replicate (length heads) (NextNoDup api t c)) a =
    (map row_reply heads @ [end_reply], set_cursor c (fst (last heads)) a)"
proof -
  have ord: "ordered rows"
    using multistore.axioms(1) [OF store] by (simp add: kv_reader.rows_ordered rows)
  obtain x xs where x: "rows = x # xs" using rows(2) by (cases rows) auto
  then have hd: "heads \<noteq> []" "hd heads = x"
    using ord heads by (cases x; auto simp: table_key_heads_def)+
  have "first_where (\<lambda>_. True) (map_of rows) = Some x"
    using first_where_rows [OF ord, of "\<lambda>_. True"] x by simp
  then have "First api t c a = positioned c (Some (hd heads)) a"
    using multistore.First_map [OF store a(1,2), of c] rows(1) hd by simp
  with row_walk.scan [OF multistore.next_no_dup_walk [OF store, of t c table rows], of a "First api t c"]
  show ?thesis using a rows heads hd(1) by (simp add: scanning_def)
qed

theorem next_no_dup_scan_witness:
  "run_all (First journal_api 1 (cursor_id 1) #
      [NextNoDup journal_api 1 (cursor_id 1), NextNoDup journal_api 1 (cursor_id 1)]) sample_app =
    ([Ret (Inr (slot 2 1 @ [21])), Ret (Inr (slot 7 1 @ [71])), Ret (Inr [])],
     set_cursor (cursor_id 1) (slot 7 1) sample_app)"
  using next_no_dup_scan [OF journal.multistore_axioms, of sample_app 1 storages_table _ _ "cursor_id 1",
      OF _ _ _ refl _ _ refl]
  by (simp add: sample_simps table_key_heads_def)

end
