(* ===== verification/Db_Router.thy ===== *)
theory Db_Router imports Db_Dup begin

text \<open>
  The wire protocol of the database router (\<open>ethHandleDatabaseConnection\<close> in
  \<open>app/db_eth.go\<close>): one definition per case of its switch, the handling of one message read
  from the socket, and the loop over what the socket yields. A message is what one
  \<open>conn.Read\<close> into the 4096-byte buffer returns; \<open>data\<close> is \<open>buffer[:n]\<close>, so a slice with an
  upper bound may reach past \<open>n\<close> into the zeros of the buffer.
\<close>

section \<open>Codes\<close>

definition OP_PUT :: byte where [simp]: "OP_PUT = 1"
definition OP_GET :: byte where [simp]: "OP_GET = 2"
definition OP_DELETE :: byte where [simp]: "OP_DELETE = 3"
definition OP_WRITE :: byte where [simp]: "OP_WRITE = 4"
definition OP_FIRST :: byte where [simp]: "OP_FIRST = 5"
definition OP_SEEK_EXACT :: byte where [simp]: "OP_SEEK_EXACT = 6"
definition OP_SEEK :: byte where [simp]: "OP_SEEK = 7"
definition OP_NEXT :: byte where [simp]: "OP_NEXT = 8"
definition OP_PREV :: byte where [simp]: "OP_PREV = 9"
definition OP_LAST :: byte where [simp]: "OP_LAST = 10"
definition OP_CURRENT :: byte where [simp]: "OP_CURRENT = 11"
definition OP_UPSERT :: byte where [simp]: "OP_UPSERT = 12"
definition OP_INSERT :: byte where [simp]: "OP_INSERT = 13"
definition OP_APPEND :: byte where [simp]: "OP_APPEND = 14"
definition OP_DELETE_CURRENT :: byte where [simp]: "OP_DELETE_CURRENT = 15"
definition OP_NEXT_DUP :: byte where [simp]: "OP_NEXT_DUP = 16"
definition OP_NEXT_NO_DUP :: byte where [simp]: "OP_NEXT_NO_DUP = 17"
definition OP_NEXT_DUP_VAL :: byte where [simp]: "OP_NEXT_DUP_VAL = 18"
definition OP_SEEK_BY_KEY_SUBKEY :: byte where [simp]: "OP_SEEK_BY_KEY_SUBKEY = 19"
definition OP_DELETE_CURRENT_DUPLICATES :: byte where [simp]: "OP_DELETE_CURRENT_DUPLICATES = 20"
definition OP_APPEND_DUP :: byte where [simp]: "OP_APPEND_DUP = 21"
definition OP_DROP_CURSOR :: byte where [simp]: "OP_DROP_CURSOR = 22"

definition STATUS_SUCCESS :: byte where "STATUS_SUCCESS = 1"
definition STATUS_ERROR :: byte where "STATUS_ERROR = 0"

section \<open>Replies\<close>

definition error_reply :: "db_error \<Rightarrow> bytes" where
  "error_reply err = STATUS_ERROR # bytes_of (error_text err)"

definition value_reply :: "db_error + bytes \<Rightarrow> bytes" where
  "value_reply r = (case r of Inl err \<Rightarrow> error_reply err | Inr v \<Rightarrow> STATUS_SUCCESS # v)"

definition status_reply :: "db_error + unit \<Rightarrow> bytes" where
  "status_reply r = (case r of Inl err \<Rightarrow> error_reply err | Inr _ \<Rightarrow> [STATUS_SUCCESS])"

abbreviation replying :: "('r \<Rightarrow> bytes) \<Rightarrow> ('ms, 'cs, 'r) op \<Rightarrow> ('ms, 'cs, bytes) op" where
  "replying f run \<equiv> (\<lambda>a. apfst (map_outcome f) (run a))"

abbreviation bad_request :: "('ms, 'cs, bytes) op" where
  "bad_request \<equiv> (\<lambda>a. (Ret (error_reply ErrInvalidRequestData), a))"

section \<open>The cases of the switch\<close>

definition handle_GET :: "('ms, 'cs) store_api \<Rightarrow> byte \<Rightarrow> buf \<Rightarrow> ('ms, 'cs, bytes) op" where
  "handle_GET api tableCode data a =
     (let table = tableAt a tableCode in
      if len data \<noteq> 2 + KeyBytes table then bad_request a
      else (case slice_range data 2 (2 + KeyBytes table) of
              None \<Rightarrow> (Panic, a)
            | Some key \<Rightarrow> replying value_reply (Get api tableCode key) a))"

definition put_fields :: "tableInfo \<Rightarrow> buf \<Rightarrow> (db_error + bytes \<times> bytes) outcome" where
  "put_fields table data =
     (let key_end = (if DupSorted table then 2 + KeyBytes table + SubKeyBytes table
                     else 2 + KeyBytes table)
      in if len data \<le> key_end then Ret (Inl ErrInvalidRequestData)
         else (case (slice_range data 2 key_end, slice_tail data key_end) of
                 (Some key, Some value) \<Rightarrow> Ret (Inr (key, value))
               | _ \<Rightarrow> Panic))"

definition handle_PUT :: "('ms, 'cs) store_api \<Rightarrow> byte \<Rightarrow> buf \<Rightarrow> ('ms, 'cs, bytes) op" where
  "handle_PUT api tableCode data a =
     (case put_fields (tableAt a tableCode) data of
        Ret (Inr (key, value)) \<Rightarrow> replying status_reply (Put api tableCode key value) a
      | Ret (Inl err) \<Rightarrow> (Ret (error_reply err), a)
      | _ \<Rightarrow> (Panic, a))"

definition handle_DELETE :: "('ms, 'cs) store_api \<Rightarrow> byte \<Rightarrow> buf \<Rightarrow> ('ms, 'cs, bytes) op" where
  "handle_DELETE api tableCode data a =
     (let table = tableAt a tableCode in
      if (\<not> DupSorted table \<and> len data \<noteq> 2 + KeyBytes table) \<or>
         (DupSorted table \<and> len data \<noteq> 2 + KeyBytes table \<and>
            len data \<noteq> 2 + KeyBytes table + SubKeyBytes table)
      then bad_request a
      else
        (let keyIncludesSubkey =
               (DupSorted table \<and> len data = 2 + KeyBytes table + SubKeyBytes table)
         in (case slice_tail data 2 of
               None \<Rightarrow> (Panic, a)
             | Some key \<Rightarrow>
                 replying status_reply (Delete api tableCode key keyIncludesSubkey) a)))"

definition handle_WRITE :: "('ms, 'cs) store_api \<Rightarrow> ('ms, 'cs, bytes) op" where
  "handle_WRITE api = replying (\<lambda>_. [STATUS_SUCCESS]) (Write api)"

text \<open>\<open>copy(cursorId[:], data[2:2+CursorIDBytes])\<close>\<close>

definition cursor_of :: "buf \<Rightarrow> bytes option" where
  "cursor_of data = slice_range data 2 (2 + CursorIDBytes)"

text \<open>The cases whose request is a cursor, and a cursor followed by \<open>n\<close> bytes of key.\<close>

definition cursor_request :: "(bytes \<Rightarrow> ('ms, 'cs, bytes) op) \<Rightarrow> buf \<Rightarrow> ('ms, 'cs, bytes) op" where
  "cursor_request run data a =
     (if len data \<noteq> 2 + CursorIDBytes then bad_request a
      else (case cursor_of data of
              None \<Rightarrow> (Panic, a)
            | Some cursorId \<Rightarrow> run cursorId a))"

definition cursor_key_request ::
    "nat \<Rightarrow> (bytes \<Rightarrow> bytes \<Rightarrow> ('ms, 'cs, bytes) op) \<Rightarrow> buf \<Rightarrow> ('ms, 'cs, bytes) op" where
  "cursor_key_request n run data a =
     (if len data \<noteq> 2 + CursorIDBytes + n then bad_request a
      else (case (cursor_of data, slice_tail data (2 + CursorIDBytes)) of
              (Some cursorId, Some key) \<Rightarrow> run cursorId key a
            | _ \<Rightarrow> (Panic, a)))"

definition handle_FIRST :: "('ms, 'cs) store_api \<Rightarrow> byte \<Rightarrow> buf \<Rightarrow> ('ms, 'cs, bytes) op" where
  "handle_FIRST api tableCode =
     cursor_request (\<lambda>c. replying value_reply (First api tableCode c))"

definition handle_SEEK_EXACT :: "('ms, 'cs) store_api \<Rightarrow> byte \<Rightarrow> buf \<Rightarrow> ('ms, 'cs, bytes) op" where
  "handle_SEEK_EXACT api tableCode data a =
     cursor_key_request (KeyBytes (tableAt a tableCode))
       (\<lambda>c key. replying value_reply (SeekExact api tableCode c key)) data a"

definition handle_SEEK :: "('ms, 'cs) store_api \<Rightarrow> byte \<Rightarrow> buf \<Rightarrow> ('ms, 'cs, bytes) op" where
  "handle_SEEK api tableCode data a =
     cursor_key_request (KeyBytes (tableAt a tableCode))
       (\<lambda>c key. replying value_reply (Seek api tableCode c key)) data a"

definition handle_NEXT :: "('ms, 'cs) store_api \<Rightarrow> byte \<Rightarrow> buf \<Rightarrow> ('ms, 'cs, bytes) op" where
  "handle_NEXT api tableCode = cursor_request (\<lambda>c. replying value_reply (Next api tableCode c))"

definition handle_PREV :: "('ms, 'cs) store_api \<Rightarrow> byte \<Rightarrow> buf \<Rightarrow> ('ms, 'cs, bytes) op" where
  "handle_PREV api tableCode = cursor_request (\<lambda>c. replying value_reply (Prev api tableCode c))"

definition handle_LAST :: "('ms, 'cs) store_api \<Rightarrow> byte \<Rightarrow> buf \<Rightarrow> ('ms, 'cs, bytes) op" where
  "handle_LAST api tableCode = cursor_request (\<lambda>c. replying value_reply (Last api tableCode c))"

definition handle_CURRENT :: "('ms, 'cs) store_api \<Rightarrow> byte \<Rightarrow> buf \<Rightarrow> ('ms, 'cs, bytes) op" where
  "handle_CURRENT api tableCode =
     cursor_request (\<lambda>c. replying value_reply (Current api tableCode c))"

text \<open>
  The fields of UPSERT, INSERT and APPEND, which share their code: the cursor is taken before
  the length is checked, and for a table without subkeys the length is checked against
  \<open>2+KeyBytes\<close>, without the cursor.
\<close>

definition cursor_entry_fields ::
    "tableInfo \<Rightarrow> buf \<Rightarrow> (db_error + bytes \<times> bytes \<times> bytes) outcome" where
  "cursor_entry_fields table data =
     (case cursor_of data of
        None \<Rightarrow> Panic
      | Some cursorId \<Rightarrow>
          if DupSorted table then
            (let key_end = 2 + CursorIDBytes + KeyBytes table + SubKeyBytes table in
             if len data \<le> key_end then Ret (Inl ErrInvalidRequestData)
             else (case (slice_range data (2 + CursorIDBytes) key_end, slice_tail data key_end) of
                     (Some key, Some value) \<Rightarrow> Ret (Inr (cursorId, key, value))
                   | _ \<Rightarrow> Panic))
          else if len data \<le> 2 + KeyBytes table then Ret (Inl ErrInvalidRequestData)
          else
            (let key_end = 2 + CursorIDBytes + KeyBytes table in
             (case (slice_range data (2 + CursorIDBytes) key_end, slice_tail data key_end) of
                (Some key, Some value) \<Rightarrow> Ret (Inr (cursorId, key, value))
              | _ \<Rightarrow> Panic)))"

definition cursor_entry_request ::
    "(bytes \<Rightarrow> bytes \<Rightarrow> bytes \<Rightarrow> ('ms, 'cs, db_error + unit) op) \<Rightarrow> byte \<Rightarrow> buf \<Rightarrow>
       ('ms, 'cs, bytes) op" where
  "cursor_entry_request run tableCode data a =
     (case cursor_entry_fields (tableAt a tableCode) data of
        Ret (Inr (cursorId, key, value)) \<Rightarrow> replying status_reply (run cursorId key value) a
      | Ret (Inl err) \<Rightarrow> (Ret (error_reply err), a)
      | _ \<Rightarrow> (Panic, a))"

definition handle_UPSERT :: "('ms, 'cs) store_api \<Rightarrow> byte \<Rightarrow> buf \<Rightarrow> ('ms, 'cs, bytes) op" where
  "handle_UPSERT api tableCode = cursor_entry_request (Upsert api tableCode) tableCode"

definition handle_INSERT :: "('ms, 'cs) store_api \<Rightarrow> byte \<Rightarrow> buf \<Rightarrow> ('ms, 'cs, bytes) op" where
  "handle_INSERT api tableCode = cursor_entry_request (Insert api tableCode) tableCode"

definition handle_APPEND :: "('ms, 'cs) store_api \<Rightarrow> byte \<Rightarrow> buf \<Rightarrow> ('ms, 'cs, bytes) op" where
  "handle_APPEND api tableCode = cursor_entry_request (Append api tableCode) tableCode"

definition handle_DELETE_CURRENT :: "('ms, 'cs) store_api \<Rightarrow> byte \<Rightarrow> buf \<Rightarrow> ('ms, 'cs, bytes) op" where
  "handle_DELETE_CURRENT api tableCode =
     cursor_request (\<lambda>c. replying status_reply (DeleteCurrent api tableCode c))"

definition handle_NEXT_DUP :: "('ms, 'cs) store_api \<Rightarrow> byte \<Rightarrow> buf \<Rightarrow> ('ms, 'cs, bytes) op" where
  "handle_NEXT_DUP api tableCode data a =
     (if \<not> DupSorted (tableAt a tableCode) then bad_request a
      else cursor_request (\<lambda>c. replying value_reply (NextDup api False tableCode c)) data a)"

definition handle_NEXT_NO_DUP :: "('ms, 'cs) store_api \<Rightarrow> byte \<Rightarrow> buf \<Rightarrow> ('ms, 'cs, bytes) op" where
  "handle_NEXT_NO_DUP api tableCode data a =
     (if \<not> DupSorted (tableAt a tableCode) then bad_request a
      else cursor_request (\<lambda>c. replying value_reply (NextNoDup api tableCode c)) data a)"

definition handle_SEEK_BY_KEY_SUBKEY ::
    "('ms, 'cs) store_api \<Rightarrow> byte \<Rightarrow> buf \<Rightarrow> ('ms, 'cs, bytes) op" where
  "handle_SEEK_BY_KEY_SUBKEY api tableCode data a =
     (let table = tableAt a tableCode in
      if \<not> DupSorted table then bad_request a
      else cursor_key_request (KeyBytes table + SubKeyBytes table)
        (\<lambda>c key. replying value_reply (SeekByKeySubkey api tableCode c key)) data a)"

definition handle_DELETE_CURRENT_DUPLICATES ::
    "('ms, 'cs) store_api \<Rightarrow> byte \<Rightarrow> buf \<Rightarrow> ('ms, 'cs, bytes) op" where
  "handle_DELETE_CURRENT_DUPLICATES api tableCode data a =
     (if \<not> DupSorted (tableAt a tableCode) then bad_request a
      else cursor_request
        (\<lambda>c. replying status_reply (DeleteCurrentDuplicates api tableCode c)) data a)"

definition handle_APPEND_DUP :: "('ms, 'cs) store_api \<Rightarrow> byte \<Rightarrow> buf \<Rightarrow> ('ms, 'cs, bytes) op" where
  "handle_APPEND_DUP api tableCode data a =
     (let table = tableAt a tableCode;
          key_end = 2 + CursorIDBytes + KeyBytes table + SubKeyBytes table in
      if \<not> DupSorted table then bad_request a
      else if len data \<le> key_end then bad_request a
      else (case (slice_range data (2 + CursorIDBytes) key_end, slice_tail data key_end,
                  cursor_of data) of
              (Some key, Some value, Some cursorId) \<Rightarrow>
                replying status_reply (AppendDup api tableCode cursorId key value) a
            | _ \<Rightarrow> (Panic, a)))"

section \<open>One message\<close>

definition handle_operation :: "('ms, 'cs) store_api \<Rightarrow> byte \<Rightarrow> byte \<Rightarrow> buf \<Rightarrow> ('ms, 'cs, bytes) op" where
  "handle_operation api operation tableCode data =
     (if operation = OP_GET then handle_GET api tableCode data
      else if operation = OP_PUT then handle_PUT api tableCode data
      else if operation = OP_DELETE then handle_DELETE api tableCode data
      else if operation = OP_WRITE then handle_WRITE api
      else if operation = OP_FIRST then handle_FIRST api tableCode data
      else if operation = OP_SEEK_EXACT then handle_SEEK_EXACT api tableCode data
      else if operation = OP_SEEK then handle_SEEK api tableCode data
      else if operation = OP_NEXT then handle_NEXT api tableCode data
      else if operation = OP_PREV then handle_PREV api tableCode data
      else if operation = OP_LAST then handle_LAST api tableCode data
      else if operation = OP_CURRENT then handle_CURRENT api tableCode data
      else if operation = OP_UPSERT then handle_UPSERT api tableCode data
      else if operation = OP_INSERT then handle_INSERT api tableCode data
      else if operation = OP_APPEND then handle_APPEND api tableCode data
      else if operation = OP_DELETE_CURRENT then handle_DELETE_CURRENT api tableCode data
      else if operation = OP_NEXT_DUP then handle_NEXT_DUP api tableCode data
      else if operation = OP_NEXT_NO_DUP then handle_NEXT_NO_DUP api tableCode data
      else if operation = OP_SEEK_BY_KEY_SUBKEY then handle_SEEK_BY_KEY_SUBKEY api tableCode data
      else if operation = OP_DELETE_CURRENT_DUPLICATES
      then handle_DELETE_CURRENT_DUPLICATES api tableCode data
      else if operation = OP_APPEND_DUP then handle_APPEND_DUP api tableCode data
      else (\<lambda>a. (Ret (error_reply ErrInvalidOperationCode), a)))"

text \<open>
  What follows a read of \<open>n\<close> bytes: the row \<open>[1] \<mapsto> [1]\<close> is set in the first table of the
  commit multistore, an empty read is skipped, and the reply goes to the connection.
\<close>

definition BufferBytes :: nat where [simp]: "BufferBytes = 4096"

definition set_marker :: "('ms, 'cs) store_api \<Rightarrow> tableInfo \<Rightarrow> ('ms, 'cs) app \<Rightarrow> ('ms, 'cs) app" where
  "set_marker api table a =
     a\<lparr>commitMultiStore := ms_Set api (commitMultiStore a) (StoreKey table) [1] [1]\<rparr>"

definition on_message :: "('ms, 'cs) store_api \<Rightarrow> bytes \<Rightarrow> ('ms, 'cs, bytes list) op" where
  "on_message api msg a =
     (case executionTablesInfo a 0 of
        None \<Rightarrow> (Panic, a)
      | Some table0 \<Rightarrow>
          (let a = set_marker api table0 a; data = buffer_of BufferBytes msg in
           if len data = 0 then (Ret [], a)
           else
             (case (index_at data 0, index_at data 1) of
                (Some operation, Some tableCode) \<Rightarrow>
                  (case getTable a tableCode of
                     Inl err \<Rightarrow> (Ret [error_reply err], a)
                   | Inr _ \<Rightarrow>
                       apfst (map_outcome (\<lambda>response. [response]))
                         (handle_operation api operation tableCode data a))
              | _ \<Rightarrow> (Panic, a))))"

lemma index_at_codes:
  "index_at (buffer_of 4096 (x # rest)) 0 = Some x"
  "index_at (buffer_of 4096 [x]) (Suc 0) = None"
  "index_at (buffer_of 4096 (x # t # rest)) (Suc 0) = Some t"
  by (simp_all add: index_at_def buffer_of_def nth_append take_Cons')

text \<open>What is read decides by its first two bytes.\<close>

lemma on_message_cases:
  "executionTablesInfo a 0 = Some table0 \<Longrightarrow> on_message api msg a =
     (let a = set_marker api table0 a in
      (case msg of
         [] \<Rightarrow> (Ret [], a)
       | [_] \<Rightarrow> (Panic, a)
       | x # t # _ \<Rightarrow>
           (case executionTablesInfo a t of
              None \<Rightarrow> (Ret [error_reply ErrTableNotFound], a)
            | Some _ \<Rightarrow> apfst (map_outcome (\<lambda>response. [response]))
                (handle_operation api x t (buffer_of BufferBytes msg) a))))"
  by (simp add: on_message_def getTable_def Let_def index_at_codes split: list.split option.split)

section \<open>The connection\<close>

datatype read_result = ReadError | Read bytes

datatype connection_end = Waiting | Closed | Crashed | Hung

definition loop_top :: "('ms, 'cs) store_api \<Rightarrow> ('ms, 'cs) app \<Rightarrow> ('ms, 'cs) app" where
  "loop_top api a = a\<lparr>executionCacheMultistore := CacheMultiStore api (commitMultiStore a)\<rparr>"

fun ethHandleDatabaseConnection :: "('ms, 'cs) store_api \<Rightarrow> read_result list \<Rightarrow> ('ms, 'cs) app \<Rightarrow>
    bytes list \<times> connection_end \<times> ('ms, 'cs) app" where
  "ethHandleDatabaseConnection api [] a = ([], Waiting, loop_top api a)"
| "ethHandleDatabaseConnection api (ReadError # _) a = ([], Closed, loop_top api a)"
| "ethHandleDatabaseConnection api (Read msg # reads) a =
     (case on_message api msg (loop_top api a) of
        (Ret responses, a) \<Rightarrow>
          (case ethHandleDatabaseConnection api reads a of
             (rest, e, a) \<Rightarrow> (responses @ rest, e, a))
      | (Panic, a) \<Rightarrow> ([], Crashed, a)
      | (Blocked, a) \<Rightarrow> ([], Hung, a))"

section \<open>The contract of the requests\<close>

text \<open>Every case but WRITE keeps the contract of the operation it calls.\<close>

lemmas operations_keep =
  Get_op.keeps_run Put_op.keeps_run Delete_op.keeps_run
  First_op.keeps_run SeekExact_op.keeps_run Seek_op.keeps_run Next_op.keeps_run
  Prev_op.keeps_run Last_op.keeps_run Current_op.keeps_run Upsert_op.keeps_run
  Insert_op.keeps_run Append_op.keeps_run DeleteCurrent_op.keeps_run
  NextDup_op.keeps_run NextNoDup_op.keeps_run SeekByKeySubkey_op.keeps_run
  DeleteCurrentDuplicates_op.keeps_run AppendDup_op.keeps_run

lemmas handler_defs = handle_GET_def handle_PUT_def handle_DELETE_def handle_FIRST_def
  handle_SEEK_EXACT_def handle_SEEK_def handle_NEXT_def handle_PREV_def handle_LAST_def
  handle_CURRENT_def handle_UPSERT_def handle_INSERT_def handle_APPEND_def
  handle_DELETE_CURRENT_def handle_NEXT_DUP_def handle_NEXT_NO_DUP_def
  handle_SEEK_BY_KEY_SUBKEY_def handle_DELETE_CURRENT_DUPLICATES_def handle_APPEND_DUP_def

lemma cursor_request_keeps:
  "(\<And>c. keeps a (run c a)) \<Longrightarrow> keeps a (cursor_request run data a)"
  by (simp add: cursor_request_def split: option.split)

lemma cursor_key_request_keeps:
  "(\<And>c k. keeps a (run c k a)) \<Longrightarrow> keeps a (cursor_key_request n run data a)"
  by (simp add: cursor_key_request_def split: option.split)

lemma cursor_entry_request_keeps:
  "(\<And>c k v. keeps a (run c k v a)) \<Longrightarrow> keeps a (cursor_entry_request run t data a)"
  by (simp add: cursor_entry_request_def split: outcome.split sum.split prod.split)

lemmas requests_keep = cursor_request_keeps cursor_key_request_keeps cursor_entry_request_keeps

lemma handlers_keep:
  shows "keeps a (handle_GET api t data a)"
    and "keeps a (handle_PUT api t data a)"
    and "keeps a (handle_DELETE api t data a)"
    and "keeps a (handle_FIRST api t data a)"
    and "keeps a (handle_SEEK_EXACT api t data a)"
    and "keeps a (handle_SEEK api t data a)"
    and "keeps a (handle_NEXT api t data a)"
    and "keeps a (handle_PREV api t data a)"
    and "keeps a (handle_LAST api t data a)"
    and "keeps a (handle_CURRENT api t data a)"
    and "keeps a (handle_UPSERT api t data a)"
    and "keeps a (handle_INSERT api t data a)"
    and "keeps a (handle_APPEND api t data a)"
    and "keeps a (handle_DELETE_CURRENT api t data a)"
    and "keeps a (handle_NEXT_DUP api t data a)"
    and "keeps a (handle_NEXT_NO_DUP api t data a)"
    and "keeps a (handle_SEEK_BY_KEY_SUBKEY api t data a)"
    and "keeps a (handle_DELETE_CURRENT_DUPLICATES api t data a)"
    and "keeps a (handle_APPEND_DUP api t data a)"
  by (simp_all add: handler_defs Let_def operations_keep requests_keep
      split: option.split outcome.split sum.split prod.split)

lemma handle_operation_keeps:
  assumes "operation \<noteq> OP_WRITE"
  shows "keeps a (handle_operation api operation tableCode data a)"
  using assms by (simp add: handle_operation_def handlers_keep)

section \<open>What one connection does to the committed store\<close>

text \<open>\<open>Write\<close> with nothing held back changes no row.\<close>

definition mark :: "tableInfo \<Rightarrow> string \<Rightarrow> entries \<Rightarrow> entries" where
  "mark table0 n xs = (if n = StoreKey table0 then put_entry [1] [1] xs else xs)"

lemma mark_idem [simp]: "mark t n (mark t n xs) = mark t n xs"
  by (simp add: mark_def)

lemma set_marker_fields [simp]:
  "executionTablesInfo (set_marker api t a) = executionTablesInfo a"
  "executionCacheMultistore (set_marker api t a) = executionCacheMultistore a"
  "ethIteratorsCurrentKey (set_marker api t a) = ethIteratorsCurrentKey a"
  "rwMutex (set_marker api t a) = rwMutex a"
  "ethIteratorsCurrentKeyLock (set_marker api t a) = ethIteratorsCurrentKeyLock a"
  "locks_free (set_marker api t a) = locks_free a"
  by (simp_all add: set_marker_def locks_free_def)

lemma loop_top_fields [simp]:
  "executionTablesInfo (loop_top api a) = executionTablesInfo a"
  "commitMultiStore (loop_top api a) = commitMultiStore a"
  "ethIteratorsCurrentKey (loop_top api a) = ethIteratorsCurrentKey a"
  "executionCacheMultistore (loop_top api a) = CacheMultiStore api (commitMultiStore a)"
  "locks_free (loop_top api a) = locks_free a"
  by (simp_all add: loop_top_def locks_free_def)

lemma Write_cases:
  "Write api a = (Blocked, writer_waits a) \<or>
   (\<exists>l. Write api a = (Ret (), a\<lparr>commitMultiStore := fst (cs_Write api (cached_store a)),
      executionCacheMultistore := snd (cs_Write api (cached_store a)), rwMutex := l\<rparr>) \<and> l = rwMutex a)"
  by (auto simp: Write_def writer_waits_def lock_simps split: prod.splits)

context multistore
begin

lemma set_marker_rows:
  "ms_rows (commitMultiStore (set_marker api t a)) n = mark t n (ms_rows (commitMultiStore a) n)"
  by (simp add: set_marker_def mark_def set_rows)

lemma handle_WRITE_fresh:
  assumes "executionCacheMultistore a = CacheMultiStore api m"
  shows "ms_rows (commitMultiStore (snd (handle_WRITE api a))) n = ms_rows (commitMultiStore a) n"
    and "executionTablesInfo (snd (handle_WRITE api a)) = executionTablesInfo a"
    and "ethIteratorsCurrentKey (snd (handle_WRITE api a)) = ethIteratorsCurrentKey a"
  using Write_cases [of api a] assms
  by (auto simp: handle_WRITE_def write_rows fresh_rows)

lemma handle_operation_fresh:
  assumes "executionCacheMultistore a = CacheMultiStore api m"
  shows "ms_rows (commitMultiStore (snd (handle_operation api operation t data a))) n =
      ms_rows (commitMultiStore a) n"
    and "executionTablesInfo (snd (handle_operation api operation t data a)) = executionTablesInfo a"
proof -
  have "ms_rows (commitMultiStore (snd (handle_operation api operation t data a))) n =
      ms_rows (commitMultiStore a) n \<and>
    executionTablesInfo (snd (handle_operation api operation t data a)) = executionTablesInfo a"
  proof (cases "operation = OP_WRITE")
    case True
    then have "handle_operation api operation t data = handle_WRITE api"
      by (simp add: handle_operation_def)
    with handle_WRITE_fresh [OF assms] show ?thesis by simp
  next
    case False
    from handle_operation_keeps [OF this, of a api t data] show ?thesis by (simp add: keeps_def)
  qed
  then show "ms_rows (commitMultiStore (snd (handle_operation api operation t data a))) n =
      ms_rows (commitMultiStore a) n"
    and "executionTablesInfo (snd (handle_operation api operation t data a)) = executionTablesInfo a"
    by simp_all
qed

lemma on_message_fresh:
  assumes "executionCacheMultistore a = CacheMultiStore api m"
    and "executionTablesInfo a 0 = Some table0"
  shows "ms_rows (commitMultiStore (snd (on_message api msg a))) n =
      mark table0 n (ms_rows (commitMultiStore a) n)"
    and "executionTablesInfo (snd (on_message api msg a)) = executionTablesInfo a"
proof -
  have "executionCacheMultistore (set_marker api table0 a) = CacheMultiStore api m"
    using assms(1) by simp
  note ho = handle_operation_fresh [OF this]
  show "ms_rows (commitMultiStore (snd (on_message api msg a))) n =
      mark table0 n (ms_rows (commitMultiStore a) n)"
    and "executionTablesInfo (snd (on_message api msg a)) = executionTablesInfo a"
    using assms(2) ho
    by (simp_all add: on_message_def Let_def set_marker_rows split: option.split sum.split)
qed

text \<open>
  Whatever one connection sends, alone, no row of the committed store changes but the marker's.
\<close>

lemma connection_commits_nothing:
  assumes "executionTablesInfo a 0 = Some table0"
    and "ethHandleDatabaseConnection api reads a = (out, e, a')"
  shows "ms_rows (commitMultiStore a') n =
    (case reads of Read _ # _ \<Rightarrow> mark table0 n (ms_rows (commitMultiStore a) n)
     | _ \<Rightarrow> ms_rows (commitMultiStore a) n)"
  using assms
proof (induction reads arbitrary: a out e a')
  case (Cons x reads)
  show ?case
  proof (cases x)
    case (Read msg)
    obtain r b where m: "on_message api msg (loop_top api a) = (r, b)" by fastforce
    have "executionCacheMultistore (loop_top api a) = CacheMultiStore api (commitMultiStore a)"
      by simp
    note rows = on_message_fresh [OF this, of table0 msg, unfolded m]
    show ?thesis
    proof (cases r)
      case (Ret responses)
      obtain out2 e2 where rest: "ethHandleDatabaseConnection api reads b = (out2, e2, a')"
        using Cons.prems(2) Read m Ret by (auto split: prod.splits)
      then show ?thesis
        using Cons.IH [OF _ rest] rows Cons.prems(1) Read
        by (simp split: list.split read_result.split)
    qed (use Cons.prems rows Read m in auto)
  qed (use Cons.prems in auto)
qed auto

end

end
