(* ===== verification/Db_Protocol.thy ===== *)
theory Db_Protocol imports Db_Router begin

text \<open>
  The requests of the wire protocol as a datatype, the bytes a client sends for each
  (\<open>encode\<close>), and the operation the router is to run for it (\<open>exec_request\<close>). The main lemma
  is that the router decodes what was encoded: the message of a well-formed request runs
  exactly the operation it names, on exactly the fields it carries.
\<close>

datatype request =
    GetReq byte bytes
  | PutReq byte bytes bytes
  | DeleteReq byte bytes
  | WriteReq byte
  | FirstReq byte bytes
  | SeekExactReq byte bytes bytes
  | SeekReq byte bytes bytes
  | NextReq byte bytes
  | PrevReq byte bytes
  | LastReq byte bytes
  | CurrentReq byte bytes
  | UpsertReq byte bytes bytes bytes
  | InsertReq byte bytes bytes bytes
  | AppendReq byte bytes bytes bytes
  | DeleteCurrentReq byte bytes
  | NextDupReq byte bytes
  | NextNoDupReq byte bytes
  | SeekByKeySubkeyReq byte bytes bytes
  | DeleteCurrentDuplicatesReq byte bytes
  | AppendDupReq byte bytes bytes bytes

fun encode :: "request \<Rightarrow> bytes" where
  "encode (GetReq t k) = OP_GET # t # k"
| "encode (PutReq t k v) = OP_PUT # t # k @ v"
| "encode (DeleteReq t k) = OP_DELETE # t # k"
| "encode (WriteReq t) = [OP_WRITE, t]"
| "encode (FirstReq t c) = OP_FIRST # t # c"
| "encode (SeekExactReq t c k) = OP_SEEK_EXACT # t # c @ k"
| "encode (SeekReq t c k) = OP_SEEK # t # c @ k"
| "encode (NextReq t c) = OP_NEXT # t # c"
| "encode (PrevReq t c) = OP_PREV # t # c"
| "encode (LastReq t c) = OP_LAST # t # c"
| "encode (CurrentReq t c) = OP_CURRENT # t # c"
| "encode (UpsertReq t c k v) = OP_UPSERT # t # c @ k @ v"
| "encode (InsertReq t c k v) = OP_INSERT # t # c @ k @ v"
| "encode (AppendReq t c k v) = OP_APPEND # t # c @ k @ v"
| "encode (DeleteCurrentReq t c) = OP_DELETE_CURRENT # t # c"
| "encode (NextDupReq t c) = OP_NEXT_DUP # t # c"
| "encode (NextNoDupReq t c) = OP_NEXT_NO_DUP # t # c"
| "encode (SeekByKeySubkeyReq t c k) = OP_SEEK_BY_KEY_SUBKEY # t # c @ k"
| "encode (DeleteCurrentDuplicatesReq t c) = OP_DELETE_CURRENT_DUPLICATES # t # c"
| "encode (AppendDupReq t c k v) = OP_APPEND_DUP # t # c @ k @ v"

fun table_code :: "request \<Rightarrow> byte" where
  "table_code (GetReq t k) = t"
| "table_code (PutReq t k v) = t"
| "table_code (DeleteReq t k) = t"
| "table_code (WriteReq t) = t"
| "table_code (FirstReq t c) = t"
| "table_code (SeekExactReq t c k) = t"
| "table_code (SeekReq t c k) = t"
| "table_code (NextReq t c) = t"
| "table_code (PrevReq t c) = t"
| "table_code (LastReq t c) = t"
| "table_code (CurrentReq t c) = t"
| "table_code (UpsertReq t c k v) = t"
| "table_code (InsertReq t c k v) = t"
| "table_code (AppendReq t c k v) = t"
| "table_code (DeleteCurrentReq t c) = t"
| "table_code (NextDupReq t c) = t"
| "table_code (NextNoDupReq t c) = t"
| "table_code (SeekByKeySubkeyReq t c k) = t"
| "table_code (DeleteCurrentDuplicatesReq t c) = t"
| "table_code (AppendDupReq t c k v) = t"

definition row_key_bytes :: "tableInfo \<Rightarrow> nat" where
  "row_key_bytes table = KeyBytes table + (if DupSorted table then SubKeyBytes table else 0)"

fun well_formed :: "tableInfo \<Rightarrow> request \<Rightarrow> bool" where
  "well_formed table (GetReq t k) \<longleftrightarrow> length k = KeyBytes table"
| "well_formed table (PutReq t k v) \<longleftrightarrow> length k = row_key_bytes table \<and> v \<noteq> []"
| "well_formed table (DeleteReq t k) \<longleftrightarrow>
     length k = KeyBytes table \<or> length k = row_key_bytes table"
| "well_formed table (WriteReq t) \<longleftrightarrow> True"
| "well_formed table (FirstReq t c) \<longleftrightarrow> length c = CursorIDBytes"
| "well_formed table (SeekExactReq t c k) \<longleftrightarrow> length c = CursorIDBytes \<and> length k = KeyBytes table"
| "well_formed table (SeekReq t c k) \<longleftrightarrow> length c = CursorIDBytes \<and> length k = KeyBytes table"
| "well_formed table (NextReq t c) \<longleftrightarrow> length c = CursorIDBytes"
| "well_formed table (PrevReq t c) \<longleftrightarrow> length c = CursorIDBytes"
| "well_formed table (LastReq t c) \<longleftrightarrow> length c = CursorIDBytes"
| "well_formed table (CurrentReq t c) \<longleftrightarrow> length c = CursorIDBytes"
| "well_formed table (UpsertReq t c k v) \<longleftrightarrow>
     length c = CursorIDBytes \<and> length k = row_key_bytes table \<and> (DupSorted table \<longrightarrow> v \<noteq> [])"
| "well_formed table (InsertReq t c k v) \<longleftrightarrow>
     length c = CursorIDBytes \<and> length k = row_key_bytes table \<and> (DupSorted table \<longrightarrow> v \<noteq> [])"
| "well_formed table (AppendReq t c k v) \<longleftrightarrow>
     length c = CursorIDBytes \<and> length k = row_key_bytes table \<and> (DupSorted table \<longrightarrow> v \<noteq> [])"
| "well_formed table (DeleteCurrentReq t c) \<longleftrightarrow> length c = CursorIDBytes"
| "well_formed table (NextDupReq t c) \<longleftrightarrow> DupSorted table \<and> length c = CursorIDBytes"
| "well_formed table (NextNoDupReq t c) \<longleftrightarrow> DupSorted table \<and> length c = CursorIDBytes"
| "well_formed table (SeekByKeySubkeyReq t c k) \<longleftrightarrow>
     DupSorted table \<and> length c = CursorIDBytes \<and> length k = row_key_bytes table"
| "well_formed table (DeleteCurrentDuplicatesReq t c) \<longleftrightarrow>
     DupSorted table \<and> length c = CursorIDBytes"
| "well_formed table (AppendDupReq t c k v) \<longleftrightarrow>
     DupSorted table \<and> length c = CursorIDBytes \<and> length k = row_key_bytes table \<and> v \<noteq> []"

fun exec_request :: "('ms, 'cs) store_api \<Rightarrow> tableInfo \<Rightarrow> request \<Rightarrow> ('ms, 'cs, bytes) op" where
  "exec_request api table (GetReq t k) = replying value_reply (Get api t k)"
| "exec_request api table (PutReq t k v) = replying status_reply (Put api t k v)"
| "exec_request api table (DeleteReq t k) = replying status_reply
     (Delete api t k (DupSorted table \<and> length k = row_key_bytes table))"
| "exec_request api table (WriteReq t) = replying (\<lambda>_. [STATUS_SUCCESS]) (Write api)"
| "exec_request api table (FirstReq t c) = replying value_reply (First api t c)"
| "exec_request api table (SeekExactReq t c k) = replying value_reply (SeekExact api t c k)"
| "exec_request api table (SeekReq t c k) = replying value_reply (Seek api t c k)"
| "exec_request api table (NextReq t c) = replying value_reply (Next api t c)"
| "exec_request api table (PrevReq t c) = replying value_reply (Prev api t c)"
| "exec_request api table (LastReq t c) = replying value_reply (Last api t c)"
| "exec_request api table (CurrentReq t c) = replying value_reply (Current api t c)"
| "exec_request api table (UpsertReq t c k v) = replying status_reply (Upsert api t c k v)"
| "exec_request api table (InsertReq t c k v) = replying status_reply (Insert api t c k v)"
| "exec_request api table (AppendReq t c k v) = replying status_reply (Append api t c k v)"
| "exec_request api table (DeleteCurrentReq t c) = replying status_reply (DeleteCurrent api t c)"
| "exec_request api table (NextDupReq t c) = replying value_reply (NextDup api False t c)"
| "exec_request api table (NextNoDupReq t c) = replying value_reply (NextNoDup api t c)"
| "exec_request api table (SeekByKeySubkeyReq t c k) =
     replying value_reply (SeekByKeySubkey api t c k)"
| "exec_request api table (DeleteCurrentDuplicatesReq t c) =
     replying status_reply (DeleteCurrentDuplicates api t c)"
| "exec_request api table (AppendDupReq t c k v) = replying status_reply (AppendDup api t c k v)"

section \<open>Fields of a message\<close>

lemma field_after_codes:
  "length (x # y # s @ q) \<le> cap \<Longrightarrow> n = length s \<Longrightarrow>
     slice_range (buffer_of cap (x # y # s @ q)) 2 (2 + n) = Some s"
  by (simp add: slice_range_buffer_of)

lemma field_after_cursor:
  "length (x # y # c @ s @ q) \<le> cap \<Longrightarrow> length c = 8 \<Longrightarrow> n = length s \<Longrightarrow>
     slice_range (buffer_of cap (x # y # c @ s @ q)) 10 (10 + n) = Some s"
  by (simp add: slice_range_buffer_of)

lemma tail_after_codes:
  "length (x # y # s @ q) \<le> cap \<Longrightarrow> n = length s \<Longrightarrow>
     slice_tail (buffer_of cap (x # y # s @ q)) (2 + n) = Some q"
  by (simp add: slice_tail_buffer_of)

lemma tail_after_cursor:
  "length (x # y # c @ s @ q) \<le> cap \<Longrightarrow> length c = 8 \<Longrightarrow> n = length s \<Longrightarrow>
     slice_tail (buffer_of cap (x # y # c @ s @ q)) (10 + n) = Some q"
proof -
  assume "length c = 8" and "n = length s"
  then have "drop (10 + n) ((x # y # c @ s) @ q) = q" by (simp del: append_Cons append_assoc)
  moreover assume "length (x # y # c @ s @ q) \<le> cap"
  ultimately show ?thesis using \<open>length c = 8\<close> \<open>n = length s\<close>
    by (simp add: slice_tail_buffer_of)
qed

lemma on_message_codes:
  assumes "executionTablesInfo a 0 = Some table0" and "executionTablesInfo a t = Some table"
  shows "on_message api (x # t # rest) a =
    apfst (map_outcome (\<lambda>r. [r]))
      (handle_operation api x t (buffer_of BufferBytes (x # t # rest)) (set_marker api table0 a))"
  using assms by (simp add: on_message_cases [OF assms(1)] Let_def)

lemma bytes_after_codes:
  "length (x # y # q) \<le> cap \<Longrightarrow> slice_tail (buffer_of cap (x # y # q)) 2 = Some q"
  by (simp add: slice_tail_buffer_of)

lemma bytes_after_cursor:
  "length (x # y # c @ q) \<le> cap \<Longrightarrow> length c = 8 \<Longrightarrow>
     slice_tail (buffer_of cap (x # y # c @ q)) 10 = Some q"
  by (simp add: slice_tail_buffer_of)

lemma only_field:
  "length (x # y # s) \<le> cap \<Longrightarrow> n = length s \<Longrightarrow>
     slice_range (buffer_of cap (x # y # s)) 2 (2 + n) = Some s"
  by (simp add: slice_range_buffer_of)

lemma cursor_of_first:
  "length (x # y # c @ q) \<le> cap \<Longrightarrow> length c = 8 \<Longrightarrow>
     cursor_of (buffer_of cap (x # y # c @ q)) = Some c"
  by (simp add: cursor_of_def slice_range_buffer_of)

lemma cursor_of_only:
  "length (x # y # c) \<le> cap \<Longrightarrow> length c = 8 \<Longrightarrow>
     cursor_of (buffer_of cap (x # y # c)) = Some c"
  by (simp add: cursor_of_def slice_range_buffer_of)

lemmas field_lemmas = field_after_codes field_after_cursor tail_after_codes tail_after_cursor
  bytes_after_codes bytes_after_cursor only_field cursor_of_first cursor_of_only

section \<open>Decoding what was encoded\<close>

lemma tableAt_known: "executionTablesInfo a t = Some table \<Longrightarrow> tableAt a t = table"
  by (simp add: tableAt_def)

lemma cursor_request_decodes:
  "length c = 8 \<Longrightarrow>
     cursor_request run (buffer_of 4096 (x # y # c)) a = run c a"
  by (simp add: cursor_request_def field_lemmas)

lemma cursor_key_request_decodes:
  "length c = 8 \<Longrightarrow> length k = n \<Longrightarrow> length (x # y # c @ k) \<le> 4096 \<Longrightarrow>
     cursor_key_request n run (buffer_of 4096 (x # y # c @ k)) a = run c k a"
  by (simp add: cursor_key_request_def field_lemmas)

lemma cursor_entry_fields_decodes:
  assumes "length c = 8" and "length k = row_key_bytes table" and "DupSorted table \<longrightarrow> v \<noteq> []"
    and "length (x # y # c @ k @ v) \<le> 4096"
  shows "cursor_entry_fields table (buffer_of 4096 (x # y # c @ k @ v)) = Ret (Inr (c, k, v))"
  using assms field_after_cursor [of x y c k v 4096 "length k"]
    tail_after_cursor [of x y c k v 4096 "length k"]
  by (simp add: cursor_entry_fields_def Let_def cursor_of_first row_key_bytes_def add.assoc
      split: if_splits)

lemma put_fields_decodes:
  assumes "length k = row_key_bytes table" and "v \<noteq> []" and "length (x # y # k @ v) \<le> 4096"
  shows "put_fields table (buffer_of 4096 (x # y # k @ v)) = Ret (Inr (k, v))"
  using assms field_after_codes [of x y k v 4096 "length k"]
    tail_after_codes [of x y k v 4096 "length k"]
  by (simp add: put_fields_def Let_def row_key_bytes_def add.assoc split: if_splits)

lemmas decoding = cursor_request_decodes cursor_key_request_decodes cursor_entry_fields_decodes
  put_fields_decodes tableAt_known

lemma handle_GET_decodes:
  assumes "executionTablesInfo a t = Some table" and "length k = KeyBytes table"
    and "length (x # t # k) \<le> 4096"
  shows "handle_GET api t (buffer_of 4096 (x # t # k)) a = replying value_reply (Get api t k) a"
  using assms only_field [of x t k 4096 "length k"]
  by (simp add: handle_GET_def Let_def tableAt_known)

lemma handle_DELETE_decodes:
  assumes "executionTablesInfo a t = Some table"
    and "length k = KeyBytes table \<or> length k = row_key_bytes table"
    and "length (x # t # k) \<le> 4096"
  shows "handle_DELETE api t (buffer_of 4096 (x # t # k)) a =
    replying status_reply (Delete api t k (DupSorted table \<and> length k = row_key_bytes table)) a"
  using assms bytes_after_codes [of x t k 4096]
  by (auto simp: handle_DELETE_def Let_def tableAt_known row_key_bytes_def split: if_splits)

lemma handle_APPEND_DUP_decodes:
  assumes "executionTablesInfo a t = Some table" and "DupSorted table" and "length c = 8"
    and "length k = row_key_bytes table" and "v \<noteq> []" and "length (x # t # c @ k @ v) \<le> 4096"
  shows "handle_APPEND_DUP api t (buffer_of 4096 (x # t # c @ k @ v)) a =
    replying status_reply (AppendDup api t c k v) a"
  using assms field_after_cursor [of x t c k v 4096 "length k"]
    tail_after_cursor [of x t c k v 4096 "length k"]
  by (simp add: handle_APPEND_DUP_def Let_def tableAt_known row_key_bytes_def cursor_of_first
      add.assoc)

lemma handle_operation_decodes:
  assumes "executionTablesInfo a (table_code r) = Some table"
    and "well_formed table r" and "length (encode r) \<le> 4096"
  shows "handle_operation api (hd (encode r)) (table_code r) (buffer_of 4096 (encode r)) a =
    exec_request api table r a"
  using assms
proof (cases r)
  case (GetReq t k)
  then show ?thesis using assms by (simp add: handle_operation_def handle_GET_decodes)
next
  case (DeleteReq t k)
  then show ?thesis using assms by (simp add: handle_operation_def handle_DELETE_decodes)
next
  case (AppendDupReq t c k v)
  then show ?thesis using assms
    by (simp add: handle_operation_def handle_APPEND_DUP_decodes row_key_bytes_def)
qed (simp_all add: handle_operation_def handler_defs handle_WRITE_def Let_def
      cursor_entry_request_def decoding field_lemmas row_key_bytes_def)

lemma encode_codes: "\<exists>rest. encode r = hd (encode r) # table_code r # rest"
  by (cases r) simp_all

text \<open>
  The router runs, for the message of a well-formed request, the operation it names on the
  fields it carries, and sends its one reply.
\<close>

lemma on_message_decodes:
  assumes "executionTablesInfo a 0 = Some table0"
    and "executionTablesInfo a (table_code r) = Some table"
    and "well_formed table r" and "length (encode r) \<le> BufferBytes"
  shows "on_message api (encode r) a = apfst (map_outcome (\<lambda>response. [response]))
    (exec_request api table r (set_marker api table0 a))"
proof -
  obtain rest where e: "encode r = hd (encode r) # table_code r # rest"
    using encode_codes by blast
  then have "on_message api (encode r) a = apfst (map_outcome (\<lambda>response. [response]))
      (handle_operation api (hd (encode r)) (table_code r) (buffer_of BufferBytes (encode r))
         (set_marker api table0 a))"
    using on_message_codes [OF assms(1,2), of api "hd (encode r)" rest] by metis
  then show ?thesis
    using handle_operation_decodes [of "set_marker api table0 a" r table api] assms by simp
qed

section \<open>Sessions\<close>

text \<open>
  A session is what a connection does for a list of requests, over the requests themselves: no
  bytes and no offsets. \<open>tables\<close> is the catalogue, which no request changes.
\<close>

fun session :: "('ms, 'cs) store_api \<Rightarrow> (byte \<rightharpoonup> tableInfo) \<Rightarrow> request list \<Rightarrow> ('ms, 'cs) app \<Rightarrow>
    bytes list \<times> connection_end \<times> ('ms, 'cs) app" where
  "session api tables [] a = ([], Waiting, loop_top api a)"
| "session api tables (r # rs) a =
     (case exec_request api (the (tables (table_code r))) r
             (set_marker api (the (tables 0)) (loop_top api a)) of
        (Ret response, a) \<Rightarrow>
          (case session api tables rs a of (rest, e, a) \<Rightarrow> (response # rest, e, a))
      | (Panic, a) \<Rightarrow> ([], Crashed, a)
      | (Blocked, a) \<Rightarrow> ([], Hung, a))"

definition session_requests :: "(byte \<rightharpoonup> tableInfo) \<Rightarrow> request list \<Rightarrow> bool" where
  "session_requests tables rs \<longleftrightarrow> tables 0 \<noteq> None \<and>
     (\<forall>r \<in> set rs. \<exists>table. tables (table_code r) = Some table \<and> well_formed table r \<and>
        length (encode r) \<le> BufferBytes)"

lemma Write_tables: "executionTablesInfo (snd (Write api a)) = executionTablesInfo a"
  using Write_cases [of api a] by auto

lemma exec_request_tables:
  "executionTablesInfo (snd (exec_request api table r a)) = executionTablesInfo a"
proof (cases r)
  case (WriteReq t)
  then show ?thesis by (simp add: Write_tables)
qed (simp_all add: operations_keep [unfolded keeps_def])

section \<open>Properties\<close>

text \<open>
  C1: the router decodes the protocol. For any list of well-formed requests, each arriving as
  one read, the connection does what the session over the requests does: it runs, for each, the
  operation it names on exactly the key, subkey, cursor and value it carries, sends one reply
  per request in order, and ends the same way in the same state.
\<close>

theorem connection_refines_session:
  assumes "session_requests (executionTablesInfo a) rs"
  shows "ethHandleDatabaseConnection api (map (\<lambda>r. Read (encode r)) rs) a =
    session api (executionTablesInfo a) rs a"
  using assms
proof (induction rs arbitrary: a)
  case (Cons r rs)
  let ?tables = "executionTablesInfo a"
  obtain table0 table where t: "?tables 0 = Some table0" "?tables (table_code r) = Some table"
    "well_formed table r" "length (encode r) \<le> BufferBytes"
    using Cons.prems by (auto simp: session_requests_def)
  let ?b = "set_marker api table0 (loop_top api a)"
  obtain x b where run: "exec_request api table r ?b = (x, b)" by fastforce
  have msg: "on_message api (encode r) (loop_top api a) = (map_outcome (\<lambda>response. [response]) x, b)"
    using on_message_decodes [of "loop_top api a" table0 r table api] t run by simp
  have tables: "executionTablesInfo b = ?tables"
    using exec_request_tables [of api table r ?b] run by simp
  then have "session_requests (executionTablesInfo b) rs"
    using Cons.prems by (simp add: session_requests_def)
  from Cons.IH [OF this] show ?case
    using msg run t tables by (cases x) (simp_all split: prod.split)
qed simp

theorem connection_refines_session_witness:
  "ethHandleDatabaseConnection journal_api
      (map (\<lambda>r. Read (encode r)) [FirstReq 1 (cursor_id 1), GetReq 1 (acct 7)]) sample_app =
    session journal_api evm_tables [FirstReq 1 (cursor_id 1), GetReq 1 (acct 7)] sample_app"
  using connection_refines_session [of sample_app "[FirstReq 1 (cursor_id 1), GetReq 1 (acct 7)]" journal_api]
  by (simp add: session_requests_def sample_simps)

end
