(* ===== verification/Db_Crash.thy ===== *)
theory Db_Crash imports Db_Protocol begin

text \<open>
  When a message makes the router panic, which ends the whole process: exactly when. The
  operations that slice a key they did not receive (\<open>Append\<close>, \<open>NextDup\<close>, \<open>NextNoDup\<close>,
  \<open>DeleteCurrentDuplicates\<close>) can meet a key that is too short, since the router itself writes
  the one-byte key of the marker row; and the length checks of three cases leave a gap.
\<close>

section \<open>Operations that never panic\<close>

lemma never_panics [simp]:
  shows "fst (Put api t k v a) \<noteq> Panic" and "fst (Delete api t k b a) \<noteq> Panic"
    and "fst (Write api a) \<noteq> Panic" and "fst (First api t c a) \<noteq> Panic"
    and "fst (SeekExact api t c k a) \<noteq> Panic" and "fst (Seek api t c k a) \<noteq> Panic"
    and "fst (Last api t c a) \<noteq> Panic" and "fst (Next api t c a) \<noteq> Panic"
    and "fst (Prev api t c a) \<noteq> Panic" and "fst (Current api t c a) \<noteq> Panic"
    and "fst (Upsert api t c k v a) \<noteq> Panic" and "fst (DeleteCurrent api t c a) \<noteq> Panic"
  by (auto simp: Put_def Delete_def Write_def First_def SeekExact_def Seek_def Last_def Next_def
      Prev_def Current_def Upsert_def DeleteCurrent_def Let_def lock_simps split: lock_splits)

section \<open>Operations that slice a stored key\<close>

text \<open>The key under the cursor is there and too short.\<close>

definition short_cursor :: "nat \<Rightarrow> bytes \<Rightarrow> ('ms, 'cs) app \<Rightarrow> bool" where
  "short_cursor n c a \<longleftrightarrow>
     (case ethIteratorsCurrentKey a c of None \<Rightarrow> False | Some cur \<Rightarrow> length cur < n)"

lemma dup_steps_panic_iff:
  assumes "locks_free a" and "executionTablesInfo a t = Some table" and "DupSorted table"
  shows "fst (NextDup api False t c a) = Panic \<longleftrightarrow> short_cursor (KeyBytes table) c a"
    and "fst (NextNoDup api t c a) = Panic \<longleftrightarrow> short_cursor (KeyBytes table) c a"
    and "fst (DeleteCurrentDuplicates api t c a) = Panic \<longleftrightarrow> short_cursor (KeyBytes table) c a"
  using assms
  by (cases "ethIteratorsCurrentKey a c";
      auto simp: short_cursor_def NextDup_def NextNoDup_def DeleteCurrentDuplicates_def First_def
        lock_simps slice_to_def Let_def split: lock_splits)+

context multistore
begin

lemma Get_no_panic:
  "locks_free a \<Longrightarrow> executionTablesInfo a t = Some table \<Longrightarrow> length k = KeyBytes table \<Longrightarrow>
     fst (Get api t k a) \<noteq> Panic"
  by (cases "DupSorted table") (simp_all add: Get_single Get_dup)

lemma Insert_no_panic:
  "locks_free a \<Longrightarrow> executionTablesInfo a t = Some table \<Longrightarrow> KeyBytes table \<le> length k \<Longrightarrow>
     fst (Insert api t c k v a) \<noteq> Panic"
  by (simp add: Insert_map)

lemma SeekByKeySubkey_no_panic:
  "locks_free a \<Longrightarrow> executionTablesInfo a t = Some table \<Longrightarrow> DupSorted table \<Longrightarrow>
     KeyBytes table \<le> length k \<Longrightarrow> fst (SeekByKeySubkey api t c k a) \<noteq> Panic"
  by (simp add: SeekByKeySubkey_map split: option.split)

lemma AppendDup_no_panic:
  "locks_free a \<Longrightarrow> executionTablesInfo a t = Some table \<Longrightarrow> DupSorted table \<Longrightarrow>
     KeyBytes table \<le> length k \<Longrightarrow> fst (AppendDup api t c k v a) \<noteq> Panic"
  by (simp add: AppendDup_map split: option.split)

lemma Append_panics_iff:
  "locks_free a \<Longrightarrow> executionTablesInfo a t = Some table \<Longrightarrow> KeyBytes table \<le> length k \<Longrightarrow>
     fst (Append api t c k v a) = Panic \<longleftrightarrow>
       (\<exists>g w. last_where (\<lambda>_. True) (map_of (cs_rows (cached_store a) (StoreKey table))) = Some (g, w) \<and>
          length g < KeyBytes table)"
  by (auto simp: Append_map split: option.split)

end

section \<open>Messages\<close>

text \<open>The gap: a message for a table without subkeys that is longer than the operation code,
  the table code and the key, and shorter than these and the cursor.\<close>

definition entry_gap :: "tableInfo \<Rightarrow> nat \<Rightarrow> bool" where
  "entry_gap table n \<longleftrightarrow> \<not> DupSorted table \<and> 2 + KeyBytes table < n \<and>
     n < 2 + CursorIDBytes + KeyBytes table"

definition entry_accepted :: "tableInfo \<Rightarrow> nat \<Rightarrow> bool" where
  "entry_accepted table n \<longleftrightarrow>
     (if DupSorted table then 2 + CursorIDBytes + KeyBytes table + SubKeyBytes table < n
      else 2 + CursorIDBytes + KeyBytes table \<le> n \<and> 2 + KeyBytes table < n)"

lemma entry_fields_cases:
  assumes "2 + CursorIDBytes + row_key_bytes table \<le> 4096"
  shows "entry_gap table (len (buffer_of 4096 msg)) \<Longrightarrow>
      cursor_entry_fields table (buffer_of 4096 msg) = Panic"
    and "entry_accepted table (len (buffer_of 4096 msg)) \<Longrightarrow>
      \<exists>c k v. cursor_entry_fields table (buffer_of 4096 msg) = Ret (Inr (c, k, v)) \<and>
        length k = row_key_bytes table \<and> length c = CursorIDBytes"
    and "\<not> entry_gap table (len (buffer_of 4096 msg)) \<Longrightarrow>
      \<not> entry_accepted table (len (buffer_of 4096 msg)) \<Longrightarrow>
      cursor_entry_fields table (buffer_of 4096 msg) = Ret (Inl ErrInvalidRequestData)"
  using assms
  by (auto simp: cursor_entry_fields_def cursor_of_def slice_range_def slice_tail_def Let_def
      entry_gap_def entry_accepted_def row_key_bytes_def split: if_splits)

lemma panics_mapped [simp]: "map_outcome f r = Panic \<longleftrightarrow> r = Panic"
  by (cases r) auto

lemma cursor_request_panics_iff:
  "length msg \<le> 4096 \<Longrightarrow> fst (cursor_request run (buffer_of 4096 msg) a) = Panic \<longleftrightarrow>
     length msg = 10 \<and> fst (run (take 8 (drop 2 msg)) a) = Panic"
  by (auto simp: cursor_request_def cursor_of_def slice_range_buffer_of)

lemma cursor_key_request_no_panic:
  assumes "\<And>c k. length k = n \<Longrightarrow> fst (run c k a) \<noteq> Panic" and "length msg \<le> 4096"
  shows "fst (cursor_key_request n run (buffer_of 4096 msg) a) \<noteq> Panic"
  using assms
  by (auto simp: cursor_key_request_def cursor_of_def slice_range_buffer_of slice_tail_buffer_of)

lemma handle_PUT_no_panic:
  assumes "executionTablesInfo a t = Some table" and "2 + row_key_bytes table \<le> 4096"
  shows "fst (handle_PUT api t (buffer_of 4096 msg) a) \<noteq> Panic"
  using assms
  by (auto simp: handle_PUT_def put_fields_def tableAt_known slice_range_def slice_tail_def Let_def
      row_key_bytes_def)

lemma cursor_entry_request_panics_iff:
  assumes "executionTablesInfo a t = Some table" and "10 + row_key_bytes table \<le> 4096"
    and "length msg \<le> 4096"
    and run: "\<And>c k v. length k = row_key_bytes table \<Longrightarrow> fst (run c k v a) = Panic \<longleftrightarrow> P"
  shows "fst (cursor_entry_request run t (buffer_of 4096 msg) a) = Panic \<longleftrightarrow>
    entry_gap table (length msg) \<or> (entry_accepted table (length msg) \<and> P)"
proof -
  have n: "len (buffer_of 4096 msg) = length msg" using assms(3) by simp
  have fits: "2 + CursorIDBytes + row_key_bytes table \<le> 4096" using assms(2) by simp
  have excl: "\<not> (entry_gap table (length msg) \<and> entry_accepted table (length msg))"
    by (auto simp: entry_gap_def entry_accepted_def)
  consider "entry_gap table (length msg)" | "entry_accepted table (length msg)"
    | "\<not> entry_gap table (length msg)" "\<not> entry_accepted table (length msg)" by blast
  then show ?thesis
  proof cases
    case 1
    then show ?thesis
      using entry_fields_cases(1) [OF fits, of msg] n assms(1)
      by (simp add: cursor_entry_request_def tableAt_known)
  next
    case 2
    then obtain c k v where "cursor_entry_fields table (buffer_of 4096 msg) = Ret (Inr (c, k, v))"
      "length k = row_key_bytes table"
      using entry_fields_cases(2) [OF fits, of msg] n by auto
    then show ?thesis
      using run 2 excl assms(1) by (auto simp: cursor_entry_request_def tableAt_known)
  next
    case 3
    then show ?thesis
      using entry_fields_cases(3) [OF fits, of msg] n assms(1)
      by (simp add: cursor_entry_request_def tableAt_known)
  qed
qed

definition short_greatest :: "nat \<Rightarrow> entries \<Rightarrow> bool" where
  "short_greatest n rows \<longleftrightarrow>
     (case last_where (\<lambda>_. True) (map_of rows) of
        None \<Rightarrow> False | Some (g, _) \<Rightarrow> length g < n)"

definition crash_request :: "entries \<Rightarrow> tableInfo \<Rightarrow> byte \<Rightarrow> bytes \<Rightarrow> ('ms, 'cs) app \<Rightarrow> bool" where
  "crash_request rows table operation msg a \<longleftrightarrow>
     (operation \<in> {OP_UPSERT, OP_INSERT, OP_APPEND} \<and> entry_gap table (length msg)) \<or>
     (operation = OP_APPEND \<and> entry_accepted table (length msg) \<and>
      short_greatest (KeyBytes table) rows) \<or>
     (operation \<in> {OP_NEXT_DUP, OP_NEXT_NO_DUP, OP_DELETE_CURRENT_DUPLICATES} \<and>
      DupSorted table \<and> length msg = 2 + CursorIDBytes \<and>
      short_cursor (KeyBytes table) (take CursorIDBytes (drop 2 msg)) a)"

definition crash_message :: "('ms \<times> 'cs \<Rightarrow> string \<Rightarrow> entries) \<Rightarrow> bytes \<Rightarrow> ('ms, 'cs) app \<Rightarrow> bool" where
  "crash_message cs_rows msg a \<longleftrightarrow>
     (case msg of
        [] \<Rightarrow> False
      | [_] \<Rightarrow> True
      | operation # tableCode # _ \<Rightarrow>
          (case executionTablesInfo a tableCode of
             None \<Rightarrow> False
           | Some table \<Rightarrow>
               crash_request (cs_rows (cached_store a) (StoreKey table)) table operation msg a))"

context multistore
begin

lemma handle_GET_no_panic:
  assumes "locks_free a" and "executionTablesInfo a t = Some table" and "length msg \<le> 4096"
  shows "fst (handle_GET api t (buffer_of 4096 msg) a) \<noteq> Panic"
  using assms Get_no_panic [OF assms(1,2)]
  by (auto simp: handle_GET_def tableAt_known slice_range_buffer_of)

lemma handle_DELETE_no_panic: "fst (handle_DELETE api t (buffer_of 4096 msg) a) \<noteq> Panic"
  by (auto simp: handle_DELETE_def slice_tail_def Let_def split: if_splits)

lemma handle_APPEND_DUP_no_panic:
  assumes "locks_free a" and "executionTablesInfo a t = Some table"
    and "10 + row_key_bytes table \<le> 4096"
  shows "fst (handle_APPEND_DUP api t (buffer_of 4096 msg) a) \<noteq> Panic"
  using assms AppendDup_no_panic [OF assms(1,2)]
  by (auto simp: handle_APPEND_DUP_def tableAt_known cursor_of_def slice_range_def slice_tail_def
      Let_def row_key_bytes_def split: if_splits)

lemma short_greatest_iff:
  "locks_free a \<Longrightarrow> executionTablesInfo a t = Some table \<Longrightarrow> KeyBytes table \<le> length k \<Longrightarrow>
     fst (Append api t c k v a) = Panic \<longleftrightarrow>
       short_greatest (KeyBytes table) (cs_rows (cached_store a) (StoreKey table))"
  by (auto simp: Append_panics_iff short_greatest_def split: option.split)

lemma handle_operation_panics_iff:
  assumes free: "locks_free a" and t: "executionTablesInfo a t = Some table"
    and fits: "10 + row_key_bytes table \<le> 4096" and len: "length msg \<le> 4096"
  shows "fst (handle_operation api x t (buffer_of 4096 msg) a) = Panic \<longleftrightarrow>
    crash_request (cs_rows (cached_store a) (StoreKey table)) table x msg a"
proof -
  have kb: "KeyBytes table \<le> row_key_bytes table" by (simp add: row_key_bytes_def)
  have entry: "fst (cursor_entry_request run t (buffer_of 4096 msg) a) = Panic \<longleftrightarrow>
      entry_gap table (length msg) \<or> (entry_accepted table (length msg) \<and> P)"
    if "\<And>c k v. length k = row_key_bytes table \<Longrightarrow> fst (run c k v a) = Panic \<longleftrightarrow> P" for run P
    using that by (intro cursor_entry_request_panics_iff [OF t fits len])
  have put: "fst (handle_PUT api t (buffer_of 4096 msg) a) \<noteq> Panic"
    using fits by (intro handle_PUT_no_panic [OF t]) simp
  have upsert: "fst (handle_UPSERT api t (buffer_of 4096 msg) a) = Panic \<longleftrightarrow> entry_gap table (length msg)"
    using entry [of "Upsert api t" False] by (simp add: handle_UPSERT_def)
  have insert: "fst (handle_INSERT api t (buffer_of 4096 msg) a) = Panic \<longleftrightarrow> entry_gap table (length msg)"
    using entry [of "Insert api t" False] Insert_no_panic [OF free t] kb
    by (auto simp: handle_INSERT_def)
  have append: "fst (handle_APPEND api t (buffer_of 4096 msg) a) = Panic \<longleftrightarrow>
      entry_gap table (length msg) \<or> (entry_accepted table (length msg) \<and>
        short_greatest (KeyBytes table) (cs_rows (cached_store a) (StoreKey table)))"
    using entry [of "Append api t"] short_greatest_iff [OF free t] kb by (simp add: handle_APPEND_def)
  have seek: "fst (handle_SEEK_BY_KEY_SUBKEY api t (buffer_of 4096 msg) a) \<noteq> Panic"
    using len
    by (simp add: handle_SEEK_BY_KEY_SUBKEY_def Let_def tableAt_known [OF t]
        cursor_key_request_no_panic SeekByKeySubkey_no_panic [OF free t])
  have dups: "fst (handle_NEXT_DUP api t (buffer_of 4096 msg) a) = Panic \<longleftrightarrow>
      DupSorted table \<and> length msg = 10 \<and> short_cursor (KeyBytes table) (take 8 (drop 2 msg)) a"
    "fst (handle_NEXT_NO_DUP api t (buffer_of 4096 msg) a) = Panic \<longleftrightarrow>
      DupSorted table \<and> length msg = 10 \<and> short_cursor (KeyBytes table) (take 8 (drop 2 msg)) a"
    "fst (handle_DELETE_CURRENT_DUPLICATES api t (buffer_of 4096 msg) a) = Panic \<longleftrightarrow>
      DupSorted table \<and> length msg = 10 \<and> short_cursor (KeyBytes table) (take 8 (drop 2 msg)) a"
    using len
    by (auto simp: handle_NEXT_DUP_def handle_NEXT_NO_DUP_def handle_DELETE_CURRENT_DUPLICATES_def
        tableAt_known [OF t] cursor_request_panics_iff dup_steps_panic_iff [OF free t])
  have others: "fst (handle_FIRST api t (buffer_of 4096 msg) a) \<noteq> Panic"
    "fst (handle_SEEK_EXACT api t (buffer_of 4096 msg) a) \<noteq> Panic"
    "fst (handle_SEEK api t (buffer_of 4096 msg) a) \<noteq> Panic"
    "fst (handle_NEXT api t (buffer_of 4096 msg) a) \<noteq> Panic"
    "fst (handle_PREV api t (buffer_of 4096 msg) a) \<noteq> Panic"
    "fst (handle_LAST api t (buffer_of 4096 msg) a) \<noteq> Panic"
    "fst (handle_CURRENT api t (buffer_of 4096 msg) a) \<noteq> Panic"
    "fst (handle_DELETE_CURRENT api t (buffer_of 4096 msg) a) \<noteq> Panic"
    "fst (handle_WRITE api a) \<noteq> Panic"
    using len
    by (simp_all add: handler_defs handle_WRITE_def cursor_request_panics_iff
        cursor_key_request_no_panic)
  note handlers = put upsert insert append seek dups others handle_GET_no_panic [OF free t len]
    handle_DELETE_no_panic [of t msg a] handle_APPEND_DUP_no_panic [OF free t fits]
  show ?thesis
    by (simp add: handle_operation_def crash_request_def handlers)
qed

end

lemma message_panics_iff:
  assumes store: "multistore api ms_rows cs_rows"
    and a: "locks_free a" "executionTablesInfo a 0 = Some table0"
    and fits: "\<forall>table \<in> ran (executionTablesInfo a). 2 + CursorIDBytes + row_key_bytes table \<le> BufferBytes"
    and len: "length msg \<le> BufferBytes"
  shows "fst (on_message api msg a) = Panic \<longleftrightarrow> crash_message cs_rows msg (set_marker api table0 a)"
proof (cases msg)
  case (Cons x rest)
  let ?b = "set_marker api table0 a"
  show ?thesis
  proof (cases rest)
    case Nil
    then show ?thesis using Cons by (simp add: on_message_cases [OF a(2)] crash_message_def)
  next
    case (Cons t rest')
    with \<open>msg = x # rest\<close> have msg: "msg = x # t # rest'" by simp
    show ?thesis
    proof (cases "executionTablesInfo a t")
      case None
      then show ?thesis using msg by (simp add: on_message_cases [OF a(2)] crash_message_def)
    next
      case (Some table)
      then have "10 + row_key_bytes table \<le> 4096" using fits by (auto intro: ranI)
      then show ?thesis
        using multistore.handle_operation_panics_iff [OF store, of ?b t table msg x] Some a len msg
        by (simp add: on_message_cases [OF a(2)] crash_message_def)
    qed
  qed
qed (simp add: on_message_cases [OF a(2)] crash_message_def)

section \<open>Messages to a stuck router\<close>

text \<open>
  Once a connection waits forever no operation panics: those that would slice a stored key wait
  for a lock before they do. What is left are the messages the length checks let through.
\<close>

definition gap_message :: "(byte \<rightharpoonup> tableInfo) \<Rightarrow> bytes \<Rightarrow> bool" where
  "gap_message tables msg \<longleftrightarrow>
     (case msg of
        [] \<Rightarrow> False
      | [_] \<Rightarrow> True
      | operation # tableCode # _ \<Rightarrow>
          (case tables tableCode of
             None \<Rightarrow> False
           | Some table \<Rightarrow> operation \<in> {OP_UPSERT, OP_INSERT, OP_APPEND} \<and> entry_gap table (length msg)))"

lemma stuck_no_panic:
  assumes "stuck a"
  shows "fst (NextDup api b t c a) \<noteq> Panic" and "fst (NextNoDup api t c a) \<noteq> Panic"
    and "fst (SeekByKeySubkey api t c k a) \<noteq> Panic"
  using assms
  by (auto simp: NextDup_def NextNoDup_def SeekByKeySubkey_def stuck_def rw_RLocked_def cur_Locked_def
      scoped_def getTable_def RLock_def Lock_def Let_def split: option.splits)

context multistore
begin

lemma stuck_Get_no_panic:
  assumes "stuck a" and "executionTablesInfo a t = Some table" and "length k = KeyBytes table"
  shows "fst (Get api t k a) \<noteq> Panic"
proof -
  have long: "KeyBytes table \<le> length k'"
    if "filter (\<lambda>(x, _). prefix k x) (ms_rows m n) = (k', v) # it" for k' v it m n
  proof -
    have "(k', v) \<in> set (filter (\<lambda>(x, _). prefix k x) (ms_rows m n))"
      using that by simp
    then have "prefix k k'" by auto
    then show ?thesis using assms(3) prefix_length_le by fastforce
  qed
  then show ?thesis
    using assms
    by (auto simp: Get_def stuck_def rw_RLocked_def scoped_def getTable_def RLock_def iterator_prefix
        slice_from_def dest: long split: list.split)
qed

lemma stuck_operation_panics_iff:
  assumes stuck: "stuck a" and t: "executionTablesInfo a t = Some table"
    and fits: "10 + row_key_bytes table \<le> 4096" and len: "length msg \<le> 4096"
  shows "fst (handle_operation api x t (buffer_of 4096 msg) a) = Panic \<longleftrightarrow>
    x \<in> {OP_UPSERT, OP_INSERT, OP_APPEND} \<and> entry_gap table (length msg)"
proof -
  note blocked = stuck_writes [OF stuck] stuck_dup_writes [OF stuck]
  have entry: "fst (cursor_entry_request run t (buffer_of 4096 msg) a) = Panic \<longleftrightarrow>
      entry_gap table (length msg)" if "\<And>c k v. fst (run c k v a) \<noteq> Panic" for run
    using cursor_entry_request_panics_iff [OF t fits len, of run False] that by simp
  have entries: "fst (handle_UPSERT api t (buffer_of 4096 msg) a) = Panic \<longleftrightarrow> entry_gap table (length msg)"
    "fst (handle_INSERT api t (buffer_of 4096 msg) a) = Panic \<longleftrightarrow> entry_gap table (length msg)"
    "fst (handle_APPEND api t (buffer_of 4096 msg) a) = Panic \<longleftrightarrow> entry_gap table (length msg)"
    by (simp_all add: handle_UPSERT_def handle_INSERT_def handle_APPEND_def entry blocked)
  have get: "fst (handle_GET api t (buffer_of 4096 msg) a) \<noteq> Panic"
    using stuck_Get_no_panic [OF stuck t] t len
    by (auto simp: handle_GET_def tableAt_known slice_range_buffer_of)
  have put: "fst (handle_PUT api t (buffer_of 4096 msg) a) \<noteq> Panic"
    using fits by (intro handle_PUT_no_panic [OF t]) simp
  have append_dup: "fst (handle_APPEND_DUP api t (buffer_of 4096 msg) a) \<noteq> Panic"
    using t fits
    by (auto simp: handle_APPEND_DUP_def tableAt_known cursor_of_def slice_range_def slice_tail_def
        Let_def row_key_bytes_def blocked split: if_splits)
  have others: "fst (handle_FIRST api t (buffer_of 4096 msg) a) \<noteq> Panic"
    "fst (handle_SEEK_EXACT api t (buffer_of 4096 msg) a) \<noteq> Panic"
    "fst (handle_SEEK api t (buffer_of 4096 msg) a) \<noteq> Panic"
    "fst (handle_NEXT api t (buffer_of 4096 msg) a) \<noteq> Panic"
    "fst (handle_PREV api t (buffer_of 4096 msg) a) \<noteq> Panic"
    "fst (handle_LAST api t (buffer_of 4096 msg) a) \<noteq> Panic"
    "fst (handle_CURRENT api t (buffer_of 4096 msg) a) \<noteq> Panic"
    "fst (handle_DELETE_CURRENT api t (buffer_of 4096 msg) a) \<noteq> Panic"
    "fst (handle_WRITE api a) \<noteq> Panic"
    "fst (handle_NEXT_DUP api t (buffer_of 4096 msg) a) \<noteq> Panic"
    "fst (handle_NEXT_NO_DUP api t (buffer_of 4096 msg) a) \<noteq> Panic"
    "fst (handle_DELETE_CURRENT_DUPLICATES api t (buffer_of 4096 msg) a) \<noteq> Panic"
    "fst (handle_SEEK_BY_KEY_SUBKEY api t (buffer_of 4096 msg) a) \<noteq> Panic"
    using len
    by (simp_all add: handler_defs handle_WRITE_def Let_def cursor_request_panics_iff
        cursor_key_request_no_panic stuck_no_panic [OF stuck] blocked)
  show ?thesis
    by (simp add: handle_operation_def entries get put append_dup others handle_DELETE_no_panic)
qed

end

lemma stuck_message_panics_iff:
  assumes store: "multistore api ms_rows cs_rows"
    and a: "stuck a" "executionTablesInfo a 0 = Some table0"
    and fits: "\<forall>table \<in> ran (executionTablesInfo a). 2 + CursorIDBytes + row_key_bytes table \<le> BufferBytes"
    and len: "length msg \<le> BufferBytes"
  shows "fst (on_message api msg a) = Panic \<longleftrightarrow> gap_message (executionTablesInfo a) msg"
proof -
  have b: "stuck (set_marker api table0 a)" using a(1) by (simp add: stuck_def)
  have "fst (handle_operation api x t (buffer_of BufferBytes msg) (set_marker api table0 a)) = Panic \<longleftrightarrow>
      x \<in> {OP_UPSERT, OP_INSERT, OP_APPEND} \<and> entry_gap table (length msg)"
    if "executionTablesInfo a t = Some table" for x t table
    using multistore.stuck_operation_panics_iff [OF store b, of t table msg x] that fits len
    by (auto simp: ran_def)
  then show ?thesis
    by (simp add: on_message_cases [OF a(2)] Let_def gap_message_def split: list.split option.split)
qed

section \<open>Properties\<close>

text \<open>
  C3: when the router panics, which ends the process. Handling a message of up to 4096 bytes
  panics exactly when it is one byte long; or it is an UPSERT, INSERT or APPEND for a table
  without subkeys with between \<open>2+KeyBytes\<close> and \<open>2+8+KeyBytes\<close> bytes; or it is an APPEND the
  length check accepts and the greatest key of the table is shorter than \<open>KeyBytes\<close>; or it is a
  NEXT_DUP, NEXT_NO_DUP or DELETE_CURRENT_DUPLICATES and the key under the cursor is shorter
  than \<open>KeyBytes\<close>. Every other message, however malformed, is answered (or waits for a lock).
\<close>

theorem panics_exactly:
  assumes store: "multistore api ms_rows cs_rows"
    and a: "locks_free a" "executionTablesInfo a 0 = Some table0"
    and fits: "\<forall>table \<in> ran (executionTablesInfo a). 2 + CursorIDBytes + row_key_bytes table \<le> BufferBytes"
    and len: "length msg \<le> BufferBytes"
  shows "fst (on_message api msg a) = Panic \<longleftrightarrow> crash_message cs_rows msg (set_marker api table0 a)"
  by (rule message_panics_iff [OF assms])

theorem panics_exactly_witness:
  "fst (on_message journal_api (OP_UPSERT # 0 # replicate 41 7) sample_app) = Panic"
proof -
  have "\<forall>table \<in> ran (executionTablesInfo sample_app). 2 + CursorIDBytes + row_key_bytes table \<le> BufferBytes"
    by (auto simp: sample_app_fields evm_tables_def ran_def row_key_bytes_def accounts_table_def
        storages_table_def split: if_splits)
  from panics_exactly [OF journal.multistore_axioms _ _ this, of accounts_table
      "OP_UPSERT # 0 # replicate 41 7"]
  show ?thesis
    by (simp add: sample_simps crash_message_def crash_request_def entry_gap_def)
qed

text \<open>
  The marker row makes the first append fatal. As long as no key of the first table starts
  with a byte of 1 or more (in particular while the table is empty), the marker's one-byte key
  is its greatest key, and a well-formed APPEND to the table panics.
\<close>

theorem append_after_marker_crashes:
  assumes store: "multistore api ms_rows cs_rows"
    and a: "locks_free a" "executionTablesInfo a 0 = Some table0"
    and table: "\<not> DupSorted table0" "1 < KeyBytes table0"
    and below: "\<forall>x \<in> set (keys_of (ms_rows (commitMultiStore a) (StoreKey table0))). x \<le> [1]"
    and wf: "well_formed table0 (AppendReq 0 c k v)"
      "length (encode (AppendReq 0 c k v)) \<le> BufferBytes"
  shows "fst (on_message api (encode (AppendReq 0 c k v)) (loop_top api a)) = Panic"
proof -
  let ?b = "set_marker api table0 (loop_top api a)"
  let ?M = "map_of (cs_rows (cached_store ?b) (StoreKey table0))"
  have ord: "ordered (ms_rows (commitMultiStore a) (StoreKey table0))"
    using multistore.axioms(1) [OF store] by (simp add: kv_reader.rows_ordered)
  have "cs_rows (cached_store ?b) (StoreKey table0) =
      put_entry [1] [1] (ms_rows (commitMultiStore a) (StoreKey table0))"
    using multistore.set_marker_rows [OF store, of table0 "loop_top api a" "StoreKey table0"]
    by (simp add: multistore.fresh_rows [OF store] mark_def)
  then have M: "?M = (map_of (ms_rows (commitMultiStore a) (StoreKey table0)))([1] \<mapsto> [1])"
    by (simp add: map_of_put_entry [OF ord])
  have "last_where (\<lambda>_. True) ?M = Some ([1], [1])"
    unfolding M using below
    by (subst last_where_Some_iff) (auto simp: finite_dom_map_of dom_map_of_conv_image_fst)
  then have "fst (Append api 0 c k v ?b) = Panic"
    using multistore.Append_panics_iff [OF store, of ?b 0 table0 k c v] a table wf
    by (simp add: row_key_bytes_def)
  then show ?thesis
    using on_message_decodes [of "loop_top api a" table0 "AppendReq 0 c k v" table0 api] a wf
    by simp
qed

theorem append_after_marker_crashes_witness:
  "fst (on_message journal_api (encode (AppendReq 0 (cursor_id 1) (acct 9) [90]))
      (loop_top journal_api (sample_app\<lparr>commitMultiStore := []\<rparr>))) = Panic"
  using append_after_marker_crashes [OF journal.multistore_axioms,
      of "sample_app\<lparr>commitMultiStore := []\<rparr>" accounts_table "cursor_id 1" "acct 9" "[90]"]
  by (simp add: sample_simps row_key_bytes_def)

end
