(* ===== verification/Db_Deadlock.thy ===== *)
theory Db_Deadlock imports Db_Protocol begin

text \<open>
  The lock order of the stepping operations. \<open>Next\<close>, \<open>Prev\<close>, \<open>NextDup\<close> and \<open>NextNoDup\<close> take the
  cursor lock and then, when the cursor is not set, call an operation that takes it again. The
  theory shows what a client reaches with it: the goroutine waits forever, holding both locks,
  and no write is ever acknowledged again, on any connection.
\<close>

section \<open>A stuck process stays stuck\<close>

definition still_stuck :: "('ms, 'cs) app \<Rightarrow> 'a outcome \<times> ('ms, 'cs) app \<Rightarrow> bool" where
  "still_stuck a res \<longleftrightarrow> (stuck a \<longrightarrow> stuck (snd res) \<and>
     executionCacheMultistore (snd res) = executionCacheMultistore a)"

lemma still_stuck_same [simp]: "still_stuck a (r, a)"
  by (simp add: still_stuck_def)

lemma still_stuck_mapped [simp]: "still_stuck a (apfst (map_outcome g) res) \<longleftrightarrow> still_stuck a res"
  by (simp add: still_stuck_def)

lemma reads_stuck [simp]:
  shows "still_stuck a (Get api t k a)" and "still_stuck a (First api t c a)"
    and "still_stuck a (SeekExact api t c k a)" and "still_stuck a (Seek api t c k a)"
    and "still_stuck a (Last api t c a)" and "still_stuck a (Next api t c a)"
    and "still_stuck a (Prev api t c a)" and "still_stuck a (Current api t c a)"
    and "still_stuck a (NextDup api b t c a)" and "still_stuck a (NextNoDup api t c a)"
    and "still_stuck a (SeekByKeySubkey api t c k a)"
  by (auto simp: still_stuck_def stuck_def Get_def First_def SeekExact_def Seek_def Last_def
      Next_def Prev_def Current_def NextDup_def NextNoDup_def SeekByKeySubkey_def Let_def lock_simps
      split: lock_splits)

lemma writes_stuck [simp]:
  shows "still_stuck a (Put api t k v a)" and "still_stuck a (Delete api t k b a)"
    and "still_stuck a (Write api a)" and "still_stuck a (Upsert api t c k v a)"
    and "still_stuck a (Insert api t c k v a)" and "still_stuck a (Append api t c k v a)"
    and "still_stuck a (DeleteCurrent api t c a)"
    and "still_stuck a (DeleteCurrentDuplicates api t c a)"
    and "still_stuck a (AppendDup api t c k v a)"
  by (simp_all add: still_stuck_def stuck_writes stuck_dup_writes)

lemma requests_stuck:
  "(\<And>c. still_stuck a (run1 c a)) \<Longrightarrow> still_stuck a (cursor_request run1 data a)"
  "(\<And>c k. still_stuck a (run2 c k a)) \<Longrightarrow> still_stuck a (cursor_key_request n run2 data a)"
  "(\<And>c k v. still_stuck a (run3 c k v a)) \<Longrightarrow> still_stuck a (cursor_entry_request run3 t data a)"
  by (simp_all add: cursor_request_def cursor_key_request_def cursor_entry_request_def
      split: option.split outcome.split sum.split prod.split)

lemma handlers_stuck:
  shows "still_stuck a (handle_GET api t data a)"
    and "still_stuck a (handle_PUT api t data a)"
    and "still_stuck a (handle_DELETE api t data a)"
    and "still_stuck a (handle_WRITE api a)"
    and "still_stuck a (handle_FIRST api t data a)"
    and "still_stuck a (handle_SEEK_EXACT api t data a)"
    and "still_stuck a (handle_SEEK api t data a)"
    and "still_stuck a (handle_NEXT api t data a)"
    and "still_stuck a (handle_PREV api t data a)"
    and "still_stuck a (handle_LAST api t data a)"
    and "still_stuck a (handle_CURRENT api t data a)"
    and "still_stuck a (handle_UPSERT api t data a)"
    and "still_stuck a (handle_INSERT api t data a)"
    and "still_stuck a (handle_APPEND api t data a)"
    and "still_stuck a (handle_DELETE_CURRENT api t data a)"
    and "still_stuck a (handle_NEXT_DUP api t data a)"
    and "still_stuck a (handle_NEXT_NO_DUP api t data a)"
    and "still_stuck a (handle_SEEK_BY_KEY_SUBKEY api t data a)"
    and "still_stuck a (handle_DELETE_CURRENT_DUPLICATES api t data a)"
    and "still_stuck a (handle_APPEND_DUP api t data a)"
  by (simp_all add: handler_defs handle_WRITE_def Let_def requests_stuck
      split: option.split outcome.split sum.split prod.split)

lemma handle_operation_stuck: "still_stuck a (handle_operation api x t data a)"
  by (simp add: handle_operation_def handlers_stuck)

section \<open>No write is acknowledged\<close>

definition write_codes :: "byte set" where
  "write_codes = {OP_PUT, OP_DELETE, OP_WRITE, OP_UPSERT, OP_INSERT, OP_APPEND,
     OP_DELETE_CURRENT, OP_DELETE_CURRENT_DUPLICATES, OP_APPEND_DUP}"

definition unacknowledged :: "bytes outcome \<times> ('ms, 'cs) app \<Rightarrow> bool" where
  "unacknowledged res \<longleftrightarrow> (\<forall>reply. fst res = Ret reply \<longrightarrow> hd reply = STATUS_ERROR)"

lemma unacknowledged_simps [simp]:
  "unacknowledged (Blocked, a)" "unacknowledged (Panic, a)"
  "unacknowledged (Ret (error_reply err), a)"
  by (simp_all add: unacknowledged_def error_reply_def)

lemma unacknowledged_requests:
  "(\<And>c. unacknowledged (run1 c a)) \<Longrightarrow> unacknowledged (cursor_request run1 data a)"
  "(\<And>c k v. fst (run3 c k v a) = Blocked) \<Longrightarrow> unacknowledged (cursor_entry_request run3 t data a)"
  by (simp_all add: cursor_request_def cursor_entry_request_def unacknowledged_def error_reply_def
      split: option.split outcome.split sum.split prod.split)

lemma handle_operation_unacknowledged:
  assumes "stuck a" and "x \<in> write_codes"
  shows "unacknowledged (handle_operation api x t data a)"
proof -
  note blocked = stuck_writes [OF assms(1)] stuck_dup_writes [OF assms(1)]
  have "unacknowledged (handle_PUT api t data a)" "unacknowledged (handle_DELETE api t data a)"
    "unacknowledged (handle_WRITE api a)" "unacknowledged (handle_UPSERT api t data a)"
    "unacknowledged (handle_INSERT api t data a)" "unacknowledged (handle_APPEND api t data a)"
    "unacknowledged (handle_DELETE_CURRENT api t data a)"
    "unacknowledged (handle_DELETE_CURRENT_DUPLICATES api t data a)"
    "unacknowledged (handle_APPEND_DUP api t data a)"
    by (simp_all add: handler_defs handle_WRITE_def Let_def unacknowledged_requests blocked
        split: option.split outcome.split sum.split prod.split)
  then show ?thesis
    using assms(2) by (auto simp: write_codes_def handle_operation_def)
qed

section \<open>Properties\<close>

text \<open>
  C15: a client hangs the router with one request. NEXT or PREV, or in a table with subkeys
  NEXT_DUP or NEXT_NO_DUP, with a cursor that was never positioned, on a table that has a row
  (the first table always has one, the marker): the request is never answered, and the
  goroutine keeps the store's read lock and the cursor lock forever.
\<close>

theorem unset_cursor_hangs:
  assumes store: "multistore api ms_rows cs_rows"
    and a: "locks_free a" "executionTablesInfo a 0 = Some table0" "executionTablesInfo a t = Some table"
    and c: "length c = CursorIDBytes" "ethIteratorsCurrentKey a c = None"
    and row: "t = 0 \<or> ms_rows (commitMultiStore a) (StoreKey table) \<noteq> []"
    and r: "r \<in> {NextReq t c, PrevReq t c} \<or> DupSorted table \<and> r \<in> {NextDupReq t c, NextNoDupReq t c}"
  shows "\<exists>a'. on_message api (encode r) a = (Blocked, a') \<and> stuck a'"
proof -
  let ?b = "set_marker api table0 a"
  have put: "put_entry k v xs \<noteq> []" for k v xs by (cases xs) (auto split: if_splits)
  have rows: "ms_rows (commitMultiStore ?b) (StoreKey table) \<noteq> []"
    using row a put by (auto simp: multistore.set_marker_rows [OF store] mark_def)
  then have it: "ms_Iterator api (commitMultiStore ?b) (StoreKey table) None None \<noteq> []"
    "ms_ReverseIterator api (commitMultiStore ?b) (StoreKey table) None None \<noteq> []"
    using multistore.axioms(1) [OF store]
    by (simp_all add: kv_reader.iterator_all kv_reader.reverse_all)
  have b: "locks_free ?b" "executionTablesInfo ?b t = Some table" "ethIteratorsCurrentKey ?b c = None"
    using a c by simp_all
  have "table_code r = t" "well_formed table r" "length (encode r) \<le> BufferBytes"
    using r c by auto
  then have msg: "on_message api (encode r) a = apfst (map_outcome (\<lambda>response. [response]))
      (exec_request api table r ?b)"
    using on_message_decodes [of a table0 r table api] a by simp
  have "\<exists>a'. exec_request api table r ?b = (Blocked, a') \<and> stuck a'"
    using r Next_unset(2) [OF b it(1)] Prev_unset(2) [OF b it(2)] dup_unset(1) [OF b(1,2) _ b(3) it(1), of False]
      dup_unset(2) [OF b(1,2) _ b(3) it(1)]
    by auto
  then show ?thesis using msg by auto
qed

theorem unset_cursor_hangs_witness:
  "\<exists>a'. on_message journal_api (encode (NextReq 0 (cursor_id 1))) sample_app = (Blocked, a') \<and> stuck a'"
  using unset_cursor_hangs [OF journal.multistore_axioms, of sample_app accounts_table 0 accounts_table
      "cursor_id 1" "NextReq 0 (cursor_id 1)"]
  by (simp add: sample_simps)

text \<open>
  C18: the hang is for good and for everybody. Once stuck, the process stays stuck whatever
  message any connection sends; nothing is put in the cached store, nothing but the marker row
  is committed, and no write request (PUT, DELETE, WRITE, UPSERT, INSERT, APPEND,
  DELETE_CURRENT, DELETE_CURRENT_DUPLICATES, APPEND_DUP) is acknowledged: the answer is an error
  for a malformed one and none at all for a well-formed one.
\<close>

theorem stuck_for_good:
  assumes "stuck a" and t0: "executionTablesInfo a 0 = Some table0"
    and run: "on_message api msg a = (r, a')"
  shows "stuck a' \<and> executionCacheMultistore a' = executionCacheMultistore a \<and>
    commitMultiStore a' = ms_Set api (commitMultiStore a) (StoreKey table0) [1] [1] \<and>
    (\<forall>reply. msg \<noteq> [] \<longrightarrow> hd msg \<in> write_codes \<longrightarrow> r = Ret [reply] \<longrightarrow> hd reply = STATUS_ERROR)"
proof -
  let ?b = "set_marker api table0 a"
  have b: "stuck ?b" using assms(1) by (simp add: stuck_def)
  have m: "commitMultiStore ?b = ms_Set api (commitMultiStore a) (StoreKey table0) [1] [1]"
    by (simp add: set_marker_def)
  consider "msg = []" | x where "msg = [x]" | x t rest where "msg = x # t # rest"
    by (metis list.exhaust)
  then show ?thesis
  proof cases
    case (3 x t rest)
    show ?thesis
    proof (cases "executionTablesInfo a t")
      case None
      then show ?thesis
        using run 3 b m by (auto simp: on_message_cases [OF t0] Let_def error_reply_def)
    next
      case (Some table)
      obtain r1 where h: "handle_operation api x t (buffer_of BufferBytes msg) ?b = (r1, a')"
        and r: "r = map_outcome (\<lambda>response. [response]) r1"
        using run 3 Some by (cases "handle_operation api x t (buffer_of BufferBytes msg) ?b")
          (auto simp: on_message_cases [OF t0] Let_def)
      have "stuck a' \<and> executionCacheMultistore a' = executionCacheMultistore ?b"
        using handle_operation_stuck [of ?b api x t "buffer_of BufferBytes msg"] h b
        by (simp add: still_stuck_def)
      moreover have "commitMultiStore a' = commitMultiStore ?b"
      proof (cases "x = OP_WRITE")
        case True
        then show ?thesis
          using h stuck_writes(3) [OF b] by (auto simp: handle_operation_def handle_WRITE_def)
      next
        case False
        from handle_operation_keeps [OF this, of ?b api t "buffer_of BufferBytes msg"] h
        show ?thesis by (simp add: keeps_def)
      qed
      moreover have "x \<in> write_codes \<longrightarrow> r = Ret [reply] \<longrightarrow> hd reply = STATUS_ERROR" for reply
        using handle_operation_unacknowledged [OF b, of x api t "buffer_of BufferBytes msg"] h r
        by (cases r1) (auto simp: unacknowledged_def)
      ultimately show ?thesis using m 3 by simp
    qed
  qed (use run b m in \<open>auto simp: on_message_cases [OF t0] Let_def\<close>)
qed

definition sample_stuck :: "(journal, journal) app" where
  "sample_stuck = sample_app\<lparr>rwMutex := \<lparr>writer = False, readers = 1, announced = False\<rparr>,
     ethIteratorsCurrentKeyLock := \<lparr>writer = True, readers = 0, announced = False\<rparr>\<rparr>"

theorem stuck_for_good_witness:
  "stuck (snd (on_message journal_api (encode (WriteReq 0)) sample_stuck))"
proof -
  have "stuck sample_stuck" "executionTablesInfo sample_stuck 0 = Some accounts_table"
    by (simp_all add: sample_stuck_def stuck_def sample_app_def evm_tables_def)
  from stuck_for_good [OF this prod.collapse [symmetric]] show ?thesis by blast
qed

end
