(* ===== verification/Db_System.thy ===== *)
theory Db_System imports Db_Crash Db_Deadlock begin

text \<open>
  The database router as a whole (\<open>StartDBRouter\<close> in \<open>app/db_transport.go\<close>): every accepted
  connection is a goroutine that runs \<open>ethHandleDatabaseConnection\<close> over the one shared
  application. The step relation interleaves the connections at the granularity of a loop
  top and of a message: between the loop top, which replaces the shared cached store, and the
  message it then waits for, any other connection can run. A message is one step: what another
  connection does while a request runs (a writer that announces itself on \<open>rwMutex\<close> between two
  nested \<open>RLock\<close>s of one request) is not a behaviour of this relation; such a wait inside a step
  would show as \<open>Blocked\<close>, as it does for the locks a stuck request leaves.
\<close>

section \<open>The system\<close>

datatype conn_state = AtTop | AtRead | WaitingForever

record ('ms, 'cs) system =
  shared :: "('ms, 'cs) app"
  conns :: "nat \<rightharpoonup> conn_state"
  crashed :: bool
  sent :: "(nat \<times> bytes) list"

datatype event = Accept nat | Top nat | Message nat bytes | Hangup nat

definition EVM :: string where
  "EVM = ''evm''"

text \<open>
  The choice of the client and the first cached store. What is done to the file system around
  them, and the panics of \<open>MkdirAll\<close> and \<open>ListenUnix\<close>, are \<open>Router_Socket.listen_db\<close>, which runs
  this part in its place; when listening panics there is no system to speak of.
\<close>

definition StartDBRouter :: "('ms, 'cs) store_api \<Rightarrow> string \<Rightarrow> ('ms, 'cs) app \<Rightarrow>
    ('ms, 'cs) system outcome" where
  "StartDBRouter api clientType a =
     (if clientType = EVM
      then Ret \<lparr>shared = a\<lparr>executionCacheMultistore := CacheMultiStore api (commitMultiStore a)\<rparr>,
             conns = Map.empty, crashed = False, sent = []\<rparr>
      else Panic)"

inductive system_step :: "('ms, 'cs) store_api \<Rightarrow> ('ms, 'cs) system \<Rightarrow> event \<Rightarrow>
    ('ms, 'cs) system \<Rightarrow> bool" for api where
  accept: "\<not> crashed s \<Longrightarrow> conns s c = None \<Longrightarrow>
    system_step api s (Accept c) (s\<lparr>conns := (conns s)(c \<mapsto> AtTop)\<rparr>)"
| top: "\<not> crashed s \<Longrightarrow> conns s c = Some AtTop \<Longrightarrow>
    system_step api s (Top c)
      (s\<lparr>shared := loop_top api (shared s), conns := (conns s)(c \<mapsto> AtRead)\<rparr>)"
| reply: "\<not> crashed s \<Longrightarrow> conns s c = Some AtRead \<Longrightarrow>
    on_message api msg (shared s) = (Ret replies, a) \<Longrightarrow>
    system_step api s (Message c msg)
      (s\<lparr>shared := a, conns := (conns s)(c \<mapsto> AtTop), sent := sent s @ map (Pair c) replies\<rparr>)"
| hang: "\<not> crashed s \<Longrightarrow> conns s c = Some AtRead \<Longrightarrow>
    on_message api msg (shared s) = (Blocked, a) \<Longrightarrow>
    system_step api s (Message c msg) (s\<lparr>shared := a, conns := (conns s)(c \<mapsto> WaitingForever)\<rparr>)"
| crash: "\<not> crashed s \<Longrightarrow> conns s c = Some AtRead \<Longrightarrow>
    on_message api msg (shared s) = (Panic, a) \<Longrightarrow>
    system_step api s (Message c msg) (s\<lparr>shared := a, crashed := True\<rparr>)"
| hangup: "\<not> crashed s \<Longrightarrow> conns s c = Some AtRead \<Longrightarrow>
    system_step api s (Hangup c) (s\<lparr>conns := (conns s)(c := None)\<rparr>)"

inductive system_run :: "('ms, 'cs) store_api \<Rightarrow> ('ms, 'cs) system \<Rightarrow> event list \<Rightarrow>
    ('ms, 'cs) system \<Rightarrow> bool" for api where
  run_Nil: "system_run api s [] s"
| run_Cons: "system_step api s e s' \<Longrightarrow> system_run api s' es s'' \<Longrightarrow> system_run api s (e # es) s''"

inductive_cases step_Accept: "system_step api s (Accept c) s'"
inductive_cases step_Top: "system_step api s (Top c) s'"
inductive_cases step_Message: "system_step api s (Message c msg) s'"
inductive_cases step_Hangup: "system_step api s (Hangup c) s'"
inductive_simps run_Nil_iff: "system_run api s [] s'"
inductive_simps run_Cons_iff: "system_run api s (e # es) s'"

lemmas step_cases = step_Accept step_Top step_Message step_Hangup

section \<open>The steps as a function\<close>

fun next_state :: "('ms, 'cs) store_api \<Rightarrow> event \<Rightarrow> ('ms, 'cs) system \<Rightarrow> ('ms, 'cs) system option" where
  "next_state api (Accept c) s =
     (if crashed s \<or> conns s c \<noteq> None then None
      else Some (s\<lparr>conns := (conns s)(c \<mapsto> AtTop)\<rparr>))"
| "next_state api (Top c) s =
     (if crashed s \<or> conns s c \<noteq> Some AtTop then None
      else Some (s\<lparr>shared := loop_top api (shared s), conns := (conns s)(c \<mapsto> AtRead)\<rparr>))"
| "next_state api (Message c msg) s =
     (if crashed s \<or> conns s c \<noteq> Some AtRead then None
      else Some (case on_message api msg (shared s) of
          (Ret replies, a) \<Rightarrow> s\<lparr>shared := a, conns := (conns s)(c \<mapsto> AtTop),
             sent := sent s @ map (Pair c) replies\<rparr>
        | (Blocked, a) \<Rightarrow> s\<lparr>shared := a, conns := (conns s)(c \<mapsto> WaitingForever)\<rparr>
        | (Panic, a) \<Rightarrow> s\<lparr>shared := a, crashed := True\<rparr>))"
| "next_state api (Hangup c) s =
     (if crashed s \<or> conns s c \<noteq> Some AtRead then None
      else Some (s\<lparr>conns := (conns s)(c := None)\<rparr>))"

fun after_events :: "('ms, 'cs) store_api \<Rightarrow> event list \<Rightarrow> ('ms, 'cs) system \<Rightarrow>
    ('ms, 'cs) system option" where
  "after_events api [] s = Some s"
| "after_events api (e # es) s =
     (case next_state api e s of None \<Rightarrow> None | Some s' \<Rightarrow> after_events api es s')"

lemma step_iff_next: "system_step api s e s' \<longleftrightarrow> next_state api e s = Some s'"
proof
  assume "system_step api s e s'"
  then show "next_state api e s = Some s'" by cases simp_all
next
  assume n: "next_state api e s = Some s'"
  show "system_step api s e s'"
  proof (cases e)
    case (Message c msg)
    obtain r a where "on_message api msg (shared s) = (r, a)" by fastforce
    then show ?thesis
      using n Message by (cases r) (auto split: if_splits intro: reply hang crash)
  qed (use n in \<open>auto split: if_splits intro: accept top hangup\<close>)
qed

lemma run_iff_after: "system_run api s es s' \<longleftrightarrow> after_events api es s = Some s'"
proof (induction es arbitrary: s)
  case (Cons e es)
  then show ?case by (auto simp: run_Cons_iff step_iff_next split: option.splits)
qed (auto simp: run_Nil_iff)

section \<open>Locks\<close>

text \<open>A request that starts with the locks free and waits forever leaves the process stuck.\<close>

definition free_or_stuck :: "('ms, 'cs) app \<Rightarrow> 'a outcome \<times> ('ms, 'cs) app \<Rightarrow> bool" where
  "free_or_stuck a res \<longleftrightarrow> (locks_free a \<longrightarrow>
     (if fst res = Blocked then stuck (snd res) else locks_free (snd res)))"

lemma free_or_stuck_same [simp]: "free_or_stuck a (Ret x, a)" "free_or_stuck a (Panic, a)"
  by (simp_all add: free_or_stuck_def)

lemma free_or_stuck_mapped [simp]: "free_or_stuck a (apfst (map_outcome g) res) \<longleftrightarrow> free_or_stuck a res"
  by (cases "fst res") (auto simp: free_or_stuck_def)

lemma free_or_stuckI:
  "keeps a res \<Longrightarrow> (locks_free a \<Longrightarrow> fst res = Blocked \<Longrightarrow> stuck (snd res)) \<Longrightarrow> free_or_stuck a res"
  by (auto simp: free_or_stuck_def keeps_def)

text \<open>Only the stepping operations can wait when no lock is held.\<close>

lemma never_blocked:
  assumes "locks_free a"
  shows "fst (Get api t k a) \<noteq> Blocked"
    and "fst (First api t c a) \<noteq> Blocked"
    and "fst (SeekExact api t c k a) \<noteq> Blocked"
    and "fst (Seek api t c k a) \<noteq> Blocked"
    and "fst (Last api t c a) \<noteq> Blocked"
    and "fst (Current api t c a) \<noteq> Blocked"
    and "fst (SeekByKeySubkey api t c k a) \<noteq> Blocked"
    and "fst (Put api t k v a) \<noteq> Blocked"
    and "fst (Delete api t k b a) \<noteq> Blocked"
    and "fst (Write api a) \<noteq> Blocked"
    and "fst (Upsert api t c k v a) \<noteq> Blocked"
    and "fst (Insert api t c k v a) \<noteq> Blocked"
    and "fst (Append api t c k v a) \<noteq> Blocked"
    and "fst (DeleteCurrent api t c a) \<noteq> Blocked"
    and "fst (DeleteCurrentDuplicates api t c a) \<noteq> Blocked"
    and "fst (AppendDup api t c k v a) \<noteq> Blocked"
  using assms
  by (auto simp: Get_def First_def SeekExact_def Seek_def Last_def Current_def SeekByKeySubkey_def Put_def Delete_def Write_def Upsert_def Insert_def Append_def DeleteCurrent_def DeleteCurrentDuplicates_def AppendDup_def
      cache_set_def Let_def lock_simps split: lock_splits)

lemma steps_stuck:
  assumes "locks_free a"
  shows "fst (Next api t c a) = Blocked \<Longrightarrow> stuck (snd (Next api t c a))"
    and "fst (Prev api t c a) = Blocked \<Longrightarrow> stuck (snd (Prev api t c a))"
    and "fst (NextDup api b t c a) = Blocked \<Longrightarrow> stuck (snd (NextDup api b t c a))"
    and "fst (NextNoDup api t c a) = Blocked \<Longrightarrow> stuck (snd (NextNoDup api t c a))"
  using assms
  by (auto simp: Next_def Prev_def NextDup_def NextNoDup_def First_def Last_def stuck_def lock_simps
      split: lock_splits)

lemma Write_free_or_stuck: "free_or_stuck a (Write api a)"
  by (auto simp: free_or_stuck_def Write_free locks_free_def)

lemma operations_free_or_stuck [simp]:
  shows "free_or_stuck a (Get api t k a)" and "free_or_stuck a (First api t c a)"
    and "free_or_stuck a (SeekExact api t c k a)" and "free_or_stuck a (Seek api t c k a)"
    and "free_or_stuck a (Last api t c a)" and "free_or_stuck a (Next api t c a)"
    and "free_or_stuck a (Prev api t c a)" and "free_or_stuck a (Current api t c a)"
    and "free_or_stuck a (NextDup api b t c a)" and "free_or_stuck a (NextNoDup api t c a)"
    and "free_or_stuck a (SeekByKeySubkey api t c k a)"
    and "free_or_stuck a (Put api t k v a)" and "free_or_stuck a (Delete api t k b a)"
    and "free_or_stuck a (Upsert api t c k v a)"
    and "free_or_stuck a (Insert api t c k v a)" and "free_or_stuck a (Append api t c k v a)"
    and "free_or_stuck a (DeleteCurrent api t c a)"
    and "free_or_stuck a (DeleteCurrentDuplicates api t c a)"
    and "free_or_stuck a (AppendDup api t c k v a)"
  by (rule free_or_stuckI; simp add: operations_keep never_blocked steps_stuck)+

lemma requests_free_or_stuck:
  "(\<And>c. free_or_stuck a (run1 c a)) \<Longrightarrow> free_or_stuck a (cursor_request run1 data a)"
  "(\<And>c k. free_or_stuck a (run2 c k a)) \<Longrightarrow> free_or_stuck a (cursor_key_request n run2 data a)"
  "(\<And>c k v. free_or_stuck a (run3 c k v a)) \<Longrightarrow>
     free_or_stuck a (cursor_entry_request run3 t data a)"
  by (simp_all add: cursor_request_def cursor_key_request_def cursor_entry_request_def
      split: option.split outcome.split sum.split prod.split)

lemma handlers_free_or_stuck:
  shows "free_or_stuck a (handle_GET api t data a)"
    and "free_or_stuck a (handle_PUT api t data a)"
    and "free_or_stuck a (handle_DELETE api t data a)"
    and "free_or_stuck a (handle_WRITE api a)"
    and "free_or_stuck a (handle_FIRST api t data a)"
    and "free_or_stuck a (handle_SEEK_EXACT api t data a)"
    and "free_or_stuck a (handle_SEEK api t data a)"
    and "free_or_stuck a (handle_NEXT api t data a)"
    and "free_or_stuck a (handle_PREV api t data a)"
    and "free_or_stuck a (handle_LAST api t data a)"
    and "free_or_stuck a (handle_CURRENT api t data a)"
    and "free_or_stuck a (handle_UPSERT api t data a)"
    and "free_or_stuck a (handle_INSERT api t data a)"
    and "free_or_stuck a (handle_APPEND api t data a)"
    and "free_or_stuck a (handle_DELETE_CURRENT api t data a)"
    and "free_or_stuck a (handle_NEXT_DUP api t data a)"
    and "free_or_stuck a (handle_NEXT_NO_DUP api t data a)"
    and "free_or_stuck a (handle_SEEK_BY_KEY_SUBKEY api t data a)"
    and "free_or_stuck a (handle_DELETE_CURRENT_DUPLICATES api t data a)"
    and "free_or_stuck a (handle_APPEND_DUP api t data a)"
  by (simp_all add: handler_defs handle_WRITE_def Let_def requests_free_or_stuck Write_free_or_stuck
      split: option.split outcome.split sum.split prod.split)

lemma handle_operation_free_or_stuck: "free_or_stuck a (handle_operation api x t data a)"
  by (simp add: handle_operation_def handlers_free_or_stuck)

lemma on_message_free_or_stuck:
  assumes "executionTablesInfo a 0 = Some table0"
  shows "free_or_stuck a (on_message api msg a)"
proof -
  have marked: "free_or_stuck (set_marker api table0 a) res \<Longrightarrow> free_or_stuck a res" for res :: "'x outcome \<times> _"
    by (simp add: free_or_stuck_def)
  show ?thesis
    by (rule marked) (simp add: on_message_cases [OF assms] Let_def handle_operation_free_or_stuck
        split: list.split option.split)
qed

lemma on_message_still_stuck:
  assumes "executionTablesInfo a 0 = Some table0" and "stuck a"
  shows "stuck (snd (on_message api msg a))"
proof -
  have "stuck (set_marker api table0 a)" using assms(2) by (simp add: stuck_def)
  then have "stuck (snd (handle_operation api x t data (set_marker api table0 a)))" for x t data
    using handle_operation_stuck [of "set_marker api table0 a" api x t data]
    by (simp add: still_stuck_def)
  then show ?thesis
    using \<open>stuck (set_marker api table0 a)\<close>
    by (simp add: on_message_cases [OF assms(1)] Let_def split: list.split option.split)
qed

lemma on_message_tables:
  assumes "executionTablesInfo a 0 = Some table0"
  shows "executionTablesInfo (snd (on_message api msg a)) = executionTablesInfo a"
proof -
  have "executionTablesInfo (snd (handle_operation api x t data b)) = executionTablesInfo b" for x t data b
  proof (cases "x = OP_WRITE")
    case True
    then show ?thesis by (simp add: handle_operation_def handle_WRITE_def Write_tables)
  next
    case False
    from handle_operation_keeps [OF this, of b api t data] show ?thesis by (simp add: keeps_def)
  qed
  then show ?thesis by (simp add: on_message_cases [OF assms] Let_def split: list.split option.split)
qed

section \<open>The invariant of the system\<close>

definition waiting :: "(nat \<rightharpoonup> conn_state) \<Rightarrow> bool" where
  "waiting cs \<longleftrightarrow> (\<exists>c. cs c = Some WaitingForever)"

definition system_inv :: "(byte \<rightharpoonup> tableInfo) \<Rightarrow> ('ms, 'cs) system \<Rightarrow> bool" where
  "system_inv tables s \<longleftrightarrow>
     executionTablesInfo (shared s) = tables \<and>
     (if waiting (conns s) then stuck (shared s) else crashed s \<or> locks_free (shared s))"

lemma stuck_not_free: "stuck a \<Longrightarrow> \<not> locks_free a"
  by (auto simp: stuck_def locks_free_def unlocked_def)

lemma stuck_loop_top [simp]: "stuck (loop_top api a) = stuck a"
  by (simp add: stuck_def loop_top_def)

lemma waiting_update:
  "cs c \<noteq> Some WaitingForever \<Longrightarrow> st \<noteq> Some WaitingForever \<Longrightarrow> waiting (cs(c := st)) = waiting cs"
  unfolding waiting_def by (metis fun_upd_apply)

lemma waiting_now: "waiting (cs(c \<mapsto> WaitingForever))"
  by (auto simp: waiting_def)

lemma system_inv_step:
  assumes step: "system_step api s e s'" and inv: "system_inv tables s" and t0: "tables 0 = Some table0"
  shows "system_inv tables s'"
proof -
  have t: "executionTablesInfo (shared s) 0 = Some table0" using inv t0 by (simp add: system_inv_def)
  note message = on_message_tables [OF t, of api] on_message_free_or_stuck [OF t, of api]
    on_message_still_stuck [OF t, of api]
  from step show ?thesis
  proof cases
    case (accept c)
    then show ?thesis using inv
      by (auto simp: system_inv_def waiting_update simp del: fun_upd_apply split: if_splits)
  next
    case (top c)
    then show ?thesis using inv
      by (auto simp: system_inv_def waiting_update simp del: fun_upd_apply split: if_splits)
  next
    case (reply c msg replies a)
    then show ?thesis
      using inv message [of msg]
      by (auto simp: system_inv_def free_or_stuck_def waiting_update simp del: fun_upd_apply
          split: if_splits)
  next
    case (hang c msg a)
    then show ?thesis
      using inv message [of msg]
      by (auto simp: system_inv_def free_or_stuck_def waiting_now simp del: fun_upd_apply
          split: if_splits)
  next
    case (crash c msg a)
    then show ?thesis
      using inv message [of msg] by (auto simp: system_inv_def split: if_splits)
  next
    case (hangup c)
    then show ?thesis using inv
      by (auto simp: system_inv_def waiting_update simp del: fun_upd_apply split: if_splits)
  qed
qed

lemma system_inv_run:
  "system_run api s es s' \<Longrightarrow> tables 0 = Some table0 \<Longrightarrow> system_inv tables s \<Longrightarrow> system_inv tables s'"
  by (induction rule: system_run.induct) (auto intro: system_inv_step)

lemma system_inv_start:
  "StartDBRouter api EVM a = Ret s \<Longrightarrow> locks_free a \<Longrightarrow> system_inv (executionTablesInfo a) s"
  by (auto simp: StartDBRouter_def system_inv_def waiting_def locks_free_updates)

section \<open>PUT and WRITE as messages\<close>

definition put_state :: "('ms, 'cs) store_api \<Rightarrow> tableInfo \<Rightarrow> tableInfo \<Rightarrow> bytes \<Rightarrow> bytes \<Rightarrow>
    ('ms, 'cs) app \<Rightarrow> ('ms, 'cs) app" where
  "put_state api table0 table k v a = (set_marker api table0 a)\<lparr>executionCacheMultistore :=
     cs_Set api (executionCacheMultistore a) (StoreKey table) k v\<rparr>"

definition write_state :: "('ms, 'cs) store_api \<Rightarrow> tableInfo \<Rightarrow> ('ms, 'cs) app \<Rightarrow> ('ms, 'cs) app" where
  "write_state api table0 a = (set_marker api table0 a)
     \<lparr>commitMultiStore := fst (cs_Write api (cached_store (set_marker api table0 a))),
      executionCacheMultistore := snd (cs_Write api (cached_store (set_marker api table0 a)))\<rparr>"

lemma put_message:
  assumes "locks_free a" and "executionTablesInfo a 0 = Some table0"
    and "executionTablesInfo a t = Some table"
    and "well_formed table (PutReq t k v)" and "length (encode (PutReq t k v)) \<le> BufferBytes"
  shows "on_message api (encode (PutReq t k v)) a =
    (Ret [[STATUS_SUCCESS]], put_state api table0 table k v a)"
  using on_message_decodes [of a table0 "PutReq t k v" table api] assms
    Put_known [of "set_marker api table0 a" t table api k v]
  by (simp add: put_state_def status_reply_def)

lemma write_message:
  assumes "locks_free a" and "executionTablesInfo a 0 = Some table0"
    and "executionTablesInfo a t = Some table"
  shows "on_message api (encode (WriteReq t)) a = (Ret [[STATUS_SUCCESS]], write_state api table0 a)"
  using on_message_decodes [of a table0 "WriteReq t" table api] assms
    Write_free [of "set_marker api table0 a" api]
  by (simp add: write_state_def)

section \<open>Properties\<close>

text \<open>
  C2: what one connection alone can do to the database: nothing. Whatever a client sends on its
  connection, well-formed or not, PUTs and WRITEs included, the committed store is at the end as
  it was, except for the marker row that the first read of data put in the first table: the
  pending writes are thrown away at the top of the loop, before the WRITE is read.
\<close>

theorem one_connection_commits_nothing:
  assumes store: "multistore api ms_rows cs_rows"
    and t0: "executionTablesInfo a 0 = Some table0"
    and run: "ethHandleDatabaseConnection api reads a = (replies, e, a')"
    and k: "n \<noteq> StoreKey table0 \<or> k \<noteq> [1]"
  shows "map_of (ms_rows (commitMultiStore a') n) k = map_of (ms_rows (commitMultiStore a) n) k"
proof -
  have "ordered (ms_rows (commitMultiStore a) n)"
    using multistore.axioms(1) [OF store] by (simp add: kv_reader.rows_ordered)
  then have "map_of (mark table0 n (ms_rows (commitMultiStore a) n)) k =
      map_of (ms_rows (commitMultiStore a) n) k"
    using k by (auto simp: mark_def map_of_put_entry)
  then show ?thesis
    using multistore.connection_commits_nothing [OF store t0 run, of n]
    by (simp split: list.splits read_result.splits)
qed

theorem one_connection_commits_nothing_witness:
  "\<exists>replies e a'. ethHandleDatabaseConnection journal_api
      [Read (encode (PutReq 0 (acct 9) [90])), Read (encode (WriteReq 0))] sample_app = (replies, e, a') \<and>
    map_of (replay (commitMultiStore a') HashedAccountsStoreName) (acct 9) = None"
proof -
  obtain replies e a' where run: "ethHandleDatabaseConnection journal_api
      [Read (encode (PutReq 0 (acct 9) [90])), Read (encode (WriteReq 0))] sample_app = (replies, e, a')"
    by (metis prod.collapse)
  from one_connection_commits_nothing [OF journal.multistore_axioms _ run, of accounts_table
      HashedAccountsStoreName "acct 9"] run
  show ?thesis by (simp add: sample_simps)
qed

text \<open>
  C13: what two connections can do. A PUT on one connection is committed by a WRITE on another
  when the WRITE is handled before the first connection is back at the top of its loop; when
  that loop top comes first, the same PUT and WRITE, both acknowledged, commit nothing but the
  marker row. Which of the two happens is up to the scheduler.
\<close>

theorem write_race:
  assumes store: "multistore api ms_rows cs_rows"
    and a: "locks_free a" "executionTablesInfo a 0 = Some table0" "executionTablesInfo a t = Some table"
    and put: "well_formed table (PutReq t k v)" "length (encode (PutReq t k v)) \<le> BufferBytes"
    and s: "StartDBRouter api EVM a = Ret s"
    and start: "start = [Accept 1, Top 1, Accept 2, Top 2]"
    and m1: "m1 = Message 1 (encode (PutReq t k v))" and m2: "m2 = Message 2 (encode (WriteReq t))"
  shows "(\<exists>s'. system_run api s (start @ [m1, m2]) s' \<and>
      sent s' = [(1, [STATUS_SUCCESS]), (2, [STATUS_SUCCESS])] \<and>
      map_of (ms_rows (commitMultiStore (shared s')) (StoreKey table)) k = Some v) \<and>
    (\<exists>s'. system_run api s (start @ [m1, Top 1, m2]) s' \<and>
      sent s' = [(1, [STATUS_SUCCESS]), (2, [STATUS_SUCCESS])] \<and>
      (\<forall>n. ms_rows (commitMultiStore (shared s')) n = mark table0 n (ms_rows (commitMultiStore a) n)))"
proof -
  let ?n = "StoreKey table"
  obtain b where b: "b = loop_top api a" by simp
  have rb: "loop_top api (loop_top api (a\<lparr>executionCacheMultistore := x\<rparr>)) = b" for x
    by (simp add: b loop_top_def)
  have fb: "locks_free b" "executionTablesInfo b 0 = Some table0" "executionTablesInfo b t = Some table"
    using a by (simp_all add: b)
  obtain d where d: "d = put_state api table0 table k v b" by simp
  have put_msg: "on_message api (encode (PutReq t k v)) b = (Ret [[STATUS_SUCCESS]], d)"
    using put_message [OF fb put] by (simp add: d)
  have fd: "locks_free d" "executionTablesInfo d 0 = Some table0" "executionTablesInfo d t = Some table"
    "locks_free (loop_top api d)" "executionTablesInfo (loop_top api d) 0 = Some table0"
    "executionTablesInfo (loop_top api d) t = Some table"
    using fb by (simp_all add: d put_state_def locks_free_updates)
  note writes = write_message [OF fd(1-3), of api] write_message [OF fd(4-6), of api]
  note cs = multistore.cache_set_rows [OF store] multistore.fresh_rows [OF store]
    multistore.write_rows [OF store] multistore.set_rows [OF store]
  have ord: "ordered (ms_rows m n)" for m n
    using multistore.axioms(1) [OF store] by (simp add: kv_reader.rows_ordered)
  have "map_of (ms_rows (commitMultiStore (write_state api table0 d)) ?n) k = Some v"
    using ord by (simp add: write_state_def d put_state_def b cs set_marker_def map_of_put_entry
        ordered_put_entry)
  moreover have "ms_rows (commitMultiStore (write_state api table0 (loop_top api d))) n =
      mark table0 n (ms_rows (commitMultiStore a) n)" for n
    by (simp add: write_state_def d put_state_def b cs set_marker_def mark_def)
  moreover have s_eq: "s = \<lparr>shared = a\<lparr>executionCacheMultistore := CacheMultiStore api (commitMultiStore a)\<rparr>,
      conns = Map.empty, crashed = False, sent = []\<rparr>"
    using s by (simp add: StartDBRouter_def)
  ultimately show ?thesis
    by (simp add: start m1 m2 run_iff_after s_eq rb put_msg writes del: encode.simps)
qed

theorem write_race_witness:
  "\<exists>s s'. StartDBRouter journal_api EVM sample_app = Ret s \<and>
    system_run journal_api s [Accept 1, Top 1, Accept 2, Top 2,
      Message 1 (encode (PutReq 0 (acct 9) [90])), Message 2 (encode (WriteReq 0))] s' \<and>
    map_of (replay (commitMultiStore (shared s')) HashedAccountsStoreName) (acct 9) = Some [90]"
proof -
  obtain s where s: "StartDBRouter journal_api EVM sample_app = Ret s"
    by (simp add: StartDBRouter_def)
  have "well_formed accounts_table (PutReq 0 (acct 9) [90])"
    "length (encode (PutReq 0 (acct 9) [90])) \<le> BufferBytes"
    by (simp_all add: sample_simps row_key_bytes_def)
  from write_race [OF journal.multistore_axioms _ _ _ this s refl refl refl, of accounts_table]
  show ?thesis using s by (auto simp: sample_simps)
qed

text \<open>
  C6: locks across all interleavings. From the start of the router, after any sequence of
  accepted connections, loop tops, messages and hangups, the catalogue is the one it started
  with, and either no connection waits and no lock is held (or the process has crashed), or some
  connection waits forever and the process is stuck: there is no state in between, and a lock is
  never leaked by an error path.
\<close>

theorem free_or_stuck_always:
  assumes start: "StartDBRouter api EVM a = Ret s" "locks_free a"
    and t0: "executionTablesInfo a 0 = Some table0"
    and run: "system_run api s es s'"
  shows "executionTablesInfo (shared s') = executionTablesInfo a \<and>
    (if waiting (conns s') then stuck (shared s') else crashed s' \<or> locks_free (shared s'))"
  using system_inv_run [OF run t0 system_inv_start [OF start]] by (simp add: system_inv_def)

theorem free_or_stuck_always_witness:
  "\<exists>s s'. StartDBRouter journal_api EVM sample_app = Ret s \<and>
    system_run journal_api s [Accept 1, Top 1, Message 1 (encode (NextReq 0 (cursor_id 1)))] s' \<and>
    stuck (shared s')"
proof -
  obtain s where s: "StartDBRouter journal_api EVM sample_app = Ret s"
    by (simp add: StartDBRouter_def)
  let ?a = "loop_top journal_api (shared s)"
  have free: "locks_free sample_app" and t0: "executionTablesInfo sample_app 0 = Some accounts_table"
    by (simp_all add: sample_simps)
  have a: "ethIteratorsCurrentKey ?a (cursor_id 1) = None" "locks_free ?a"
    "executionTablesInfo ?a 0 = Some accounts_table"
    using s by (auto simp: StartDBRouter_def sample_simps)
  have "put_entry k v xs \<noteq> []" for k v xs by (cases xs) (auto split: if_splits)
  then obtain b where b: "on_message journal_api (encode (NextReq 0 (cursor_id 1))) ?a = (Blocked, b)"
    using on_message_decodes [of ?a accounts_table "NextReq 0 (cursor_id 1)" accounts_table journal_api]
      Next_unset(2) [of "set_marker journal_api accounts_table ?a" 0 accounts_table "cursor_id 1" journal_api] a
    by (auto simp: sample_simps journal.committed.iterator_all journal.set_marker_rows mark_def)
  obtain s' where s': "system_run journal_api s
      [Accept 1, Top 1, Message 1 (encode (NextReq 0 (cursor_id 1)))] s'" "waiting (conns s')"
    using s b by (auto simp: StartDBRouter_def run_iff_after waiting_def simp del: encode.simps)
  from free_or_stuck_always [OF s free t0 s'(1)] s s' show ?thesis by auto
qed

end
