(* ===== verification/Db_Keys.thy ===== *)
theory Db_Keys imports Db_System begin

text \<open>
  The keys of the tables, over every behaviour of the process. The router slices stored keys at
  the table's \<open>KeyBytes\<close> without a check, so what it may meet in a store or under a cursor
  decides whether it panics. The invariant: every row, committed or pending, has a key of its
  table's length, except for the router's own marker row; and so has every key under a cursor.
\<close>

section \<open>The invariant\<close>

text \<open>Two tables that share a store have keys of one length; the catalogue of the EVM does.\<close>

definition stores_agree :: "(byte \<rightharpoonup> tableInfo) \<Rightarrow> bool" where
  "stores_agree tables \<longleftrightarrow> (\<forall>s t table1 table2. tables s = Some table1 \<longrightarrow> tables t = Some table2 \<longrightarrow>
     StoreKey table1 = StoreKey table2 \<longrightarrow> row_key_bytes table1 = row_key_bytes table2)"

definition rows_fit :: "(byte \<rightharpoonup> tableInfo) \<Rightarrow> (string \<Rightarrow> entries) \<Rightarrow> bool" where
  "rows_fit tables rows \<longleftrightarrow> (\<forall>t table k. tables t = Some table \<longrightarrow> k \<in> set (keys_of (rows (StoreKey table))) \<longrightarrow>
     length k = row_key_bytes table \<or> (k = [1] \<and> map_option StoreKey (tables 0) = Some (StoreKey table)))"

definition cursor_fits :: "(byte \<rightharpoonup> tableInfo) \<Rightarrow> bytes \<Rightarrow> bool" where
  "cursor_fits tables k \<longleftrightarrow> k = [1] \<or> (\<exists>t table. tables t = Some table \<and> length k = row_key_bytes table)"

text \<open>
  A cached store fits if it shows fitting rows over every committed store that fits: the
  committed store changes under it.
\<close>

definition keys_fit :: "('ms \<Rightarrow> string \<Rightarrow> entries) \<Rightarrow> ('ms \<times> 'cs \<Rightarrow> string \<Rightarrow> entries) \<Rightarrow>
    (byte \<rightharpoonup> tableInfo) \<Rightarrow> ('ms, 'cs) app \<Rightarrow> bool" where
  "keys_fit ms_rows cs_rows tables a \<longleftrightarrow>
     executionTablesInfo a = tables \<and>
     rows_fit tables (ms_rows (commitMultiStore a)) \<and>
     (\<forall>m. rows_fit tables (ms_rows m) \<longrightarrow>
        rows_fit tables (\<lambda>n. cs_rows (m, executionCacheMultistore a) n)) \<and>
     (\<forall>c k. ethIteratorsCurrentKey a c = Some k \<longrightarrow> cursor_fits tables k)"

lemma keys_fit_locks [simp]:
  "keys_fit mr cr tables (a\<lparr>rwMutex := l\<rparr>) = keys_fit mr cr tables a"
  "keys_fit mr cr tables (a\<lparr>ethIteratorsCurrentKeyLock := l\<rparr>) = keys_fit mr cr tables a"
  "keys_fit mr cr tables (rwMutex_update f a) = keys_fit mr cr tables a"
  "keys_fit mr cr tables (ethIteratorsCurrentKeyLock_update f a) = keys_fit mr cr tables a"
  by (simp_all add: keys_fit_def)

text \<open>Operations that keep it, and the idiom of the locks.\<close>

definition fitting :: "('ms \<Rightarrow> string \<Rightarrow> entries) \<Rightarrow> ('ms \<times> 'cs \<Rightarrow> string \<Rightarrow> entries) \<Rightarrow>
    (byte \<rightharpoonup> tableInfo) \<Rightarrow> ('ms, 'cs, 'a) op \<Rightarrow> bool" where
  "fitting mr cr tables run \<longleftrightarrow> (\<forall>a. keys_fit mr cr tables a \<longrightarrow> keys_fit mr cr tables (snd (run a)))"

lemma fittingI [intro]: "(\<And>a. keys_fit mr cr tables a \<Longrightarrow> keys_fit mr cr tables (snd (run a))) \<Longrightarrow> fitting mr cr tables run"
  by (simp add: fitting_def)

lemma fittingD: "fitting mr cr tables run \<Longrightarrow> keys_fit mr cr tables a \<Longrightarrow> keys_fit mr cr tables (snd (run a))"
  by (simp add: fitting_def)

lemma fitting_locked [intro]:
  assumes "fitting mr cr tables run"
  shows "fitting mr cr tables (rw_RLocked run)" "fitting mr cr tables (rw_Locked run)"
    and "fitting mr cr tables (cur_RLocked run)" "fitting mr cr tables (cur_Locked run)"
proof -
  have "keys_fit mr cr tables (snd (scoped acquire release get upd run a))"
    if "keys_fit mr cr tables a" and "\<And>f b. keys_fit mr cr tables (upd f b) = keys_fit mr cr tables b"
    for acquire release get upd a
    using fittingD [OF assms, of "upd (\<lambda>_. l) a" for l] that
    by (auto simp: scoped_def split: sum.split prod.split outcome.split) (metis snd_conv)+
  then show "fitting mr cr tables (rw_RLocked run)" "fitting mr cr tables (rw_Locked run)"
    "fitting mr cr tables (cur_RLocked run)" "fitting mr cr tables (cur_Locked run)"
    by (auto simp: rw_RLocked_def rw_Locked_def cur_RLocked_def cur_Locked_def)
qed

lemma fitting_mapped [intro]: "fitting mr cr tables run \<Longrightarrow> fitting mr cr tables (\<lambda>a. apfst f (run a))"
  by (auto simp: fitting_def)

lemma fitting_const [intro]: "fitting mr cr tables (\<lambda>a. (r, a))"
  by auto

lemma fitting_table:
  assumes "\<And>table a. tables t = Some table \<Longrightarrow> keys_fit mr cr tables a \<Longrightarrow>
    keys_fit mr cr tables (snd (body table a))"
  shows "fitting mr cr tables (\<lambda>a. case getTable a t of Inl err \<Rightarrow> (Ret (Inl err), a) | Inr table \<Rightarrow> body table a)"
  using assms by (auto simp: getTable_def keys_fit_def split: option.split)

lemma cursor_locked_fits [intro]:
  "keys_fit mr cr tables a \<Longrightarrow> (\<And>a. keys_fit mr cr tables a \<Longrightarrow> keys_fit mr cr tables (snd (run a))) \<Longrightarrow>
     keys_fit mr cr tables (snd (cur_Locked run a))"
  "keys_fit mr cr tables a \<Longrightarrow> (\<And>a. keys_fit mr cr tables a \<Longrightarrow> keys_fit mr cr tables (snd (run a))) \<Longrightarrow>
     keys_fit mr cr tables (snd (cur_RLocked run a))"
  by (simp_all add: fittingD fitting_locked fittingI)

text \<open>A key a request may store in a table.\<close>

definition key_for :: "(byte \<rightharpoonup> tableInfo) \<Rightarrow> byte \<Rightarrow> bytes \<Rightarrow> bool" where
  "key_for tables t k \<longleftrightarrow> (\<forall>table. tables t = Some table \<longrightarrow> length k = row_key_bytes table)"

section \<open>Cursors and rows\<close>

lemma set_cursor_fits [intro]:
  "keys_fit mr cr tables a \<Longrightarrow> cursor_fits tables k \<Longrightarrow> keys_fit mr cr tables (set_cursor c k a)"
  "keys_fit mr cr tables a \<Longrightarrow> keys_fit mr cr tables (unset_cursor c a)"
  "keys_fit mr cr tables (a\<lparr>executionCacheMultistore := x\<rparr>) \<Longrightarrow> cursor_fits tables k \<Longrightarrow> keys_fit mr cr tables
     (a\<lparr>executionCacheMultistore := x, ethIteratorsCurrentKey := (ethIteratorsCurrentKey a)(c \<mapsto> k)\<rparr>)"
  "keys_fit mr cr tables (a\<lparr>executionCacheMultistore := x\<rparr>) \<Longrightarrow> keys_fit mr cr tables
     (a\<lparr>executionCacheMultistore := x, ethIteratorsCurrentKey := (ethIteratorsCurrentKey a)(c := None)\<rparr>)"
  by (auto simp: keys_fit_def split: if_splits)

lemma cursor_fitsI [intro]:
  "tables t = Some table \<Longrightarrow> length k = row_key_bytes table \<Longrightarrow> cursor_fits tables k"
  by (auto simp: cursor_fits_def)

lemma row_fits: "rows_fit tables rows \<Longrightarrow> tables t = Some table \<Longrightarrow> (k, v) \<in> set (rows (StoreKey table)) \<Longrightarrow>
    cursor_fits tables k"
  by (force simp: rows_fit_def cursor_fits_def)

lemma keys_of_range: "set (range_entries lo hi xs) \<subseteq> set xs"
  by (auto simp: range_entries_def)

lemma put_key_cases:
  "x \<in> set (keys_of (if b then put_entry k v xs else xs)) \<Longrightarrow> b \<and> x = k \<or> x \<in> set (keys_of xs)"
  by (cases b) (simp_all add: set_keys_put_entry)

lemma del_key_cases: "x \<in> set (keys_of (if b then del_entry k xs else xs)) \<Longrightarrow> x \<in> set (keys_of xs)"
  by (cases b) (auto simp: del_entry_def)

lemma rows_fit_put:
  assumes "rows_fit tables rows" and "stores_agree tables" and "tables t = Some table"
    and "length k = row_key_bytes table"
  shows "rows_fit tables (\<lambda>n. if n = StoreKey table then put_entry k v (rows n) else rows n)"
  unfolding rows_fit_def
proof (intro allI impI)
  fix s table' x
  assume s: "tables s = Some table'"
    and x: "x \<in> set (keys_of (if StoreKey table' = StoreKey table then put_entry k v (rows (StoreKey table'))
      else rows (StoreKey table')))"
  from x have "StoreKey table' = StoreKey table \<and> x = k \<or> x \<in> set (keys_of (rows (StoreKey table')))"
    by (rule put_key_cases)
  moreover have "row_key_bytes table' = row_key_bytes table" if "StoreKey table' = StoreKey table"
    using assms(2,3) s that unfolding stores_agree_def by blast
  ultimately show "length x = row_key_bytes table' \<or>
      x = [1] \<and> map_option StoreKey (tables 0) = Some (StoreKey table')"
    using assms(1,4) s unfolding rows_fit_def by metis
qed

lemma rows_fit_del:
  "rows_fit tables rows \<Longrightarrow> rows_fit tables (\<lambda>n. if n = name then del_entry k (rows n) else rows n)"
  unfolding rows_fit_def
proof (intro allI impI)
  fix t table x
  assume fit: "\<forall>t table k. tables t = Some table \<longrightarrow> k \<in> set (keys_of (rows (StoreKey table))) \<longrightarrow>
      length k = row_key_bytes table \<or> k = [1] \<and> map_option StoreKey (tables 0) = Some (StoreKey table)"
    and t: "tables t = Some table"
    and x: "x \<in> set (keys_of (if StoreKey table = name then del_entry k (rows (StoreKey table))
      else rows (StoreKey table)))"
  have "x \<in> set (keys_of (rows (StoreKey table)))"
    using x by (rule del_key_cases)
  with fit t show "length x = row_key_bytes table \<or>
      x = [1] \<and> map_option StoreKey (tables 0) = Some (StoreKey table)" by blast
qed

context multistore
begin

abbreviation fits where "fits \<equiv> keys_fit ms_rows cs_rows"

lemma iterated_fits:
  assumes a: "fits tables a" and t: "tables t = Some table"
  shows "(k, v) \<in> set (ms_Iterator api (commitMultiStore a) (StoreKey table) lo hi) \<Longrightarrow> cursor_fits tables k"
    and "(k, v) \<in> set (ms_ReverseIterator api (commitMultiStore a) (StoreKey table) lo hi) \<Longrightarrow> cursor_fits tables k"
    and "(k, v) \<in> set (cs_Iterator api (commitMultiStore a, executionCacheMultistore a) (StoreKey table) lo hi) \<Longrightarrow>
      cursor_fits tables k"
    and "(k, v) \<in> set (cs_ReverseIterator api (commitMultiStore a, executionCacheMultistore a) (StoreKey table) lo hi) \<Longrightarrow>
      cursor_fits tables k"
proof -
  have rows: "rows_fit tables (ms_rows (commitMultiStore a))"
    "rows_fit tables (\<lambda>n. cs_rows (commitMultiStore a, executionCacheMultistore a) n)"
    using a by (simp_all add: keys_fit_def)
  have fit: "cursor_fits tables k" if "(k, v) \<in> set (range_entries lo hi (f (StoreKey table)))" "rows_fit tables f" for f
    using that row_fits [OF that(2) t] keys_of_range by blast
  show "(k, v) \<in> set (ms_Iterator api (commitMultiStore a) (StoreKey table) lo hi) \<Longrightarrow> cursor_fits tables k"
    and "(k, v) \<in> set (ms_ReverseIterator api (commitMultiStore a) (StoreKey table) lo hi) \<Longrightarrow> cursor_fits tables k"
    and "(k, v) \<in> set (cs_Iterator api (commitMultiStore a, executionCacheMultistore a) (StoreKey table) lo hi) \<Longrightarrow>
      cursor_fits tables k"
    and "(k, v) \<in> set (cs_ReverseIterator api (commitMultiStore a, executionCacheMultistore a) (StoreKey table) lo hi) \<Longrightarrow>
      cursor_fits tables k"
    using fit [OF _ rows(1)] fit [OF _ rows(2)]
    by (simp_all add: committed.iterator_rows committed.reverse_rows cached.iterator_rows cached.reverse_rows)
qed

lemma cache_set_fits [intro]:
  assumes "fits tables a" and "stores_agree tables" and "tables t = Some table" and "length k = row_key_bytes table"
  shows "fits tables (cache_set api (StoreKey table) k v a)"
    and "fits tables (a\<lparr>executionCacheMultistore := cs_Set api (executionCacheMultistore a) (StoreKey table) k v\<rparr>)"
  using assms(1) rows_fit_put [OF _ assms(2-4)]
  by (simp_all add: cache_set_def keys_fit_def cache_set_rows)

lemma cache_delete_fits [intro]:
  assumes "fits tables a"
  shows "fits tables (a\<lparr>executionCacheMultistore := cs_Delete api (executionCacheMultistore a) name k\<rparr>)"
  using assms rows_fit_del by (simp add: keys_fit_def cache_delete_rows)

lemma delete_each_fits [intro]:
  assumes "fits tables a"
  shows "fits tables (a\<lparr>executionCacheMultistore := delete_each api name it (executionCacheMultistore a)\<rparr>)"
  using assms
proof (induction it arbitrary: a)
  case Nil
  then show ?case by simp
next
  case (Cons x it)
  obtain k v where x: "x = (k, v)" by fastforce
  from Cons.IH [OF cache_delete_fits [OF Cons.prems, of name k]] show ?case by (simp add: x)
qed

text \<open>The first and the second row an iterator yields.\<close>

lemma yielded_fits:
  "ms_Iterator api (commitMultiStore a) (StoreKey table) lo hi = (k, v) # it \<Longrightarrow>
     fits tables a \<Longrightarrow> tables t = Some table \<Longrightarrow> cursor_fits tables k"
  "ms_Iterator api (commitMultiStore a) (StoreKey table) lo hi = x # (k, v) # it \<Longrightarrow>
     fits tables a \<Longrightarrow> tables t = Some table \<Longrightarrow> cursor_fits tables k"
  "ms_ReverseIterator api (commitMultiStore a) (StoreKey table) lo hi = (k, v) # it \<Longrightarrow>
     fits tables a \<Longrightarrow> tables t = Some table \<Longrightarrow> cursor_fits tables k"
  "cs_Iterator api (commitMultiStore a, executionCacheMultistore a) (StoreKey table) lo hi = (k, v) # it \<Longrightarrow>
     fits tables a \<Longrightarrow> tables t = Some table \<Longrightarrow> cursor_fits tables k"
  "cs_Iterator api (commitMultiStore a, executionCacheMultistore a) (StoreKey table) lo hi = x # (k, v) # it \<Longrightarrow>
     fits tables a \<Longrightarrow> tables t = Some table \<Longrightarrow> cursor_fits tables k"
  using iterated_fits by (metis list.set_intros)+

section \<open>The operations keep it\<close>

lemma reading_fits:
  shows "fitting ms_rows cs_rows tables (Get api t k)"
    and "fitting ms_rows cs_rows tables (First api t c)"
    and "fitting ms_rows cs_rows tables (SeekExact api t c k)"
    and "fitting ms_rows cs_rows tables (Seek api t c k)"
    and "fitting ms_rows cs_rows tables (Last api t c)"
    and "fitting ms_rows cs_rows tables (Current api t c)"
  unfolding Get_def First_def SeekExact_def Seek_def Last_def Current_def
  by (auto intro!: fitting_locked fitting_table cursor_locked_fits set_cursor_fits
      split: list.split option.split) (blast intro: yielded_fits)+

lemma First_fits: "fits tables a \<Longrightarrow> fits tables (snd (First api t c a))"
  "First api t c a = (r, a') \<Longrightarrow> fits tables a \<Longrightarrow> fits tables a'"
  using fittingD [OF reading_fits(2)] by auto (metis snd_conv)

lemma Last_fits: "fits tables a \<Longrightarrow> fits tables (snd (Last api t c a))"
  by (rule fittingD [OF reading_fits(5)])

lemma Next_fits: "fitting ms_rows cs_rows tables (Next api t c)"
  and Prev_fits: "fitting ms_rows cs_rows tables (Prev api t c)"
  and NextNoDup_fits: "fitting ms_rows cs_rows tables (NextNoDup api t c)"
  unfolding Next_def Prev_def NextNoDup_def
  by (auto intro!: fitting_locked fitting_table cursor_locked_fits set_cursor_fits First_fits(1) Last_fits
      split: list.split option.split) (blast intro: yielded_fits)+

lemma NextDup_fits: "fitting ms_rows cs_rows tables (NextDup api b t c)"
  unfolding NextDup_def
  by (auto intro!: fitting_locked fitting_table cursor_locked_fits set_cursor_fits
      split: list.split option.split sum.split outcome.split prod.split)
    (blast intro: yielded_fits First_fits(2))+

lemma SeekByKeySubkey_fits: "fitting ms_rows cs_rows tables (SeekByKeySubkey api t c k)"
  unfolding SeekByKeySubkey_def Let_def
  by (auto intro!: fitting_locked fitting_table cursor_locked_fits set_cursor_fits
      split: list.split option.split) (blast intro: yielded_fits)+

lemma Delete_fits: "fitting ms_rows cs_rows tables (Delete api t k b)"
  and DeleteCurrent_fits: "fitting ms_rows cs_rows tables (DeleteCurrent api t c)"
  unfolding Delete_def DeleteCurrent_def Let_def
  by (auto intro!: fitting_locked fitting_table cursor_locked_fits set_cursor_fits cache_delete_fits delete_each_fits
      split: list.split option.split) (blast intro: yielded_fits)+

lemma DeleteCurrentDuplicates_fits: "fitting ms_rows cs_rows tables (DeleteCurrentDuplicates api t c)"
proof -
  have next_fits: "cursor_fits tables k"
    if "fits tables a" "tables t = Some table"
      "cs_Iterator api (commitMultiStore a, delete_each api (StoreKey table) it (executionCacheMultistore a))
        (StoreKey table) lo hi = (k, v) # rest" for a table it lo hi k v rest
    using yielded_fits(4) [of "a\<lparr>executionCacheMultistore := delete_each api (StoreKey table) it (executionCacheMultistore a)\<rparr>"]
      delete_each_fits [OF that(1)] that by simp
  show ?thesis
    unfolding DeleteCurrentDuplicates_def Let_def
    by (auto intro!: fitting_locked fitting_table cursor_locked_fits set_cursor_fits delete_each_fits
        split: list.split option.split simp del: delete_each.simps) (blast intro: next_fits)+
qed

lemma Put_fits: "stores_agree tables \<Longrightarrow> key_for tables t k \<Longrightarrow> fitting ms_rows cs_rows tables (Put api t k v)"
  unfolding Put_def
  by (auto intro!: fitting_locked fitting_table cache_set_fits simp: key_for_def)

lemma Upsert_fits:
  assumes "stores_agree tables" and "key_for tables t k"
  shows "fitting ms_rows cs_rows tables (Upsert api t c k v)"
proof
  fix a assume a: "fits tables a"
  have "fits tables a'" if "Put api t k v a = (r, a')" for r a'
    using fittingD [OF Put_fits [OF assms] a, of v] that by simp
  moreover have "cursor_fits tables k" if "Put api t k v a = (Ret (Inr u), a')" for u a'
  proof -
    have "executionTablesInfo a t \<noteq> None"
      using that by (auto simp: Put_def rw_Locked_def scoped_def getTable_def split: option.splits sum.splits)
    then show ?thesis using a assms(2) by (auto simp: keys_fit_def key_for_def)
  qed
  ultimately show "fits tables (snd (Upsert api t c k v a))"
    unfolding Upsert_def
    by (auto intro!: cursor_locked_fits set_cursor_fits split: prod.split outcome.split sum.split)
qed

lemma storing_fits:
  assumes "stores_agree tables" and "key_for tables t k"
  shows "fitting ms_rows cs_rows tables (Insert api t c k v)"
    and "fitting ms_rows cs_rows tables (Append api t c k v)"
    and "fitting ms_rows cs_rows tables (AppendDup api t c k v)"
  using assms unfolding Insert_def Append_def AppendDup_def Let_def
  by (auto intro!: fitting_locked fitting_table cursor_locked_fits set_cursor_fits cache_set_fits
      simp: key_for_def split: list.split option.split) (blast intro: cursor_fitsI)+

end

section \<open>The messages keep it\<close>

lemma put_fields_key: "put_fields table data = Ret (Inr (k, v)) \<Longrightarrow> length k = row_key_bytes table"
  by (auto simp: put_fields_def Let_def row_key_bytes_def dest: slice_range_length split: if_splits option.splits)

lemma cursor_entry_fields_key:
  "cursor_entry_fields table data = Ret (Inr (c, k, v)) \<Longrightarrow> length k = row_key_bytes table"
  by (auto simp: cursor_entry_fields_def Let_def row_key_bytes_def dest: slice_range_length
      split: if_splits option.splits)

lemma key_for_tableAt:
  "keys_fit mr cr tables a \<Longrightarrow> length k = row_key_bytes (tableAt a t) \<Longrightarrow> key_for tables t k"
  by (auto simp: keys_fit_def key_for_def tableAt_def)

text \<open>A request on a state: the fits of its result from those of the operations it may run.\<close>

lemma cursor_requests_fit:
  assumes "keys_fit mr cr tables a"
  shows "(\<And>c. fitting mr cr tables (run1 c)) \<Longrightarrow> keys_fit mr cr tables (snd (cursor_request run1 data a))"
    and "(\<And>c k. fitting mr cr tables (run2 c k)) \<Longrightarrow> keys_fit mr cr tables (snd (cursor_key_request n run2 data a))"
    and "(\<And>c k v. key_for tables t k \<Longrightarrow> fitting mr cr tables (run3 c k v)) \<Longrightarrow>
      keys_fit mr cr tables (snd (cursor_entry_request run3 t data a))"
  using assms
  by (auto simp: cursor_request_def cursor_key_request_def cursor_entry_request_def fitting_def
      split: option.split outcome.split sum.split prod.split
      dest!: cursor_entry_fields_key key_for_tableAt [OF assms])

context multistore
begin

lemma Write_fits: "fitting ms_rows cs_rows tables (Write api)"
proof -
  have "fits tables (a\<lparr>commitMultiStore := m, executionCacheMultistore := c\<rparr>)"
    if a: "fits tables a" and w: "cs_Write api (cached_store a) = (m, c)" for a m c
  proof -
    have m: "ms_rows m = (\<lambda>n. cs_rows (cached_store a) n)"
      using write_rows [of "commitMultiStore a" "executionCacheMultistore a"] w by auto
    have c: "cs_rows (m', c) n = ms_rows m' n" for m' n
      using written_rows [of m' "commitMultiStore a" "executionCacheMultistore a" n] w by simp
    have "rows_fit tables (ms_rows m)" using a unfolding m keys_fit_def by blast
    then show ?thesis using a by (simp add: keys_fit_def c)
  qed
  then show ?thesis
    unfolding Write_def by (auto intro!: fitting_locked split: prod.split)
qed

lemma handle_operation_fits:
  assumes "stores_agree tables" and "fits tables a"
  shows "fits tables (snd (handle_operation api x t data a))"
proof -
  note ops = reading_fits [THEN fitting_mapped] Next_fits [THEN fitting_mapped] Prev_fits [THEN fitting_mapped]
    NextDup_fits [THEN fitting_mapped] NextNoDup_fits [THEN fitting_mapped] SeekByKeySubkey_fits [THEN fitting_mapped]
    Delete_fits [THEN fitting_mapped] DeleteCurrent_fits [THEN fitting_mapped]
    DeleteCurrentDuplicates_fits [THEN fitting_mapped]
    Put_fits [OF assms(1), THEN fitting_mapped] Upsert_fits [OF assms(1), THEN fitting_mapped]
    storing_fits [OF assms(1), THEN fitting_mapped] Write_fits [THEN fitting_mapped]
  have entry: "fits tables (snd (cursor_entry_request run t data a))"
    if "\<And>c k v. key_for tables t k \<Longrightarrow> fitting ms_rows cs_rows tables (run c k v)" for run
    using that by (rule cursor_requests_fit(3) [OF assms(2)])
  have put: "fits tables (snd (handle_PUT api t data a))"
  proof -
    have "fits tables (snd (Put api t k v a))" if "put_fields (tableAt a t) data = Ret (Inr (k, v))" for k v
      using key_for_tableAt [OF assms(2)] put_fields_key [OF that] Put_fits [OF assms(1)] assms(2)
      by (blast intro: fittingD)
    then show ?thesis using assms(2)
      by (auto simp: handle_PUT_def split: outcome.split sum.split prod.split)
  qed
  have dup: "fits tables (snd (handle_APPEND_DUP api t data a))"
  proof -
    have "key_for tables t k" if "slice_range data 10 (10 + KeyBytes (tableAt a t) + SubKeyBytes (tableAt a t)) = Some k"
        "DupSorted (tableAt a t)" for k
      using that by (intro key_for_tableAt [OF assms(2)]) (auto simp: row_key_bytes_def dest: slice_range_length)
    then show ?thesis
      using assms(2) fittingD [OF storing_fits(3) [OF assms(1)]]
      by (auto simp: handle_APPEND_DUP_def Let_def split: option.split)
  qed
  have others: "fits tables (snd (handle_GET api t data a))" "fits tables (snd (handle_DELETE api t data a))"
    "fits tables (snd (handle_WRITE api a))" "fits tables (snd (handle_SEEK_BY_KEY_SUBKEY api t data a))"
    "fits tables (snd (handle_NEXT_DUP api t data a))" "fits tables (snd (handle_NEXT_NO_DUP api t data a))"
    "fits tables (snd (handle_DELETE_CURRENT_DUPLICATES api t data a))"
    using assms(2) fittingD [OF reading_fits(1) assms(2)] fittingD [OF Delete_fits assms(2)]
      fittingD [OF Write_fits assms(2)]
    by (simp_all add: handler_defs handle_WRITE_def Let_def ops cursor_requests_fit(1,2) split: option.split)
  show ?thesis
    by (simp add: handle_operation_def put dup others assms(2))
      (simp add: handler_defs ops entry Upsert_fits [OF assms(1)] storing_fits [OF assms(1)]
        cursor_requests_fit(1,2) [OF assms(2)])
qed

lemma set_marker_fits:
  assumes "fits tables a" and "tables 0 = Some table0"
  shows "fits tables (set_marker api table0 a)"
proof -
  have "rows_fit tables (ms_rows (commitMultiStore (set_marker api table0 a)))"
    unfolding rows_fit_def
  proof (intro allI impI)
    fix t table x
    assume t: "tables t = Some table"
      and x: "x \<in> set (keys_of (ms_rows (commitMultiStore (set_marker api table0 a)) (StoreKey table)))"
    have "StoreKey table = StoreKey table0 \<and> x = [1] \<or> x \<in> set (keys_of (ms_rows (commitMultiStore a) (StoreKey table)))"
      using x unfolding set_marker_rows mark_def by (rule put_key_cases)
    then show "length x = row_key_bytes table \<or> x = [1] \<and> map_option StoreKey (tables 0) = Some (StoreKey table)"
      using assms t unfolding keys_fit_def rows_fit_def by (metis option.simps(9))
  qed
  then show ?thesis using assms(1) by (simp add: keys_fit_def)
qed

lemma loop_top_fits: "fits tables a \<Longrightarrow> fits tables (loop_top api a)"
  by (simp add: keys_fit_def fresh_rows)

lemma on_message_fits:
  assumes "fits tables a" and "stores_agree tables" and "tables 0 = Some table0"
  shows "fits tables (snd (on_message api msg a))"
proof -
  have t0: "executionTablesInfo a 0 = Some table0" using assms(1,3) by (simp add: keys_fit_def)
  note marked = set_marker_fits [OF assms(1,3)]
  show ?thesis
    by (simp add: on_message_cases [OF t0] Let_def marked handle_operation_fits [OF assms(2) marked]
        split: list.split option.split)
qed

section \<open>The process keeps it\<close>

lemma fits_step:
  assumes "system_step api s e s'" and "fits tables (shared s)" and "stores_agree tables" and "tables 0 = Some table0"
  shows "fits tables (shared s')"
  using assms(1)
proof cases
  case (top c)
  then show ?thesis using loop_top_fits [OF assms(2)] by simp
next
  case (reply c msg replies a)
  then show ?thesis using on_message_fits [OF assms(2-4), of msg] by simp
next
  case (hang c msg a)
  then show ?thesis using on_message_fits [OF assms(2-4), of msg] by simp
next
  case (crash c msg a)
  then show ?thesis using on_message_fits [OF assms(2-4), of msg] by simp
qed (use assms(2) in simp_all)

lemma fits_run:
  "system_run api s es s' \<Longrightarrow> fits tables (shared s) \<Longrightarrow> stores_agree tables \<Longrightarrow> tables 0 = Some table0 \<Longrightarrow>
     fits tables (shared s')"
  by (induction rule: system_run.induct) (blast intro: fits_step)+

lemma fits_start:
  assumes "StartDBRouter api EVM a = Ret s" and "executionTablesInfo a = tables"
    and "rows_fit tables (ms_rows (commitMultiStore a))" and "ethIteratorsCurrentKey a = Map.empty"
  shows "fits tables (shared s)"
  using assms by (auto simp: StartDBRouter_def keys_fit_def fresh_rows)

end

section \<open>The tables of the EVM\<close>

lemma evm_tables_iff: "evm_tables t = Some table \<longleftrightarrow>
    (t = 0 \<and> table = accounts_table) \<or> (t = 1 \<and> table = storages_table)"
  by (auto simp: evm_tables_def split: if_splits)

lemma evm_row_keys: "row_key_bytes accounts_table = 40" "row_key_bytes storages_table = 80"
  by (simp_all add: row_key_bytes_def table_fields)

lemma evm_stores_agree: "stores_agree evm_tables"
  using store_names by (auto simp: stores_agree_def evm_tables_iff table_fields)

lemma evm_requests_fit: "\<forall>table \<in> ran evm_tables. 2 + CursorIDBytes + row_key_bytes table \<le> BufferBytes"
  by (auto simp: ran_def evm_tables_iff evm_row_keys)

text \<open>
  The messages that panic because of the marker row: an APPEND to the accounts table while the
  marker is its greatest row; a step by duplicates in the storages table with a cursor that
  stands on the marker.
\<close>

definition meets_marker :: "('ms \<times> 'cs \<Rightarrow> string \<Rightarrow> entries) \<Rightarrow> bytes \<Rightarrow> ('ms, 'cs) app \<Rightarrow> bool" where
  "meets_marker cs_rows msg a \<longleftrightarrow>
     (case msg of
        operation # tableCode # _ \<Rightarrow>
          if tableCode = HashedAccountsTableCode then
            operation = OP_APPEND \<and> 50 \<le> length msg \<and>
            (\<exists>v. last_where (\<lambda>_. True) (map_of (cs_rows (cached_store a) HashedAccountsStoreName)) = Some ([1], v))
          else tableCode = HashedStoragesTableCode \<and>
            operation \<in> {OP_NEXT_DUP, OP_NEXT_NO_DUP, OP_DELETE_CURRENT_DUPLICATES} \<and> length msg = 10 \<and>
            ethIteratorsCurrentKey a (take 8 (drop 2 msg)) = Some [1]
      | _ \<Rightarrow> False)"

lemma last_key_row:
  assumes "last_where P (map_of xs) = Some (k, v)"
  shows "k \<in> set (keys_of xs)"
proof -
  have "map_of xs k = Some v" using assms by (simp add: last_where_Some_iff finite_dom_map_of)
  then show ?thesis by (force dest: map_of_SomeD)
qed

context multistore
begin

lemma short_cursor_marker:
  assumes "fits evm_tables a"
  shows "short_cursor 40 c a \<longleftrightarrow> ethIteratorsCurrentKey a c = Some [1]"
proof -
  have "cursor_fits evm_tables k" if "ethIteratorsCurrentKey a c = Some k" for k
    using assms that by (auto simp: keys_fit_def)
  then show ?thesis
    by (cases "ethIteratorsCurrentKey a c")
      (auto simp: short_cursor_def cursor_fits_def evm_tables_iff evm_row_keys)
qed

lemma short_greatest_marker:
  assumes "fits evm_tables a"
  shows "short_greatest 40 (cs_rows (cached_store a) HashedAccountsStoreName) \<longleftrightarrow>
      (\<exists>v. last_where (\<lambda>_. True) (map_of (cs_rows (cached_store a) HashedAccountsStoreName)) = Some ([1], v))"
    and "\<not> short_greatest 40 (cs_rows (cached_store a) HashedStoragesStoreName)"
proof -
  have fit: "rows_fit evm_tables (\<lambda>n. cs_rows (cached_store a) n)" using assms by (auto simp: keys_fit_def)
  have acc: "length g = 40 \<or> g = [1]"
    if "last_where (\<lambda>_. True) (map_of (cs_rows (cached_store a) HashedAccountsStoreName)) = Some (g, v)" for g v
    using fit [unfolded rows_fit_def, rule_format, OF evm_tables_at(1)] last_key_row [OF that]
    by (auto simp: evm_row_keys table_fields)
  have stor: "length g = 80"
    if "last_where (\<lambda>_. True) (map_of (cs_rows (cached_store a) HashedStoragesStoreName)) = Some (g, v)" for g v
    using fit [unfolded rows_fit_def, rule_format, OF evm_tables_at(2)] last_key_row [OF that] store_names
    by (auto simp: evm_row_keys table_fields evm_tables_at)
  show "short_greatest 40 (cs_rows (cached_store a) HashedAccountsStoreName) \<longleftrightarrow>
      (\<exists>v. last_where (\<lambda>_. True) (map_of (cs_rows (cached_store a) HashedAccountsStoreName)) = Some ([1], v))"
    using acc by (cases "last_where (\<lambda>_. True) (map_of (cs_rows (cached_store a) HashedAccountsStoreName))")
      (auto simp: short_greatest_def)
  show "\<not> short_greatest 40 (cs_rows (cached_store a) HashedStoragesStoreName)"
    using stor by (cases "last_where (\<lambda>_. True) (map_of (cs_rows (cached_store a) HashedStoragesStoreName))")
      (auto simp: short_greatest_def)
qed

lemma crash_is_marker:
  assumes "fits evm_tables a"
  shows "crash_message cs_rows msg a \<longleftrightarrow> gap_message evm_tables msg \<or> meets_marker cs_rows msg a"
proof -
  have tables: "executionTablesInfo a = evm_tables" using assms by (simp add: keys_fit_def)
  note facts = short_cursor_marker [OF assms] short_greatest_marker [OF assms]
  show ?thesis
    by (auto simp: crash_message_def gap_message_def meets_marker_def crash_request_def tables evm_tables_def facts
        entry_gap_def entry_accepted_def table_fields split: list.split)
qed

end

section \<open>Properties\<close>

text \<open>
  C4: the keys of a running router. If the committed rows have keys of their tables' lengths when
  the router starts, then after every sequence of accepted connections, loop tops, messages and
  hangups every row, committed or pending, has a key of its table's length, or is the router's
  own marker row in the first table; and every cursor stands on such a key.
\<close>

theorem keys_always_fit:
  assumes store: "multistore api ms_rows cs_rows"
    and start: "StartDBRouter api EVM a = Ret s" "ethIteratorsCurrentKey a = Map.empty"
    and tables: "stores_agree (executionTablesInfo a)" "executionTablesInfo a 0 = Some table0"
    and rows: "rows_fit (executionTablesInfo a) (ms_rows (commitMultiStore a))"
    and run: "system_run api s es s'"
  shows "rows_fit (executionTablesInfo a) (ms_rows (commitMultiStore (shared s'))) \<and>
    rows_fit (executionTablesInfo a) (cs_rows (cached_store (shared s'))) \<and>
    (\<forall>c k. ethIteratorsCurrentKey (shared s') c = Some k \<longrightarrow> cursor_fits (executionTablesInfo a) k)"
proof -
  have "keys_fit ms_rows cs_rows (executionTablesInfo a) (shared s')"
    using multistore.fits_run [OF store run multistore.fits_start [OF store start(1) refl rows start(2)] tables] .
  then show ?thesis by (auto simp: keys_fit_def)
qed

lemma empty_start:
  "\<exists>s. StartDBRouter journal_api EVM (sample_app\<lparr>commitMultiStore := []\<rparr>) = Ret s"
  "rows_fit evm_tables (replay [])"
  by (simp_all add: StartDBRouter_def rows_fit_def)

theorem keys_always_fit_witness:
  "\<exists>s s'. StartDBRouter journal_api EVM (sample_app\<lparr>commitMultiStore := []\<rparr>) = Ret s \<and>
    system_run journal_api s [Accept 1, Top 1, Message 1 (encode (PutReq 0 (acct 9) [90]))] s' \<and>
    rows_fit evm_tables (journal_rows (cached_store (shared s')))"
proof -
  let ?a = "sample_app\<lparr>commitMultiStore := []\<rparr>"
  obtain s where s: "StartDBRouter journal_api EVM ?a = Ret s" using empty_start(1) by blast
  have "well_formed accounts_table (PutReq 0 (acct 9) [90])" "length (encode (PutReq 0 (acct 9) [90])) \<le> BufferBytes"
    by (simp_all add: sample_simps row_key_bytes_def)
  then obtain s' where run: "system_run journal_api s [Accept 1, Top 1, Message 1 (encode (PutReq 0 (acct 9) [90]))] s'"
    using s put_message [of "loop_top journal_api (shared s)" accounts_table 0 accounts_table "acct 9" "[90]" journal_api]
    by (auto simp: StartDBRouter_def run_iff_after sample_simps simp del: encode.simps)
  from keys_always_fit [OF journal.multistore_axioms s _ _ _ _ run] show ?thesis
    using s run empty_start(2) by (auto simp: sample_simps evm_stores_agree)
qed

text \<open>
  C5: when a running router panics. Over the tables of the EVM, from a start with proper keys
  and after any sequence of connections, loop tops, messages and hangups that has not ended the
  process, a message of up to 4096 bytes panics exactly when it is one byte long or ends inside
  the key of an entry request to the accounts table (43 to 49 bytes); or, unless a connection
  already waits forever, it meets the marker row the router itself writes: as the greatest
  account on an APPEND, or under the cursor of a step by duplicates in the storages. Without the
  marker row no stored key could make the router panic.
\<close>

theorem reachable_panics:
  assumes store: "multistore api ms_rows cs_rows"
    and start: "StartDBRouter api EVM a = Ret s" "ethIteratorsCurrentKey a = Map.empty" "locks_free a"
    and tables: "executionTablesInfo a = evm_tables"
    and rows: "rows_fit evm_tables (ms_rows (commitMultiStore a))"
    and run: "system_run api s es s'" "\<not> crashed s'"
    and len: "length msg \<le> BufferBytes"
  shows "fst (on_message api msg (shared s')) = Panic \<longleftrightarrow>
    gap_message evm_tables msg \<or>
    (\<not> waiting (conns s') \<and> meets_marker cs_rows msg (set_marker api accounts_table (shared s')))"
proof -
  let ?b = "set_marker api accounts_table (shared s')"
  have "keys_fit ms_rows cs_rows evm_tables (shared s')"
    using multistore.fits_run [OF store run(1) multistore.fits_start [OF store start(1) tables rows start(2)]
        evm_stores_agree evm_tables_at(1)] .
  then have fit: "executionTablesInfo (shared s') = evm_tables" "keys_fit ms_rows cs_rows evm_tables ?b"
    using multistore.set_marker_fits [OF store, of evm_tables "shared s'" accounts_table]
    by (auto simp: keys_fit_def evm_tables_at)
  have inv: "system_inv evm_tables s'"
    using system_inv_run [OF run(1), of evm_tables accounts_table] system_inv_start [OF start(1,3)] tables
    by (simp add: evm_tables_at)
  show ?thesis
  proof (cases "waiting (conns s')")
    case True
    then have "stuck (shared s')" using inv by (simp add: system_inv_def)
    then show ?thesis
      using stuck_message_panics_iff [OF store, of "shared s'" accounts_table msg] True fit(1)
        evm_requests_fit len
      by (simp add: evm_tables_at)
  next
    case False
    then have "locks_free (shared s')" using inv run(2) by (simp add: system_inv_def)
    then have "fst (on_message api msg (shared s')) = Panic \<longleftrightarrow> crash_message cs_rows msg ?b"
      using message_panics_iff [OF store, of "shared s'" accounts_table msg] fit(1) evm_requests_fit len
      by (simp add: evm_tables_at)
    then show ?thesis using multistore.crash_is_marker [OF store fit(2)] False by simp
  qed
qed

theorem reachable_panics_witness:
  "\<exists>s s'. StartDBRouter journal_api EVM (sample_app\<lparr>commitMultiStore := []\<rparr>) = Ret s \<and>
    system_run journal_api s [Accept 1, Top 1] s' \<and>
    fst (on_message journal_api (OP_UPSERT # 0 # replicate 41 7) (shared s')) = Panic \<and>
    fst (on_message journal_api (OP_UPSERT # 1 # replicate 41 7) (shared s')) \<noteq> Panic"
proof -
  let ?a = "sample_app\<lparr>commitMultiStore := []\<rparr>"
  obtain s where s: "StartDBRouter journal_api EVM ?a = Ret s" using empty_start(1) by blast
  then obtain s' where run: "system_run journal_api s [Accept 1, Top 1] s'" "\<not> crashed s'"
    by (auto simp: StartDBRouter_def run_iff_after)
  have "fst (on_message journal_api msg (shared s')) = Panic \<longleftrightarrow>
      gap_message evm_tables msg \<or>
      (\<not> waiting (conns s') \<and> meets_marker journal_rows msg (set_marker journal_api accounts_table (shared s')))"
    if "length msg \<le> BufferBytes" for msg
    using reachable_panics [OF journal.multistore_axioms s _ _ _ _ run that] empty_start(2)
    by (simp add: sample_simps)
  from this [of "OP_UPSERT # 0 # replicate 41 7"] this [of "OP_UPSERT # 1 # replicate 41 7"] s run
  show ?thesis
    by (auto simp: meets_marker_def gap_message_def entry_gap_def evm_tables_def table_fields)
qed

end
