(* ===== verification/Db_Decode.thy ===== *)
theory Db_Decode imports Db_Crash begin

text \<open>
  The other half of the protocol: what the router does with bytes that are no request. A
  message \<open>carries\<close> a request when it is the request's encoding (the WRITE case looks at the two
  codes only, and ignores what follows them). The theory shows that every message of a known
  table that carries no request runs no operation.
\<close>

definition carries :: "tableInfo \<Rightarrow> bytes \<Rightarrow> request \<Rightarrow> bool" where
  "carries table msg r \<longleftrightarrow> well_formed table r \<and>
     (case r of WriteReq _ \<Rightarrow> take 2 msg = encode r | _ \<Rightarrow> msg = encode r)"

text \<open>The operation codes with a case in the switch, and those of the entry requests.\<close>

definition handled_codes :: "byte set" where
  "handled_codes = {OP_GET, OP_PUT, OP_DELETE, OP_WRITE, OP_FIRST, OP_SEEK_EXACT, OP_SEEK, OP_NEXT,
     OP_PREV, OP_LAST, OP_CURRENT, OP_UPSERT, OP_INSERT, OP_APPEND, OP_DELETE_CURRENT, OP_NEXT_DUP,
     OP_NEXT_NO_DUP, OP_SEEK_BY_KEY_SUBKEY, OP_DELETE_CURRENT_DUPLICATES, OP_APPEND_DUP}"

definition entry_codes :: "byte set" where
  "entry_codes = {OP_UPSERT, OP_INSERT, OP_APPEND}"

section \<open>Messages that carry a request\<close>

lemma carried_codes: "carries table (x # t # rest) r \<Longrightarrow> x = hd (encode r) \<and> t = table_code r"
  by (cases r) (auto simp: carries_def)

lemma carried_runs:
  assumes "executionTablesInfo a t = Some table" and "carries table (x # t # rest) r"
    and "length (x # t # rest) \<le> 4096"
  shows "handle_operation api x t (buffer_of 4096 (x # t # rest)) a = exec_request api table r a"
proof (cases r)
  case (WriteReq t')
  then show ?thesis using assms(2) by (simp add: carries_def handle_operation_def handle_WRITE_def)
qed (use assms handle_operation_decodes [of a r table api] in \<open>auto simp: carries_def\<close>)

section \<open>Messages that carry none\<close>

lemma bare_lengths:
  assumes none: "\<And>r. \<not> carries table (x # t # rest) r"
  shows "x = OP_GET \<Longrightarrow> length rest \<noteq> KeyBytes table"
    and "x = OP_DELETE \<Longrightarrow> length rest \<noteq> KeyBytes table \<and> length rest \<noteq> row_key_bytes table"
    and "x \<noteq> OP_WRITE"
  using none [of "GetReq t rest"] none [of "DeleteReq t rest"] none [of "WriteReq t"]
  by (simp_all add: carries_def)

lemma put_length:
  assumes none: "\<And>r. \<not> carries table (x # t # rest) r"
  shows "x = OP_PUT \<Longrightarrow> length rest \<le> row_key_bytes table"
  using none [of "PutReq t (take (row_key_bytes table) rest) (drop (row_key_bytes table) rest)"]
  by (auto simp: carries_def)

lemma cursor_lengths:
  assumes none: "\<And>r. \<not> carries table (x # t # rest) r"
  shows "x \<in> {OP_FIRST, OP_NEXT, OP_PREV, OP_LAST, OP_CURRENT, OP_DELETE_CURRENT} \<Longrightarrow> length rest \<noteq> 8"
    and "x \<in> {OP_NEXT_DUP, OP_NEXT_NO_DUP, OP_DELETE_CURRENT_DUPLICATES} \<Longrightarrow> DupSorted table \<Longrightarrow> length rest \<noteq> 8"
  using none [of "FirstReq t rest"] none [of "NextReq t rest"] none [of "PrevReq t rest"]
    none [of "LastReq t rest"] none [of "CurrentReq t rest"] none [of "DeleteCurrentReq t rest"]
    none [of "NextDupReq t rest"] none [of "NextNoDupReq t rest"]
    none [of "DeleteCurrentDuplicatesReq t rest"]
  by (auto simp: carries_def)

lemma cursor_key_lengths:
  assumes none: "\<And>r. \<not> carries table (x # t # rest) r"
  shows "x \<in> {OP_SEEK_EXACT, OP_SEEK} \<Longrightarrow> length rest \<noteq> 8 + KeyBytes table"
    and "x = OP_SEEK_BY_KEY_SUBKEY \<Longrightarrow> DupSorted table \<Longrightarrow> length rest \<noteq> 8 + row_key_bytes table"
  using none [of "SeekExactReq t (take 8 rest) (drop 8 rest)"] none [of "SeekReq t (take 8 rest) (drop 8 rest)"]
    none [of "SeekByKeySubkeyReq t (take 8 rest) (drop 8 rest)"]
  by (auto simp: carries_def)

text \<open>The fields of an entry request that is long enough.\<close>

lemma entry_parts:
  assumes "8 + row_key_bytes table \<le> length rest"
  obtains c k v where "rest = c @ k @ v" "length c = 8" "length k = row_key_bytes table"
    "length v = length rest - (8 + row_key_bytes table)"
proof
  show "rest = take 8 rest @ take (row_key_bytes table) (drop 8 rest) @
      drop (row_key_bytes table) (drop 8 rest)" by (metis append_take_drop_id)
qed (use assms in auto)

lemma entry_lengths:
  assumes none: "\<And>r. \<not> carries table (x # t # rest) r"
  shows "x \<in> entry_codes \<Longrightarrow> \<not> entry_accepted table (length rest + 2)"
    and "x = OP_APPEND_DUP \<Longrightarrow> DupSorted table \<Longrightarrow> length rest \<le> 8 + row_key_bytes table"
proof -
  show "\<not> entry_accepted table (length rest + 2)" if "x \<in> entry_codes"
  proof
    assume acc: "entry_accepted table (length rest + 2)"
    then have "8 + row_key_bytes table \<le> length rest" "DupSorted table \<longrightarrow> 8 + row_key_bytes table < length rest"
      by (auto simp: entry_accepted_def row_key_bytes_def split: if_splits)
    note long = this
    obtain c k v where parts: "rest = c @ k @ v" "length c = 8" "length k = row_key_bytes table"
      "length v = length rest - (8 + row_key_bytes table)" by (rule entry_parts [OF long(1)])
    then have "DupSorted table \<longrightarrow> v \<noteq> []" using long by auto
    then show False
      using parts that none [of "UpsertReq t c k v"] none [of "InsertReq t c k v"] none [of "AppendReq t c k v"]
      by (auto simp: carries_def entry_codes_def)
  qed
  show "length rest \<le> 8 + row_key_bytes table" if "x = OP_APPEND_DUP" "DupSorted table"
  proof (rule ccontr)
    assume "\<not> length rest \<le> 8 + row_key_bytes table"
    then have long: "8 + row_key_bytes table < length rest" by simp
    obtain c k v where parts: "rest = c @ k @ v" "length c = 8" "length k = row_key_bytes table"
      "length v = length rest - (8 + row_key_bytes table)"
      by (rule entry_parts [OF less_imp_le [OF long]])
    then have "v \<noteq> []" using long by auto
    then show False using parts that none [of "AppendDupReq t c k v"] by (simp add: carries_def)
  qed
qed

lemma entry_refused:
  assumes "\<And>r. \<not> carries table (x # t # rest) r" and "x \<in> entry_codes" and "executionTablesInfo a t = Some table"
    and "10 + row_key_bytes table \<le> 4096" and "length rest + 2 \<le> 4096"
  shows "cursor_entry_request run t (buffer_of 4096 (x # t # rest)) a =
    (if entry_gap table (length rest + 2) then Panic else Ret (error_reply ErrInvalidRequestData), a)"
  using entry_fields_cases(1,3) [of table "x # t # rest"] entry_lengths(1) [OF assms(1,2)] assms(3-5)
  by (simp add: cursor_entry_request_def tableAt_known)

text \<open>No case of the switch gets past its checks.\<close>

lemma cursor_requests_refused:
  "length rest \<noteq> 8 \<Longrightarrow> length rest + 2 \<le> 4096 \<Longrightarrow>
     cursor_request run1 (buffer_of 4096 (x # t # rest)) a = bad_request a"
  "length rest \<noteq> 8 + n \<Longrightarrow> length rest + 2 \<le> 4096 \<Longrightarrow>
     cursor_key_request n run2 (buffer_of 4096 (x # t # rest)) a = bad_request a"
  by (simp_all add: cursor_request_def cursor_key_request_def)

lemma handlers_refuse:
  assumes none: "\<And>r. \<not> carries table (x # t # rest) r" and t: "tableAt a t = table"
    and len: "length rest + 2 \<le> 4096"
  defines "data \<equiv> buffer_of 4096 (x # t # rest)"
  shows "x = OP_GET \<Longrightarrow> handle_GET api t data a = bad_request a"
    and "x = OP_PUT \<Longrightarrow> handle_PUT api t data a = bad_request a"
    and "x = OP_DELETE \<Longrightarrow> handle_DELETE api t data a = bad_request a"
    and "x = OP_FIRST \<Longrightarrow> handle_FIRST api t data a = bad_request a"
    and "x = OP_SEEK_EXACT \<Longrightarrow> handle_SEEK_EXACT api t data a = bad_request a"
    and "x = OP_SEEK \<Longrightarrow> handle_SEEK api t data a = bad_request a"
    and "x = OP_NEXT \<Longrightarrow> handle_NEXT api t data a = bad_request a"
    and "x = OP_PREV \<Longrightarrow> handle_PREV api t data a = bad_request a"
    and "x = OP_LAST \<Longrightarrow> handle_LAST api t data a = bad_request a"
    and "x = OP_CURRENT \<Longrightarrow> handle_CURRENT api t data a = bad_request a"
    and "x = OP_DELETE_CURRENT \<Longrightarrow> handle_DELETE_CURRENT api t data a = bad_request a"
    and "x = OP_NEXT_DUP \<Longrightarrow> handle_NEXT_DUP api t data a = bad_request a"
    and "x = OP_NEXT_NO_DUP \<Longrightarrow> handle_NEXT_NO_DUP api t data a = bad_request a"
    and "x = OP_SEEK_BY_KEY_SUBKEY \<Longrightarrow> handle_SEEK_BY_KEY_SUBKEY api t data a = bad_request a"
    and "x = OP_DELETE_CURRENT_DUPLICATES \<Longrightarrow>
      handle_DELETE_CURRENT_DUPLICATES api t data a = bad_request a"
    and "x = OP_APPEND_DUP \<Longrightarrow> handle_APPEND_DUP api t data a = bad_request a"
  using bare_lengths [OF none] put_length [OF none] cursor_lengths [OF none]
    cursor_key_lengths [OF none] entry_lengths(2) [OF none] len
  by (auto simp: data_def handler_defs t Let_def cursor_requests_refused put_fields_def row_key_bytes_def
      split: if_splits)

lemma refused:
  assumes none: "\<And>r. \<not> carries table (x # t # rest) r" and "executionTablesInfo a t = Some table"
    and "10 + row_key_bytes table \<le> 4096" and "length rest + 2 \<le> 4096"
  shows "handle_operation api x t (buffer_of 4096 (x # t # rest)) a =
    (if x \<in> entry_codes \<and> entry_gap table (length rest + 2) then Panic
     else Ret (error_reply (if x \<in> handled_codes then ErrInvalidRequestData else ErrInvalidOperationCode)),
     a)"
proof -
  have t: "tableAt a t = table" using assms(2) by (rule tableAt_known)
  note refuse = handlers_refuse [OF none t assms(4), of api]
  consider "x \<in> entry_codes" | "x \<in> handled_codes - entry_codes" | "x \<notin> handled_codes" by blast
  then show ?thesis
  proof cases
    case 1
    note entry = entry_refused [OF none 1 assms(2-4)]
    from 1 show ?thesis
      using entry [of "Upsert api t"] entry [of "Insert api t"] entry [of "Append api t"]
      by (auto simp: entry_codes_def handled_codes_def handle_operation_def handle_UPSERT_def
          handle_INSERT_def handle_APPEND_def)
  next
    case 2
    then show ?thesis
      using refuse bare_lengths(3) [OF none]
      by (auto simp: entry_codes_def handled_codes_def handle_operation_def)
  next
    case 3
    then show ?thesis by (simp add: entry_codes_def handled_codes_def handle_operation_def)
  qed
qed

section \<open>Properties\<close>

text \<open>
  C36: the router runs the requests it is sent and nothing else. Take any message of two bytes
  or more, up to 4096. If its table is known and it carries a request, the router runs the
  operation of that request on the fields it carries. If it carries none, no operation runs and
  the state is as before but for the marker row: the reply is the status byte 0 and the text of
  the error for an invalid operation code, when the switch has no case for its code, or of the
  one for invalid request data; except that an UPSERT, INSERT or APPEND for a table without
  subkeys panics when it ends inside its key. An unknown table is answered with its error.
\<close>

theorem only_requests_run:
  assumes t0: "executionTablesInfo a 0 = Some table0"
    and fits: "\<forall>table \<in> ran (executionTablesInfo a). 2 + CursorIDBytes + row_key_bytes table \<le> BufferBytes"
    and msg: "msg = x # t # rest" "length msg \<le> BufferBytes"
    and run: "on_message api msg a = res"
  shows "case executionTablesInfo a t of
      None \<Rightarrow> res = (Ret [STATUS_ERROR # bytes_of (error_text ErrTableNotFound)], set_marker api table0 a)
    | Some table \<Rightarrow>
        (\<forall>r. carries table msg r \<longrightarrow> res = apfst (map_outcome (\<lambda>response. [response]))
           (exec_request api table r (set_marker api table0 a))) \<and>
        ((\<nexists>r. carries table msg r) \<longrightarrow> res =
           (if x \<in> entry_codes \<and> entry_gap table (length msg) then Panic
            else Ret [STATUS_ERROR # bytes_of (error_text
              (if x \<in> handled_codes then ErrInvalidRequestData else ErrInvalidOperationCode))],
            set_marker api table0 a))"
proof (cases "executionTablesInfo a t")
  case None
  then show ?thesis
    using msg run by (auto simp: on_message_cases [OF t0] Let_def error_reply_def)
next
  case (Some table)
  let ?b = "set_marker api table0 a"
  have b: "executionTablesInfo ?b t = Some table" using Some by simp
  have fit: "10 + row_key_bytes table \<le> 4096" using fits Some by (auto simp: ran_def)
  have len: "length (x # t # rest) \<le> 4096" "length rest + 2 \<le> 4096" using msg by simp_all
  note run = run [unfolded msg(1) on_message_codes [OF t0 Some], symmetric]
  show ?thesis
    using carried_runs [OF b _ len(1), of _ api] refused [OF _ b fit len(2), of x api] run msg(1) Some
    by (auto simp: error_reply_def)
qed

theorem only_requests_run_witness:
  "on_message journal_api (encode (FirstReq 0 (cursor_id 1)) @ [9]) sample_app =
      (Ret [STATUS_ERROR # bytes_of ''invalid request data''], set_marker journal_api accounts_table sample_app) \<and>
    on_message journal_api [OP_DROP_CURSOR, 0] sample_app =
      (Ret [STATUS_ERROR # bytes_of ''invalid operation code''], set_marker journal_api accounts_table sample_app)"
proof -
  have "\<forall>table \<in> ran (executionTablesInfo sample_app). 2 + CursorIDBytes + row_key_bytes table \<le> BufferBytes"
    by (auto simp: sample_app_fields evm_tables_def ran_def row_key_bytes_def accounts_table_def
        storages_table_def split: if_splits)
  note runs = only_requests_run [OF _ this _ _ refl, of accounts_table _ _ 0 _ journal_api]
  have "\<not> carries accounts_table (encode (FirstReq 0 (cursor_id 1)) @ [9]) r"
    "\<not> carries accounts_table [OP_DROP_CURSOR, 0] r" for r
    by (cases r; auto simp: carries_def sample_simps dest: arg_cong [where f = length])+
  then show ?thesis
    using runs [of "encode (FirstReq 0 (cursor_id 1)) @ [9]" OP_FIRST "cursor_id 1 @ [9]"]
      runs [of "[OP_DROP_CURSOR, 0]" OP_DROP_CURSOR "[]"]
    by (simp add: sample_simps entry_codes_def handled_codes_def)
qed

end
