(* ===== verification/State_Query.thy ===== *)
theory State_Query imports Db_Router begin

text \<open>
  The state query router (\<open>app/state_transport.go\<close>, \<open>app/state_query_utils.go\<close>): state roots
  and state proofs, answered through the node's own CometBFT RPC. The RPC client is not code of
  the repository; it is the record \<open>node_api\<close> of the calls made, each returning an error text or
  a result. A block in a result is a pointer: \<open>None\<close> is Go's nil, and using it is a panic.

  The storage keys of a proof request are slices of the buffer the message was read into, and
  so is the address; \<open>append(address, key...)\<close> writes into that buffer. The model keeps the
  array and the offsets, so that the effect on the keys still to be read is not assumed away.
\<close>

unbundle bit_operations_syntax

section \<open>Integers and hexadecimal\<close>

text \<open>\<open>binary.BigEndian.Uint64\<close>\<close>

definition be_uint64 :: "bytes \<Rightarrow> 64 word" where
  "be_uint64 bs = foldl (\<lambda>w b. push_bit 8 w OR ucast b) 0 bs"

definition be_bytes :: "64 word \<Rightarrow> bytes" where
  "be_bytes w = map (\<lambda>i. ucast (drop_bit (8 * i) w)) [7, 6, 5, 4, 3, 2, 1, 0]"

text \<open>\<open>new(big.Int).SetBytes\<close>\<close>

definition big_SetBytes :: "bytes \<Rightarrow> nat" where
  "big_SetBytes bs = foldl (\<lambda>n b. 256 * n + unat b) 0 bs"

definition hex_digit :: "nat \<Rightarrow> char" where
  "hex_digit n = ''0123456789abcdef'' ! n"

definition hexutil_Encode :: "bytes \<Rightarrow> string" where
  "hexutil_Encode bs =
     ''0x'' @ concat (map (\<lambda>b. [hex_digit (unat b div 16), hex_digit (unat b mod 16)]) bs)"

fun nat_hex :: "nat \<Rightarrow> string" where
  "nat_hex n = (if n < 16 then [hex_digit n] else nat_hex (n div 16) @ [hex_digit (n mod 16)])"

declare nat_hex.simps [simp del]

lemma nat_hex_not_Nil [simp]: "nat_hex n \<noteq> []"
  by (subst nat_hex.simps) simp

definition hexutil_EncodeBig :: "nat \<Rightarrow> string" where
  "hexutil_EncodeBig n = ''0x'' @ nat_hex n"

section \<open>The node's RPC\<close>

record block =
  AppHash :: bytes
  Height :: int

record abci_query =
  Path :: string
  Data :: bytes
  QueryHeight :: int
  Prove :: bool

record abci_response =
  Value :: bytes
  ProofOps :: "bytes list option"

record 'c node_api =
  WorkingHash :: bytes
  http_New :: "string \<Rightarrow> string \<Rightarrow> string + 'c"
  Start :: "'c \<Rightarrow> string option"
  Block :: "'c \<Rightarrow> int \<Rightarrow> string + block option"
  BlockByHash :: "'c \<Rightarrow> bytes \<Rightarrow> string + block option"
  QueryABCI :: "'c \<Rightarrow> abci_query \<Rightarrow> string + abci_response"

definition createCometBFTClient :: "'c node_api \<Rightarrow> string \<Rightarrow> string + 'c" where
  "createCometBFTClient node rpcEndpoint =
     (case http_New node rpcEndpoint ''/websocket'' of
        Inl err \<Rightarrow> Inl err
      | Inr client \<Rightarrow>
          (case Start node client of Some err \<Rightarrow> Inl err | None \<Rightarrow> Inr client))"

section \<open>State roots\<close>

definition StateRoot :: "'c node_api \<Rightarrow> string \<Rightarrow> int \<Rightarrow> (string + bytes) outcome" where
  "StateRoot node cometBFTRPCAddress height =
     (if height < - 1 then Ret (Inl (error_text ErrInvalidRequestData))
      else if height = - 1 then Ret (Inr (WorkingHash node))
      else (case createCometBFTClient node cometBFTRPCAddress of
              Inl err \<Rightarrow> Ret (Inl err)
            | Inr client \<Rightarrow>
                (case Block node client height of
                   Inl err \<Rightarrow> Ret (Inl err)
                 | Inr None \<Rightarrow> Panic
                 | Inr (Some block) \<Rightarrow> Ret (Inr (AppHash block)))))"

section \<open>State proofs\<close>

record BlockNumberOrHash =
  BlockNumber :: "int option"
  BlockHash :: "bytes option"

definition blockNumberFromTendermint ::
    "'c node_api \<Rightarrow> 'c \<Rightarrow> BlockNumberOrHash \<Rightarrow> (string + int) outcome" where
  "blockNumberFromTendermint node client spec =
     (case (BlockHash spec, BlockNumber spec) of
        (None, None) \<Rightarrow> Ret (Inl ''types BlockHash and BlockNumber cannot be both nil'')
      | (Some hash, _) \<Rightarrow>
          (case BlockByHash node client hash of
             Inl err \<Rightarrow> Ret (Inl err)
           | Inr None \<Rightarrow> Panic
           | Inr (Some block) \<Rightarrow> Ret (Inr (Height block)))
      | (None, Some number) \<Rightarrow> Ret (Inr number))"

definition getProofForKey :: "'c node_api \<Rightarrow> 'c \<Rightarrow> int \<Rightarrow> string \<Rightarrow> bytes \<Rightarrow>
    string + bytes \<times> bytes list option" where
  "getProofForKey node client height storeKey key =
     (if height \<le> 2 then Inl ''proof queries at height <= 2 are not supported''
      else (case QueryABCI node client \<lparr>Path = ''store/'' @ storeKey @ ''/key'', Data = key,
                   QueryHeight = height, Prove = True\<rparr> of
              Inl err \<Rightarrow> Inl err
            | Inr res \<Rightarrow> Inr (Value res, ProofOps res)))"

definition getHexProofs :: "bytes list option \<Rightarrow> string list" where
  "getHexProofs proof =
     (case proof of
        None \<Rightarrow> ['''']
      | Some ops \<Rightarrow> map (\<lambda>d. if d = [] then '''' else hexutil_Encode d) ops)"

record StorageResult =
  StorageValue :: nat
  StorageProof :: "string list"

record AccountResult =
  AccountProof :: "string list"
  StorageProofs :: "StorageResult list"

text \<open>
  Slices of the message buffer, as offsets into its array. \<open>go_append mem (lo, hi) bs\<close> is
  \<open>append(mem[lo:hi], bs...)\<close>: within the capacity it writes into the array.
\<close>

definition slice_at :: "bytes \<Rightarrow> nat \<times> nat \<Rightarrow> bytes" where
  "slice_at mem s = take (snd s - fst s) (drop (fst s) mem)"

definition go_append :: "bytes \<Rightarrow> nat \<times> nat \<Rightarrow> bytes \<Rightarrow> bytes \<times> bytes" where
  "go_append mem s bs =
     ((if snd s + length bs \<le> length mem
       then take (snd s) mem @ bs @ drop (snd s + length bs) mem else mem),
      slice_at mem s @ bs)"

fun storage_proofs :: "'c node_api \<Rightarrow> 'c \<Rightarrow> int \<Rightarrow> nat \<times> nat \<Rightarrow> (nat \<times> nat) list \<Rightarrow> bytes \<Rightarrow>
    (string + StorageResult list) \<times> bytes" where
  "storage_proofs node client height address [] mem = (Inr [], mem)"
| "storage_proofs node client height address (key # keys) mem =
     (case go_append mem address (slice_at mem key) of
        (mem, query) \<Rightarrow>
          (case getProofForKey node client height HashedStoragesStoreName query of
             Inl err \<Rightarrow> (Inl err, mem)
           | Inr (valueBz, proof) \<Rightarrow>
               (case storage_proofs node client height address keys mem of
                  (Inl err, mem) \<Rightarrow> (Inl err, mem)
                | (Inr rest, mem) \<Rightarrow>
                    (Inr (\<lparr>StorageValue = big_SetBytes valueBz,
                           StorageProof = getHexProofs proof\<rparr> # rest), mem))))"

definition getProof :: "'c node_api \<Rightarrow> 'c \<Rightarrow> nat \<times> nat \<Rightarrow> (nat \<times> nat) list \<Rightarrow>
    BlockNumberOrHash \<Rightarrow> bytes \<Rightarrow> (string + AccountResult) outcome" where
  "getProof node client address keys spec mem =
     (case blockNumberFromTendermint node client spec of
        Panic \<Rightarrow> Panic
      | Blocked \<Rightarrow> Blocked
      | Ret (Inl err) \<Rightarrow> Ret (Inl err)
      | Ret (Inr height) \<Rightarrow>
          (case storage_proofs node client height address keys mem of
             (Inl err, mem) \<Rightarrow> Ret (Inl err)
           | (Inr proofs, mem) \<Rightarrow>
               (case getProofForKey node client height HashedAccountsStoreName
                       (slice_at mem address) of
                  Inl err \<Rightarrow> Ret (Inl err)
                | Inr (_, proof) \<Rightarrow>
                    Ret (Inr \<lparr>AccountProof = getHexProofs proof, StorageProofs = proofs\<rparr>))))"

section \<open>The JSON of the result\<close>

text \<open>\<open>json.Marshal\<close> of \<open>AccountResult\<close>: the fields in the order of the struct. The strings are
  hexadecimal, so none needs escaping; the fields the code never sets have their zero values.\<close>

definition json_string :: "string \<Rightarrow> string" where
  "json_string s = [CHR 0x22] @ s @ [CHR 0x22]"

fun json_items :: "string list \<Rightarrow> string" where
  "json_items [] = []"
| "json_items [x] = x"
| "json_items (x # y # xs) = x @ '','' @ json_items (y # xs)"

definition json_list :: "string list \<Rightarrow> string" where
  "json_list xs = ''['' @ json_items xs @ '']''"

definition json_object :: "(string \<times> string) list \<Rightarrow> string" where
  "json_object members =
     ''{'' @ json_items (map (\<lambda>(n, v). json_string n @ '':'' @ v) members) @ ''}''"

definition storage_result_json :: "StorageResult \<Rightarrow> string" where
  "storage_result_json r = json_object
     [(''key'', json_string []),
      (''value'', json_string (hexutil_EncodeBig (StorageValue r))),
      (''proof'', json_list (map json_string (StorageProof r)))]"

definition account_result_json :: "AccountResult \<Rightarrow> string" where
  "account_result_json r = json_object
     [(''address'', json_string (hexutil_Encode (replicate 20 0))),
      (''accountProof'', json_list (map json_string (AccountProof r))),
      (''balance'', ''null''),
      (''codeHash'', json_string (hexutil_Encode (replicate 32 0))),
      (''nonce'', ''0''),
      (''storageHash'', json_string (hexutil_Encode (replicate 32 0))),
      (''storageProof'', json_list (map storage_result_json (StorageProofs r)))]"

definition StateProof :: "'c node_api \<Rightarrow> string \<Rightarrow> BlockNumberOrHash \<Rightarrow> nat \<times> nat \<Rightarrow>
    (nat \<times> nat) list \<Rightarrow> bytes \<Rightarrow> (string + bytes) outcome" where
  "StateProof node cometBFTRPCAddress spec address keys mem =
     (case createCometBFTClient node cometBFTRPCAddress of
        Inl err \<Rightarrow> Ret (Inl err)
      | Inr client \<Rightarrow>
          map_outcome (map_sum id (\<lambda>r. bytes_of (account_result_json r)))
            (getProof node client address keys spec mem))"

section \<open>The messages\<close>

definition OP_STATE_ROOT :: byte where [simp]: "OP_STATE_ROOT = 1"
definition OP_STATE_PROOF :: byte where [simp]: "OP_STATE_PROOF = 2"
definition EthBlockNumberBytes :: nat where [simp]: "EthBlockNumberBytes = 8"
definition EthBlockHashBytes :: nat where [simp]: "EthBlockHashBytes = 32"

definition text_reply :: "string + bytes \<Rightarrow> bytes" where
  "text_reply r = (case r of Inl err \<Rightarrow> STATUS_ERROR # bytes_of err | Inr v \<Rightarrow> STATUS_SUCCESS # v)"

definition handle_STATE_ROOT :: "'c node_api \<Rightarrow> string \<Rightarrow> buf \<Rightarrow> bytes outcome" where
  "handle_STATE_ROOT node cometBFTRPCAddress data =
     (if len data \<noteq> 1 + EthBlockNumberBytes then Ret (error_reply ErrInvalidRequestData)
      else (case slice_range data 1 (1 + EthBlockNumberBytes) of
              None \<Rightarrow> Panic
            | Some height \<Rightarrow>
                map_outcome text_reply
                  (StateRoot node cometBFTRPCAddress (sint (be_uint64 height)))))"

text \<open>The block a proof is asked for, and the bytes it takes: a number after a byte 0, a hash
  after a byte 1.\<close>

definition block_spec :: "buf \<Rightarrow> byte \<Rightarrow> (db_error + BlockNumberOrHash \<times> nat) outcome" where
  "block_spec data selector =
     (if selector = 0 then
        (if len data < 2 + EthBlockNumberBytes then Ret (Inl ErrInvalidRequestData)
         else (case slice_range data 2 (2 + EthBlockNumberBytes) of
                 None \<Rightarrow> Panic
               | Some bn \<Rightarrow> Ret (Inr (\<lparr>BlockNumber = Some (sint (be_uint64 bn)), BlockHash = None\<rparr>,
                     EthBlockNumberBytes))))
      else if selector = 1 then
        (if len data < 2 + EthBlockHashBytes then Ret (Inl ErrInvalidRequestData)
         else (case slice_range data 2 (2 + EthBlockHashBytes) of
                 None \<Rightarrow> Panic
               | Some bh \<Rightarrow> Ret (Inr (\<lparr>BlockNumber = None, BlockHash = Some bh\<rparr>, EthBlockHashBytes))))
      else Ret (Inl ErrInvalidRequestData))"

definition StorageKeyBytes :: nat where
  [simp]: "StorageKeyBytes = SerializedHashedStoragesKeyBytes + SerializedHashedStoragesSubKeyBytes"

definition storage_key_slices :: "nat \<Rightarrow> nat \<Rightarrow> (nat \<times> nat) list" where
  "storage_key_slices addressEnd noOfStorageKeys =
     map (\<lambda>i. (addressEnd + i * StorageKeyBytes, addressEnd + (i + 1) * StorageKeyBytes))
       [0..<noOfStorageKeys]"

definition handle_STATE_PROOF :: "'c node_api \<Rightarrow> string \<Rightarrow> buf \<Rightarrow> bytes outcome" where
  "handle_STATE_PROOF node cometBFTRPCAddress data =
     (case index_at data 1 of
        None \<Rightarrow> Ret (error_reply ErrInvalidRequestData)
      | Some selector \<Rightarrow>
          (case block_spec data selector of
             Panic \<Rightarrow> Panic
           | Blocked \<Rightarrow> Blocked
           | Ret (Inl err) \<Rightarrow> Ret (error_reply err)
           | Ret (Inr (spec, blockSpecBytes)) \<Rightarrow>
               (let addressStart = 2 + blockSpecBytes;
                    addressEnd = addressStart + SerializedHashedAccountsKeyBytes;
                    storageKeysBytes = len data - addressEnd
                in if len data < addressEnd then Ret (error_reply ErrInvalidRequestData)
                   else if storageKeysBytes mod StorageKeyBytes \<noteq> 0
                   then Ret (error_reply ErrInvalidRequestData)
                   else
                     (case StateProof node cometBFTRPCAddress spec (addressStart, addressEnd)
                             (storage_key_slices addressEnd (storageKeysBytes div StorageKeyBytes))
                             (arr data) of
                        Ret (Inl _) \<Rightarrow> Ret (error_reply ErrInvalidRequestData)
                      | Ret (Inr resp) \<Rightarrow> Ret (STATUS_SUCCESS # resp)
                      | Panic \<Rightarrow> Panic
                      | Blocked \<Rightarrow> Blocked))))"

definition on_state_message :: "'c node_api \<Rightarrow> string \<Rightarrow> bytes \<Rightarrow> bytes list outcome" where
  "on_state_message node cometBFTRPCAddress msg =
     (let data = buffer_of BufferBytes msg in
      if len data = 0 then Ret []
      else (case index_at data 0 of
              None \<Rightarrow> Panic
            | Some operation \<Rightarrow>
                map_outcome (\<lambda>response. [response])
                  (if operation = OP_STATE_ROOT then handle_STATE_ROOT node cometBFTRPCAddress data
                   else if operation = OP_STATE_PROOF
                   then handle_STATE_PROOF node cometBFTRPCAddress data
                   else Ret (error_reply ErrInvalidOperationCode))))"

fun handleStateQuery :: "'c node_api \<Rightarrow> string \<Rightarrow> read_result list \<Rightarrow> bytes list \<times> connection_end" where
  "handleStateQuery node addr [] = ([], Waiting)"
| "handleStateQuery node addr (ReadError # _) = ([], Closed)"
| "handleStateQuery node addr (Read msg # reads) =
     (case on_state_message node addr msg of
        Ret responses \<Rightarrow>
          (case handleStateQuery node addr reads of (rest, e) \<Rightarrow> (responses @ rest, e))
      | Panic \<Rightarrow> ([], Crashed)
      | Blocked \<Rightarrow> ([], Hung))"

section \<open>Round trip of the integers\<close>

lemma be_uint64_bytes: "be_uint64 (be_bytes w) = w"
proof (rule bit_word_eqI)
  fix n assume "n < LENGTH(64)"
  then have "n < 64" by simp
  then show "bit (be_uint64 (be_bytes w)) n = bit w n"
    by (simp add: be_uint64_def be_bytes_def bit_simps less_diff_conv2 cong: conj_cong) linarith
qed

lemma length_be_bytes [simp]: "length (be_bytes w) = 8"
  by (simp add: be_bytes_def)

section \<open>The keys of a proof request\<close>

text \<open>
  What a proof request asks for, over its fields and without a buffer: the reference that the
  code, which works on slices of the message, is compared with. \<open>query_all\<close> and \<open>proof_spec\<close> are
  not code of the repository.
\<close>

fun query_all :: "'c node_api \<Rightarrow> 'c \<Rightarrow> int \<Rightarrow> bytes \<Rightarrow> bytes list \<Rightarrow> string + StorageResult list" where
  "query_all node client height address [] = Inr []"
| "query_all node client height address (k # ks) =
     (case getProofForKey node client height HashedStoragesStoreName (address @ k) of
        Inl err \<Rightarrow> Inl err
      | Inr (value, proof) \<Rightarrow>
          (case query_all node client height address ks of
             Inl err \<Rightarrow> Inl err
           | Inr rest \<Rightarrow> Inr (\<lparr>StorageValue = big_SetBytes value,
                 StorageProof = getHexProofs proof\<rparr> # rest)))"

definition proof_spec :: "'c node_api \<Rightarrow> 'c \<Rightarrow> int \<Rightarrow> bytes \<Rightarrow> bytes list \<Rightarrow> string + AccountResult" where
  "proof_spec node client height address ks =
     (case query_all node client height address ks of
        Inl err \<Rightarrow> Inl err
      | Inr proofs \<Rightarrow>
          (case getProofForKey node client height HashedAccountsStoreName address of
             Inl err \<Rightarrow> Inl err
           | Inr (_, proof) \<Rightarrow>
               Inr \<lparr>AccountProof = getHexProofs proof, StorageProofs = proofs\<rparr>))"

lemma slice_after_append:
  assumes "hi + length bs \<le> length mem" and "hi + length bs \<le> fst s \<or> snd s \<le> hi"
  shows "slice_at (take hi mem @ bs @ drop (hi + length bs) mem) s = slice_at mem s"
proof (cases "hi + length bs \<le> fst s")
  case True
  then have "drop (fst s) (take hi mem @ bs @ drop (hi + length bs) mem) = drop (fst s) mem"
    using assms(1) by simp
  then show ?thesis by (simp add: slice_at_def)
next
  case False
  with assms have "snd s \<le> hi" "hi \<le> length mem" by auto
  then show ?thesis by (simp add: slice_at_def take_drop [symmetric] drop_take)
qed

lemma append_itself:
  assumes "hi + n \<le> length mem"
  shows "go_append mem (lo, hi) (slice_at mem (hi, hi + n)) =
    (mem, slice_at mem (lo, hi) @ slice_at mem (hi, hi + n))"
proof -
  have "length (slice_at mem (hi, hi + n)) = n" using assms by (simp add: slice_at_def)
  moreover have "take hi mem @ slice_at mem (hi, hi + n) @ drop (hi + n) mem = mem"
    by (simp add: slice_at_def) (metis add.commute append_take_drop_id drop_drop)
  ultimately show ?thesis using assms by (simp add: go_append_def)
qed

text \<open>
  Keys that lie past the bytes the appends overwrite (the first key's) are read as they were.
\<close>

lemma storage_proofs_past:
  assumes "hi + n \<le> length mem" and "\<forall>s \<in> set keys. hi + n \<le> fst s \<and> length (slice_at mem s) = n"
  shows "fst (storage_proofs node client height (lo, hi) keys mem) =
    query_all node client height (slice_at mem (lo, hi)) (map (slice_at mem) keys)"
  using assms
proof (induction keys arbitrary: mem)
  case (Cons s keys)
  let ?key = "slice_at mem s"
  let ?mem = "take hi mem @ ?key @ drop (hi + n) mem"
  have len: "length ?key = n" using Cons.prems(2) by simp
  have same: "slice_at ?mem r = slice_at mem r" if "hi + n \<le> fst r \<or> snd r \<le> hi" for r
    using slice_after_append [of hi ?key mem r] that Cons.prems(1) len by simp
  have app: "go_append mem (lo, hi) ?key = (?mem, slice_at mem (lo, hi) @ ?key)"
    using len Cons.prems(1) by (simp add: go_append_def)
  have keys: "map (slice_at ?mem) keys = map (slice_at mem) keys"
    using Cons.prems(2) same by simp
  have "fst (storage_proofs node client height (lo, hi) keys ?mem) =
      query_all node client height (slice_at mem (lo, hi)) (map (slice_at mem) keys)"
    using Cons.IH [of ?mem] Cons.prems same [of "(lo, hi)"] keys len same by simp
  then show ?case
    using app by (auto split: sum.splits prod.splits)
qed simp

lemma storage_proofs_keys:
  assumes "hi + n * StorageKeyBytes \<le> length mem"
  shows "fst (storage_proofs node client height (lo, hi) (storage_key_slices hi n) mem) =
    query_all node client height (slice_at mem (lo, hi)) (map (slice_at mem) (storage_key_slices hi n))"
proof (cases n)
  case (Suc m)
  obtain rest where keys: "storage_key_slices hi n = (hi, hi + 80) # rest"
    and rest: "rest = map (\<lambda>i. (hi + i * 80, hi + (i + 1) * 80)) [1..<n]"
    using Suc by (simp add: storage_key_slices_def upt_conv_Cons)
  have fits: "hi + 80 \<le> length mem" using assms Suc by simp
  have "\<forall>s \<in> set rest. hi + 80 \<le> fst s \<and> length (slice_at mem s) = 80"
  proof
    fix s assume "s \<in> set rest"
    then obtain i where i: "s = (hi + i * 80, hi + (i + 1) * 80)" "1 \<le> i" "i < n"
      by (auto simp: rest)
    then have "(i + 1) * 80 \<le> n * 80" by simp
    then have "hi + (i + 1) * 80 \<le> length mem" using assms by simp
    then show "hi + 80 \<le> fst s \<and> length (slice_at mem s) = 80"
      using i by (simp add: slice_at_def)
  qed
  from storage_proofs_past [OF fits this, of node client height lo]
  show ?thesis
    by (auto simp: keys append_itself [OF fits] split: sum.splits prod.splits)
qed (simp add: storage_key_slices_def)

text \<open>The address itself is never overwritten.\<close>

lemma storage_proofs_address:
  "slice_at (snd (storage_proofs node client height (lo, hi) keys mem)) (lo, hi) = slice_at mem (lo, hi)"
proof (induction keys arbitrary: mem)
  case (Cons s keys)
  obtain mem2 q where ga: "go_append mem (lo, hi) (slice_at mem s) = (mem2, q)" by fastforce
  then have "slice_at mem2 (lo, hi) = slice_at mem (lo, hi)"
    using slice_after_append [of hi "slice_at mem s" mem "(lo, hi)"]
    by (auto simp: go_append_def split: if_splits)
  then show ?case
    using ga Cons.IH [of mem2] by (auto split: sum.split prod.split)
qed simp

lemma getProof_height:
  assumes "hi + n * StorageKeyBytes \<le> length mem"
    and "blockNumberFromTendermint node client spec = Ret (Inr height)"
  shows "getProof node client (lo, hi) (storage_key_slices hi n) spec mem =
    Ret (proof_spec node client height (slice_at mem (lo, hi))
      (map (slice_at mem) (storage_key_slices hi n)))"
proof -
  let ?keys = "storage_key_slices hi n"
  obtain r mem' where sp: "storage_proofs node client height (lo, hi) ?keys mem = (r, mem')"
    by fastforce
  have r: "query_all node client height (slice_at mem (lo, hi)) (map (slice_at mem) ?keys) = r"
    using storage_proofs_keys [OF assms(1), of node client height lo] sp by simp
  have "slice_at mem' (lo, hi) = slice_at mem (lo, hi)"
    using storage_proofs_address [of node client height lo hi ?keys mem] sp by simp
  then show ?thesis
    by (simp add: getProof_def assms(2) proof_spec_def sp r split: sum.split prod.split)
qed

text \<open>
  The two ways a request names its block, the bytes they take in the message, and the height
  they stand for: \<open>None\<close> when the node's answer for a hash has no block in it.
\<close>

datatype block_ref = AtNumber "64 word" | AtHash bytes

fun block_ref_ok :: "block_ref \<Rightarrow> bool" where
  "block_ref_ok (AtNumber _) = True"
| "block_ref_ok (AtHash h) = (length h = EthBlockHashBytes)"

fun block_ref_bytes :: "block_ref \<Rightarrow> bytes" where
  "block_ref_bytes (AtNumber n) = 0 # be_bytes n"
| "block_ref_bytes (AtHash h) = 1 # h"

fun height_of :: "'c node_api \<Rightarrow> 'c \<Rightarrow> block_ref \<Rightarrow> string + int option" where
  "height_of node client (AtNumber n) = Inr (Some (sint n))"
| "height_of node client (AtHash h) = map_sum id (map_option Height) (BlockByHash node client h)"

fun spec_of :: "block_ref \<Rightarrow> BlockNumberOrHash" where
  "spec_of (AtNumber n) = \<lparr>BlockNumber = Some (sint n), BlockHash = None\<rparr>"
| "spec_of (AtHash h) = \<lparr>BlockNumber = None, BlockHash = Some h\<rparr>"

lemma resolved_height:
  "blockNumberFromTendermint node client (spec_of r) =
     (case height_of node client r of
        Inl err \<Rightarrow> Ret (Inl err) | Inr None \<Rightarrow> Panic | Inr (Some height) \<Rightarrow> Ret (Inr height))"
  by (cases r) (auto simp: blockNumberFromTendermint_def split: sum.split option.split)

lemma block_spec_of_ref:
  assumes "block_ref_ok r" and "length (x # block_ref_bytes r @ rest) \<le> 4096"
  shows "block_spec (buffer_of 4096 (x # block_ref_bytes r @ rest)) (hd (block_ref_bytes r)) =
    Ret (Inr (spec_of r, length (block_ref_bytes r) - 1))"
  using assms by (cases r) (simp_all add: block_spec_def be_uint64_bytes slice_range_buffer_of)

text \<open>The answer to a proof request.\<close>

definition proof_answer :: "'c node_api \<Rightarrow> string \<Rightarrow> block_ref \<Rightarrow> bytes \<Rightarrow> bytes list \<Rightarrow> bytes outcome" where
  "proof_answer node url r address ks =
     (case createCometBFTClient node url of
        Inl _ \<Rightarrow> Ret (error_reply ErrInvalidRequestData)
      | Inr client \<Rightarrow>
          (case height_of node client r of
             Inl _ \<Rightarrow> Ret (error_reply ErrInvalidRequestData)
           | Inr None \<Rightarrow> Panic
           | Inr (Some height) \<Rightarrow>
               Ret (case proof_spec node client height address ks of
                      Inl _ \<Rightarrow> error_reply ErrInvalidRequestData
                    | Inr result \<Rightarrow> STATUS_SUCCESS # bytes_of (account_result_json result))))"

lemma slices_of_request:
  assumes "length ks = n" and "\<forall>k \<in> set ks. length k = 80"
  shows "map (slice_at (p @ concat ks @ q)) (storage_key_slices (length p) n) = ks"
proof (rule nth_equalityI)
  show "length (map (slice_at (p @ concat ks @ q)) (storage_key_slices (length p) n)) = length ks"
    using assms(1) by (simp add: storage_key_slices_def)
  fix i assume "i < length (map (slice_at (p @ concat ks @ q)) (storage_key_slices (length p) n))"
  then have i: "i < n" by (simp add: storage_key_slices_def)
  have "drop (i * 80) (concat ks) = concat (drop i ks)" if "\<forall>k \<in> set ks. length k = 80" for i and ks :: "bytes list"
    using that
  proof (induction i arbitrary: ks)
    case (Suc i)
    then show ?case by (cases ks) auto
  qed simp
  from this [OF assms(2), of i] have d: "drop (i * 80) (concat ks @ q) = ks ! i @ concat (drop (Suc i) ks) @ drop (i * 80 - length (concat ks)) q"
    using i assms(1) by (simp add: Cons_nth_drop_Suc [symmetric])
  have "length (ks ! i) = 80" using assms i by simp
  then show "map (slice_at (p @ concat ks @ q)) (storage_key_slices (length p) n) ! i = ks ! i"
    using i d by (simp add: storage_key_slices_def slice_at_def)
qed

lemma length_concat_keys: "\<forall>k \<in> set ks. length k = m \<Longrightarrow> length (concat ks) = length ks * m"
  by (induction ks) auto

lemma proof_request_answered:
  assumes ref: "block_ref_ok r" and addr: "length address = SerializedHashedAccountsKeyBytes"
    and ks: "\<forall>k \<in> set ks. length k = StorageKeyBytes"
    and msg: "msg = OP_STATE_PROOF # block_ref_bytes r @ address @ concat ks"
    and len: "length msg \<le> BufferBytes"
  shows "on_state_message node url msg =
    map_outcome (\<lambda>response. [response]) (proof_answer node url r address ks)"
proof -
  let ?data = "buffer_of 4096 msg"
  let ?n = "length ks" and ?lo = "Suc (length (block_ref_bytes r))"
  have lo: "length (block_ref_bytes r) = Suc (?lo - 2)" "2 + (length (block_ref_bytes r) - 1) = ?lo"
    by (cases r; simp)+
  have lks: "length (concat ks) = ?n * 80" using length_concat_keys ks by auto
  have lmsg: "length msg = ?lo + 40 + ?n * 80" using addr lks by (simp add: msg)
  then have ld: "len ?data = ?lo + 40 + ?n * 80" using len by simp
  obtain z where "arr ?data = msg @ z" using len by (simp add: buffer_of_def)
  then have arr: "arr ?data = (OP_STATE_PROOF # block_ref_bytes r @ address) @ concat ks @ z"
    by (simp add: msg)
  have "index_at ?data 0 = Some OP_STATE_PROOF" "index_at ?data 1 = Some (hd (block_ref_bytes r))"
    using len by (cases r; simp add: msg index_at_codes)+
  moreover have "block_spec ?data (hd (block_ref_bytes r)) = Ret (Inr (spec_of r, length (block_ref_bytes r) - 1))"
    using block_spec_of_ref [OF ref] len by (simp add: msg)
  moreover have "slice_at (arr ?data) (?lo, ?lo + 40) = address"
    using addr by (simp add: arr slice_at_def)
  moreover have "map (slice_at (arr ?data)) (storage_key_slices (?lo + 40) ?n) = ks"
    using slices_of_request [of ks ?n "OP_STATE_PROOF # block_ref_bytes r @ address" z] ks addr
    by (simp add: arr add.commute)
  moreover have "?lo + 40 + ?n * StorageKeyBytes \<le> length (arr ?data)"
    using len lmsg by simp
  ultimately show ?thesis
    using ld lo getProof_height [of "?lo + 40" ?n "arr ?data" node _ "spec_of r" _ ?lo]
    by (simp add: on_state_message_def handle_STATE_PROOF_def StateProof_def proof_answer_def getProof_def
        resolved_height Let_def split: sum.split option.split)
qed

section \<open>Properties\<close>

text \<open>
  C17: state proofs. A request for a block, by number or by hash, an address and any number of
  storage keys is answered with the JSON of the proof of that address and of one storage
  proof for each of those keys, in order, at the height of that block; the key a storage query
  asks for is the address followed by the storage key. The appends that overwrite the message buffer
  while the keys are still to be read from it do no harm. Any failure is answered as invalid
  request data, except that a hash for which the node's answer has no block panics.
\<close>

theorem state_proof_of_request:
  assumes ref: "block_ref_ok r" and addr: "length address = SerializedHashedAccountsKeyBytes"
    and ks: "\<forall>k \<in> set ks. length k = StorageKeyBytes"
    and msg: "msg = OP_STATE_PROOF # block_ref_bytes r @ address @ concat ks"
    and len: "length msg \<le> BufferBytes"
  shows "on_state_message node url msg =
    (case createCometBFTClient node url of
       Inl _ \<Rightarrow> Ret [error_reply ErrInvalidRequestData]
     | Inr client \<Rightarrow>
         (case height_of node client r of
            Inl _ \<Rightarrow> Ret [error_reply ErrInvalidRequestData]
          | Inr None \<Rightarrow> Panic
          | Inr (Some height) \<Rightarrow>
              (case proof_spec node client height address ks of
                 Inl _ \<Rightarrow> Ret [error_reply ErrInvalidRequestData]
               | Inr result \<Rightarrow> Ret [STATUS_SUCCESS # bytes_of (account_result_json result)])))"
  using proof_request_answered [OF assms, of node url]
  by (simp add: proof_answer_def split: sum.split option.split)

definition sample_node :: "unit node_api" where
  "sample_node = \<lparr>WorkingHash = [1, 2], http_New = (\<lambda>_ _. Inr ()), Start = (\<lambda>_. None),
     Block = (\<lambda>_ h. if h = 5 then Inr (Some \<lparr>AppHash = [9], Height = 5\<rparr>) else Inl ''no block''),
     BlockByHash = (\<lambda>_ _. Inr None),
     QueryABCI = (\<lambda>_ q. Inr \<lparr>Value = (if Data q = slot 2 1 then [21] else []), ProofOps = Some [[1]]\<rparr>)\<rparr>"

lemma sample_proof:
  "proof_spec sample_node () h (acct 2) [slot 2 1] =
     (if h \<le> 2 then Inl ''proof queries at height <= 2 are not supported''
      else Inr \<lparr>AccountProof = [hexutil_Encode [1]],
        StorageProofs = [\<lparr>StorageValue = 0, StorageProof = [hexutil_Encode [1]]\<rparr>]\<rparr>)"
proof -
  have "acct 2 @ slot 2 1 \<noteq> slot 2 1"
    by (auto simp: length_sample dest!: arg_cong [where f = length])
  then show ?thesis
    by (simp add: sample_node_def proof_spec_def getProofForKey_def getHexProofs_def big_SetBytes_def)
qed

theorem state_proof_of_request_witness:
  "on_state_message sample_node ''u'' (OP_STATE_PROOF # 0 # be_bytes 5 @ acct 2 @ concat [slot 2 1]) =
      Ret [STATUS_SUCCESS # bytes_of (account_result_json \<lparr>AccountProof = [hexutil_Encode [1]],
        StorageProofs = [\<lparr>StorageValue = 0, StorageProof = [hexutil_Encode [1]]\<rparr>]\<rparr>)] \<and>
   on_state_message sample_node ''u'' (OP_STATE_PROOF # 1 # replicate 32 7 @ acct 2 @ concat [slot 2 1]) = Panic"
  using state_proof_of_request [of "AtNumber 5" "acct 2" "[slot 2 1]"
      "OP_STATE_PROOF # 0 # be_bytes 5 @ acct 2 @ concat [slot 2 1]" sample_node "''u''"]
    state_proof_of_request [of "AtHash (replicate 32 7)" "acct 2" "[slot 2 1]"
      "OP_STATE_PROOF # 1 # replicate 32 7 @ acct 2 @ concat [slot 2 1]" sample_node "''u''"]
    sample_proof
  by (simp add: length_sample createCometBFTClient_def) (simp add: sample_node_def)

text \<open>
  C31: the storage values of a state proof are always zero. The storage keys of a request are 80
  bytes, table key and subkey, and the code appends them to the 40-byte address: it queries a
  key of 120 bytes, and no row of the storages table has one. So whenever the router answers a
  proof request with a result, by number or by hash, the result has one storage proof for each
  key asked for and the value of each is zero (as long as the node answers a query of the
  storages by the row of its key at that height, empty when there is none).
\<close>

theorem state_proof_values_zero:
  assumes node: "\<And>client q res. Path q = ''store/hashed_storages/key'' \<Longrightarrow> QueryABCI node client q = Inr res \<Longrightarrow>
      Value res = (case M (QueryHeight q) (Data q) of None \<Rightarrow> [] | Some v \<Rightarrow> v)"
    and rows: "\<And>h. \<forall>x \<in> dom (M h). length x = StorageKeyBytes"
    and request: "block_ref_ok r" "length address = SerializedHashedAccountsKeyBytes"
      "\<forall>k \<in> set ks. length k = StorageKeyBytes"
      "msg = OP_STATE_PROOF # block_ref_bytes r @ address @ concat ks" "length msg \<le> BufferBytes"
    and run: "on_state_message node url msg = Ret [STATUS_SUCCESS # response]"
  shows "\<exists>result. response = bytes_of (account_result_json result) \<and>
    length (StorageProofs result) = length ks \<and>
    (\<forall>p \<in> set (StorageProofs result). StorageValue p = 0)"
proof -
  have absent: "M h (address @ k) = None" if "k \<in> set ks" for h k
  proof (rule ccontr)
    assume "M h (address @ k) \<noteq> None"
    then have "length (address @ k) = StorageKeyBytes" using rows by blast
    moreover have "length k = StorageKeyBytes" using request(3) that by blast
    ultimately show False using request(2) by simp
  qed
  have zero: "length ps = length ks \<and> (\<forall>p \<in> set ps. StorageValue p = 0)"
    if "query_all node client height address ks = Inr ps" "\<forall>k \<in> set ks. M height (address @ k) = None"
    for client height ps ks
    using that
  proof (induction ks arbitrary: ps)
    case (Cons k ks)
    have "Value res = []"
      if "QueryABCI node client \<lparr>Path = ''store/hashed_storages/key'', Data = address @ k,
        QueryHeight = height, Prove = True\<rparr> = Inr res" for res
      using node [OF _ that] Cons.prems(2) by simp
    then show ?case
      using Cons
      by (auto simp: getProofForKey_def HashedStoragesStoreName_def big_SetBytes_def
          split: if_splits sum.splits)
  qed simp
  obtain client height result where "proof_spec node client height address ks = Inr result"
    "response = bytes_of (account_result_json result)"
    using proof_request_answered [OF request, of node url] run
    by (auto simp: proof_answer_def error_reply_def STATUS_ERROR_def STATUS_SUCCESS_def
        split: sum.splits option.splits)
  then show ?thesis
    using zero absent by (fastforce simp: proof_spec_def split: sum.splits)
qed

theorem state_proof_values_zero_witness:
  "\<exists>response result. on_state_message sample_node ''u''
      (OP_STATE_PROOF # 0 # be_bytes 5 @ acct 2 @ concat [slot 2 1]) = Ret [STATUS_SUCCESS # response] \<and>
    response = bytes_of (account_result_json result) \<and> map StorageValue (StorageProofs result) = [0]"
proof -
  let ?msg = "OP_STATE_PROOF # 0 # be_bytes 5 @ acct 2 @ concat [slot 2 1]"
  obtain response where run: "on_state_message sample_node ''u'' ?msg = Ret [STATUS_SUCCESS # response]"
    using proof_request_answered [of "AtNumber 5" "acct 2" "[slot 2 1]" ?msg sample_node "''u''"] sample_proof
    by (simp add: length_sample proof_answer_def createCometBFTClient_def) (simp add: sample_node_def)
  have "\<exists>result. response = bytes_of (account_result_json result) \<and>
      length (StorageProofs result) = length [slot 2 1] \<and> (\<forall>p \<in> set (StorageProofs result). StorageValue p = 0)"
    by (rule state_proof_values_zero [where M = "\<lambda>_. [slot 2 1 \<mapsto> [21]]", OF _ _ _ _ _ _ _ run, of "AtNumber 5" "acct 2"])
      (auto simp: sample_node_def length_sample)
  then show ?thesis using run by (auto simp: length_Suc_conv)
qed

text \<open>
  C27: state roots. A request for height -1 is answered with the working hash of the commit
  store, one for a lower height is refused, and any other with the application hash of the
  block at that height, or the text of the RPC's error.
\<close>

theorem state_root_of_request:
  assumes block: "\<And>client. Block node client (sint height) \<noteq> Inr None"
  shows "on_state_message node url (OP_STATE_ROOT # be_bytes height) = Ret
    [if sint height < - 1 then error_reply ErrInvalidRequestData
     else if sint height = - 1 then STATUS_SUCCESS # WorkingHash node
     else (case createCometBFTClient node url of
             Inl err \<Rightarrow> STATUS_ERROR # bytes_of err
           | Inr client \<Rightarrow>
               (case Block node client (sint height) of
                  Inl err \<Rightarrow> STATUS_ERROR # bytes_of err
                | Inr b \<Rightarrow> STATUS_SUCCESS # AppHash (the b)))]"
proof -
  obtain msg where msg: "msg = OP_STATE_ROOT # be_bytes height" by simp
  obtain data where data: "data = buffer_of 4096 msg" by simp
  have "index_at data 0 = Some OP_STATE_ROOT" "len data = 9"
    by (simp_all add: data msg index_at_codes)
  moreover have "slice_range data 1 9 = Some (be_bytes height)"
    by (simp add: data msg slice_range_buffer_of)
  ultimately show ?thesis
    using block unfolding msg [symmetric]
    by (simp add: on_state_message_def handle_STATE_ROOT_def StateRoot_def be_uint64_bytes
        data [symmetric] text_reply_def error_reply_def split: sum.split option.split)
qed

theorem state_root_of_request_witness:
  "on_state_message sample_node ''u'' (OP_STATE_ROOT # be_bytes 5) = Ret [[STATUS_SUCCESS, 9]]"
  using state_root_of_request [of sample_node 5 "''u''"]
  by (simp add: sample_node_def createCometBFTClient_def)

end
