(* ===== verification/Evm_Util.thy ===== *)
theory Evm_Util imports State_Query begin

text \<open>
  Hexadecimal input of the EVM client: addresses (\<open>execution/evm/utils.go\<close>) and the JWT secret
  of the engine API (\<open>execution/evm/jwt.go\<close>), with \<open>encoding/hex\<close> and the parts of \<open>strings\<close> they
  use. A file is its characters; white space is the ASCII white space.
\<close>

section \<open>\<open>encoding/hex\<close> and \<open>strings\<close>\<close>

datatype hex_error = InvalidByteError char | ErrLength

definition hex_value :: "char \<Rightarrow> nat option" where
  "hex_value ch =
     (let n = of_char ch :: nat in
      if 48 \<le> n \<and> n \<le> 57 then Some (n - 48)
      else if 97 \<le> n \<and> n \<le> 102 then Some (n - 87)
      else if 65 \<le> n \<and> n \<le> 70 then Some (n - 55) else None)"

fun hex_DecodeString :: "string \<Rightarrow> hex_error + bytes" where
  "hex_DecodeString [] = Inr []"
| "hex_DecodeString [p] = (case hex_value p of None \<Rightarrow> Inl (InvalidByteError p) | Some _ \<Rightarrow> Inl ErrLength)"
| "hex_DecodeString (p # q # s) =
     (case hex_value p of
        None \<Rightarrow> Inl (InvalidByteError p)
      | Some a \<Rightarrow>
          (case hex_value q of
             None \<Rightarrow> Inl (InvalidByteError q)
           | Some b \<Rightarrow>
               (case hex_DecodeString s of
                  Inl err \<Rightarrow> Inl err
                | Inr bs \<Rightarrow> Inr (word_of_nat (16 * a + b) # bs))))"

definition TrimPrefix :: "string \<Rightarrow> string \<Rightarrow> string" where
  "TrimPrefix s p = (if take (length p) s = p then drop (length p) s else s)"

definition is_space :: "char \<Rightarrow> bool" where
  "is_space ch \<longleftrightarrow> of_char ch \<in> {9, 10, 11, 12, 13, 32 :: nat}"

definition TrimSpace :: "string \<Rightarrow> string" where
  "TrimSpace s = rev (dropWhile is_space (rev (dropWhile is_space s)))"

section \<open>Addresses and the JWT secret\<close>

datatype hex_input_error = HexError hex_error | InvalidLength nat | TooLong nat | ReadError string

definition hexToAddress :: "string \<Rightarrow> hex_input_error + bytes" where
  "hexToAddress hexStr =
     (case hex_DecodeString (TrimPrefix hexStr ''0x'') of
        Inl err \<Rightarrow> Inl (HexError err)
      | Inr decoded \<Rightarrow>
          if length decoded \<noteq> 20 then Inl (InvalidLength (length decoded)) else Inr decoded)"

definition getJWTFromPath :: "(string \<Rightarrow> string + string) \<Rightarrow> string \<Rightarrow> hex_input_error + bytes" where
  "getJWTFromPath read_file path =
     (case read_file path of
        Inl err \<Rightarrow> Inl (hex_input_error.ReadError err)
      | Inr data \<Rightarrow>
          (case hex_DecodeString (TrimPrefix (TrimSpace data) ''0x'') of
             Inl err \<Rightarrow> Inl (HexError err)
           | Inr bs \<Rightarrow>
               if 32 < length bs then Inl (TooLong (length bs))
               else Inr (bs @ replicate (32 - length bs) 0)))"

section \<open>Lemmas\<close>

definition hex_encode :: "bytes \<Rightarrow> string" where
  "hex_encode bs = concat (map (\<lambda>b. [hex_digit (unat b div 16), hex_digit (unat b mod 16)]) bs)"

lemma hexutil_Encode_eq: "hexutil_Encode bs = ''0x'' @ hex_encode bs"
  by (simp add: hexutil_Encode_def hex_encode_def)

lemma below_16: "n < 16 \<Longrightarrow> n \<in> {0 :: nat, 1, 2, 3, 4, 5, 6, 7, 8, 9, 10, 11, 12, 13, 14, 15}"
  by simp presburger

lemma hex_value_digit: "n < 16 \<Longrightarrow> hex_value (hex_digit n) = Some n"
  by (drule below_16, elim insertE emptyE) (simp_all add: hex_value_def hex_digit_def)

lemma hex_digit_plain: "n < 16 \<Longrightarrow> \<not> is_space (hex_digit n)"
  by (drule below_16, elim insertE emptyE) (simp_all add: is_space_def hex_digit_def)

lemma hex_decode_encode: "hex_DecodeString (hex_encode bs) = Inr bs"
proof (induction bs)
  case (Cons b bs)
  have d: "unat b div 16 < 16" "unat b mod 16 < 16" using unat_byte_less [of b] by auto
  have "(word_of_nat (16 * (unat b div 16) + unat b mod 16) :: byte) = b" by simp
  with Cons d show ?case by (simp add: hex_encode_def hex_value_digit)
qed (simp add: hex_encode_def)

lemma length_hex_decode: "hex_DecodeString s = Inr bs \<Longrightarrow> length s = 2 * length bs"
  by (induction s arbitrary: bs rule: hex_DecodeString.induct) (auto split: option.splits sum.splits)

lemma TrimPrefix_0x: "TrimPrefix (CHR ''0'' # CHR ''x'' # s) ''0x'' = s"
  by (simp add: TrimPrefix_def)

lemma hex_encode_no_0x: "TrimPrefix (hex_encode bs) ''0x'' = hex_encode bs"
proof (cases bs)
  case (Cons b rest)
  have "unat b mod 16 < 16" by simp
  then have "hex_value (hex_digit (unat b mod 16)) \<noteq> None" by (simp add: hex_value_digit)
  moreover have "hex_value (CHR ''x'') = None" by (simp add: hex_value_def)
  ultimately have "hex_digit (unat b mod 16) \<noteq> CHR ''x''" by metis
  then show ?thesis by (simp add: TrimPrefix_def hex_encode_def Cons)
qed (simp add: TrimPrefix_def hex_encode_def)

lemma TrimSpace_padded:
  assumes "s \<noteq> []" and "\<not> is_space (hd s)" and "\<not> is_space (last s)"
    and "list_all is_space u" and "list_all is_space v"
  shows "TrimSpace (u @ s @ v) = s"
proof -
  have left: "dropWhile is_space (u @ s @ v) = s @ v"
    using assms by (cases s) (auto simp: list_all_iff dropWhile_append2)
  have "dropWhile is_space (rev v @ rev s) = dropWhile is_space (rev s)"
    using assms(5) by (intro dropWhile_append2) (auto simp: list_all_iff)
  also have "\<dots> = rev s" using assms(1,3) by (cases s rule: rev_cases) auto
  finally have "dropWhile is_space (rev v @ rev s) = rev s" .
  then show ?thesis by (simp add: TrimSpace_def left)
qed

section \<open>Properties\<close>

text \<open>
  Addresses. \<open>hexToAddress\<close> inverts the hexadecimal form of every 20 bytes, with or without
  the prefix 0x, and refuses every other number of bytes with that number.
\<close>

theorem hexToAddress_roundtrip:
  "hexToAddress (hexutil_Encode bs) =
     (if length bs = 20 then Inr bs else Inl (InvalidLength (length bs))) \<and>
   hexToAddress (hex_encode bs) = hexToAddress (hexutil_Encode bs)"
  by (simp add: hexToAddress_def hexutil_Encode_eq TrimPrefix_0x hex_encode_no_0x hex_decode_encode)

text \<open>
  The JWT secret. A file with the hexadecimal form of up to 32 bytes, with or without 0x and
  surrounded by white space, is accepted and filled up with zero bytes to 32; more bytes are
  refused. In particular a file of white space alone is accepted, as the secret of 32 zero
  bytes, and a secret and the same secret followed by zero bytes are one secret.
\<close>

theorem jwt_secret_of_file:
  assumes "list_all is_space u" and "list_all is_space v"
    and content: "read_file path = Inr (u @ h @ v)" and h: "h = hexutil_Encode bs \<or> h = hex_encode bs"
  shows "getJWTFromPath read_file path =
    (if length bs \<le> 32 then Inr (bs @ replicate (32 - length bs) 0) else Inl (TooLong (length bs)))"
proof -
  have d: "unat b div 16 < 16" "unat b mod 16 < 16" for b :: byte
    using unat_byte_less [of b] by auto
  have plain: "\<not> is_space (hd (hex_encode bs))" "\<not> is_space (last (hex_encode bs))" if "bs \<noteq> []"
  proof -
    show "\<not> is_space (hd (hex_encode bs))"
      using that d hex_digit_plain by (cases bs) (simp_all add: hex_encode_def)
    show "\<not> is_space (last (hex_encode bs))"
      using that d hex_digit_plain by (cases bs rule: rev_cases) (simp_all add: hex_encode_def)
  qed
  have x: "\<not> is_space (CHR ''0'')" "\<not> is_space (CHR ''x'')" by (simp_all add: is_space_def)
  have "TrimSpace (u @ h @ v) = h"
  proof (cases "h = []")
    case True
    have dw: "dropWhile is_space (u @ v) = []" using assms(1,2) by (simp only: dropWhile_eq_Nil_conv) (auto simp: list_all_iff)
    show ?thesis unfolding TrimSpace_def True append_Nil dw by simp
  next
    case False
    then have "\<not> is_space (hd h)" "\<not> is_space (last h)"
      using h plain x by (cases "bs = []"; auto simp: hexutil_Encode_eq hex_encode_def)+
    with False show ?thesis using assms(1,2) by (intro TrimSpace_padded)
  qed
  then show ?thesis
    using h content
    by (auto simp: getJWTFromPath_def hexutil_Encode_eq TrimPrefix_0x hex_encode_no_0x hex_decode_encode)
qed

theorem jwt_secret_of_file_witness:
  "getJWTFromPath (\<lambda>_. Inr ('' '' @ hexutil_Encode [7, 9] @ [CHR 0x0A])) ''jwt.hex'' =
    Inr ([7, 9] @ replicate 30 0)"
  using jwt_secret_of_file [of "'' ''" "[CHR 0x0A]"
      "\<lambda>_. Inr ('' '' @ hexutil_Encode [7, 9] @ [CHR 0x0A])" "''jwt.hex''" "hexutil_Encode [7, 9]" "[7, 9]"]
  by (simp add: is_space_def)

end
