(* ===== verification/Go_Net.thy ===== *)
theory Go_Net imports Evm_Util begin

text \<open>
  IP addresses as Go's \<open>net\<close> package handles them: \<open>ParseIP\<close> of dotted and of colon-separated
  addresses, \<open>To4\<close>, \<open>String\<close> and \<open>IsGlobalUnicast\<close>; and \<open>strings.Split\<close>, \<open>strings.Join\<close> with a
  separator of one character. An address is its sixteen bytes, an IPv4 address the last four of
  them after the prefix of mapped addresses.
\<close>

section \<open>Decimal numbers\<close>

definition decimal_digit :: "nat \<Rightarrow> char" where
  "decimal_digit n = ''0123456789'' ! n"

fun decimal :: "nat \<Rightarrow> string" where
  "decimal n = (if n < 10 then [decimal_digit n] else decimal (n div 10) @ [decimal_digit (n mod 10)])"

declare decimal.simps [simp del]

definition is_digit :: "char \<Rightarrow> bool" where
  "is_digit ch \<longleftrightarrow> 48 \<le> (of_char ch :: nat) \<and> (of_char ch :: nat) \<le> 57"

definition digit_value :: "char \<Rightarrow> nat" where
  "digit_value ch = of_char ch - 48"

section \<open>Parsing\<close>

text \<open>
  \<open>parseIPv4Fields\<close>: the value and the number of digits of the current octet, and the octets
  before it. A dot needs a digit before it and a character after it.
\<close>

fun parse_ipv4 :: "nat \<Rightarrow> nat \<Rightarrow> bytes \<Rightarrow> string \<Rightarrow> bytes option" where
  "parse_ipv4 val digLen octets [] =
     (if length octets < 3 then None else Some (octets @ [word_of_nat val]))"
| "parse_ipv4 val digLen octets (ch # s) =
     (if is_digit ch then
        if digLen = 1 \<and> val = 0 then None
        else if 255 < val * 10 + digit_value ch then None
        else parse_ipv4 (val * 10 + digit_value ch) (digLen + 1) octets s
      else if ch = CHR ''.'' then
        if digLen = 0 \<or> s = [] then None
        else if length octets = 3 then None
        else parse_ipv4 0 0 (octets @ [word_of_nat val]) s
      else None)"

text \<open>A hexadecimal group: its value, its number of digits and the rest; more than four digits
  fail.\<close>

fun hex_group :: "nat \<Rightarrow> nat \<Rightarrow> string \<Rightarrow> (nat \<times> nat \<times> string) option" where
  "hex_group acc off [] = Some (acc, off, [])"
| "hex_group acc off (ch # s) =
     (case hex_value ch of
        None \<Rightarrow> Some (acc, off, ch # s)
      | Some d \<Rightarrow> if 3 < off then None else hex_group (16 * acc + d) (off + 1) s)"

text \<open>
  The loop of \<open>parseIPv6\<close>: \<open>ip\<close> are the bytes so far, \<open>ellipsis\<close> where the double colon is. The
  result is the bytes, the ellipsis and what is left of the string. Every round adds two bytes
  and stops at sixteen: eight rounds are enough.
\<close>

fun ipv6_groups :: "nat \<Rightarrow> nat option \<Rightarrow> bytes \<Rightarrow> string \<Rightarrow> (bytes \<times> nat option \<times> string) option" where
  "ipv6_groups 0 ellipsis ip s = Some (ip, ellipsis, s)"
| "ipv6_groups (Suc rounds) ellipsis ip s =
     (case hex_group 0 0 s of
        None \<Rightarrow> None
      | Some (acc, off, rest) \<Rightarrow>
          if off = 0 then None
          else if rest \<noteq> [] \<and> hd rest = CHR ''.'' then
            if ellipsis = None \<and> length ip \<noteq> 12 then None
            else if 16 < length ip + 4 then None
            else (case parse_ipv4 0 0 [] s of None \<Rightarrow> None | Some v4 \<Rightarrow> Some (ip @ v4, ellipsis, []))
          else
            let ip = ip @ [word_of_nat (acc div 256), word_of_nat acc] in
            (case rest of
               [] \<Rightarrow> Some (ip, ellipsis, [])
             | [_] \<Rightarrow> None
             | ch # ch' # rest' \<Rightarrow>
                 if ch \<noteq> CHR '':'' then None
                 else if ch' = CHR '':'' then
                   if ellipsis \<noteq> None then None
                   else if rest' = [] then Some (ip, Some (length ip), [])
                   else ipv6_groups rounds (Some (length ip)) ip rest'
                 else ipv6_groups rounds ellipsis ip (ch' # rest')))"

definition expand_ellipsis :: "bytes \<Rightarrow> nat option \<Rightarrow> bytes option" where
  "expand_ellipsis ip ellipsis =
     (if length ip < 16 then
        (case ellipsis of
           None \<Rightarrow> None
         | Some e \<Rightarrow> Some (take e ip @ replicate (16 - length ip) 0 @ drop e ip))
      else if ellipsis \<noteq> None then None else Some ip)"

text \<open>An address with a zone is no address for \<open>ParseIP\<close>.\<close>

definition parse_ipv6 :: "string \<Rightarrow> bytes option" where
  "parse_ipv6 s =
     (if CHR ''%'' \<in> set s then None
      else if s = ''::'' then Some (replicate 16 0)
      else
        (case (if take 2 s = ''::'' then ipv6_groups 8 (Some 0) [] (drop 2 s) else ipv6_groups 8 None [] s) of
           None \<Rightarrow> None
         | Some (ip, ellipsis, rest) \<Rightarrow> if rest \<noteq> [] then None else expand_ellipsis ip ellipsis))"

definition mapped_prefix :: bytes where
  "mapped_prefix = [0, 0, 0, 0, 0, 0, 0, 0, 0, 0, 255, 255]"

definition ParseIP :: "string \<Rightarrow> bytes option" where
  "ParseIP s =
     (case dropWhile (\<lambda>ch. ch \<notin> {CHR ''.'', CHR '':'', CHR ''%''}) s of
        [] \<Rightarrow> None
      | ch # _ \<Rightarrow>
          if ch = CHR ''.'' then map_option (\<lambda>v4. mapped_prefix @ v4) (parse_ipv4 0 0 [] s)
          else if ch = CHR '':'' then parse_ipv6 s
          else None)"

definition To4 :: "bytes \<Rightarrow> bytes option" where
  "To4 ip =
     (if length ip = 4 then Some ip
      else if length ip = 16 \<and> take 12 ip = mapped_prefix then Some (drop 12 ip) else None)"

section \<open>Printing\<close>

fun dotted :: "bytes \<Rightarrow> string" where
  "dotted [] = []"
| "dotted [b] = decimal (unat b)"
| "dotted (b # b' # bs) = decimal (unat b) @ ''.'' @ dotted (b' # bs)"

fun ip_groups :: "bytes \<Rightarrow> nat list" where
  "ip_groups (b # b' # bs) = (256 * unat b + unat b') # ip_groups bs"
| "ip_groups _ = []"

text \<open>\<open>string6\<close>: the longest run of at least two zero groups, the first of them, is printed as a
  double colon.\<close>

definition zero_run :: "nat list \<Rightarrow> nat \<Rightarrow> nat" where
  "zero_run gs i = length (takeWhile (\<lambda>g. g = 0) (drop i gs))"

definition longest_zero_run :: "nat list \<Rightarrow> (nat \<times> nat) option" where
  "longest_zero_run gs =
     foldl (\<lambda>best i. if 2 \<le> zero_run gs i \<and> (case best of None \<Rightarrow> True | Some (_, l) \<Rightarrow> l < zero_run gs i)
       then Some (i, zero_run gs i) else best) None [0..<length gs]"

fun join_with :: "char \<Rightarrow> string list \<Rightarrow> string" where
  "join_with sep [] = []"
| "join_with sep [s] = s"
| "join_with sep (s # s' # ss) = s @ [sep] @ join_with sep (s' # ss)"

definition string6 :: "bytes \<Rightarrow> string" where
  "string6 ip =
     (let gs = ip_groups ip in
      case longest_zero_run gs of
        None \<Rightarrow> join_with (CHR '':'') (map nat_hex gs)
      | Some (i, l) \<Rightarrow> join_with (CHR '':'') (map nat_hex (take i gs)) @ ''::'' @
          join_with (CHR '':'') (map nat_hex (drop (i + l) gs)))"

definition ip_String :: "bytes \<Rightarrow> string" where
  "ip_String ip = (case To4 ip of Some v4 \<Rightarrow> dotted v4 | None \<Rightarrow> string6 ip)"

unbundle bit_operations_syntax

text \<open>Not the broadcast address, unspecified, a loopback, multicast or link-local address.\<close>

definition IsGlobalUnicast :: "bytes \<Rightarrow> bool" where
  "IsGlobalUnicast ip \<longleftrightarrow>
     (case To4 ip of
        Some v4 \<Rightarrow> v4 \<noteq> [255, 255, 255, 255] \<and> v4 \<noteq> [0, 0, 0, 0] \<and> v4 ! 0 \<noteq> 127 \<and>
          v4 ! 0 AND 0xF0 \<noteq> 0xE0 \<and> \<not> (v4 ! 0 = 169 \<and> v4 ! 1 = 254)
      | None \<Rightarrow> length ip = 16 \<and> ip \<noteq> replicate 16 0 \<and> ip \<noteq> replicate 15 0 @ [1] \<and>
          ip ! 0 \<noteq> 255 \<and> \<not> (ip ! 0 = 254 \<and> ip ! 1 AND 0xC0 = 0x80))"

section \<open>\<open>strings.Split\<close>\<close>

fun split_at :: "char \<Rightarrow> string \<Rightarrow> string list" where
  "split_at sep [] = [[]]"
| "split_at sep (ch # s) =
     (if ch = sep then [] # split_at sep s
      else (case split_at sep s of [] \<Rightarrow> [[ch]] | p # ps \<Rightarrow> (ch # p) # ps))"

lemma split_at_no_sep: "sep \<notin> set s \<Longrightarrow> split_at sep s = [s]"
  by (induction s) auto

lemma split_at_append: "sep \<notin> set s \<Longrightarrow> split_at sep (s @ sep # t) = s # split_at sep t"
  by (induction s) auto

lemma split_join: "ss \<noteq> [] \<Longrightarrow> (\<And>s. s \<in> set ss \<Longrightarrow> sep \<notin> set s) \<Longrightarrow> split_at sep (join_with sep ss) = ss"
  by (induction sep ss rule: join_with.induct) (simp_all add: split_at_no_sep split_at_append)

section \<open>Printed addresses are parsed back\<close>

lemma of_char_decimal_digit: "n < 10 \<Longrightarrow> of_char (decimal_digit n) = 48 + n"
proof -
  assume "n < 10"
  then have "n \<in> {0, 1, 2, 3, 4, 5, 6, 7, 8, 9}" by simp presburger
  then show ?thesis by (elim insertE emptyE) (simp_all add: decimal_digit_def)
qed

lemma decimal_digit_value: "n < 10 \<Longrightarrow> digit_value (decimal_digit n) = n"
  by (simp add: digit_value_def of_char_decimal_digit)

lemma decimal_digit_is_digit: "n < 10 \<Longrightarrow> is_digit (decimal_digit n)"
  by (simp add: is_digit_def of_char_decimal_digit)

lemma decimal_small:
  "n < 10 \<Longrightarrow> decimal n = [decimal_digit n]"
  "10 \<le> n \<Longrightarrow> n < 100 \<Longrightarrow> decimal n = [decimal_digit (n div 10), decimal_digit (n mod 10)]"
  "100 \<le> n \<Longrightarrow> n < 1000 \<Longrightarrow> decimal n =
     [decimal_digit (n div 100), decimal_digit (n div 10 mod 10), decimal_digit (n mod 10)]"
proof -
  show one: "n < 10 \<Longrightarrow> decimal n = [decimal_digit n]" for n by (simp add: decimal.simps [of n])
  show two: "10 \<le> n \<Longrightarrow> n < 100 \<Longrightarrow> decimal n = [decimal_digit (n div 10), decimal_digit (n mod 10)]" for n
    by (simp add: decimal.simps [of n] one)
  show "100 \<le> n \<Longrightarrow> n < 1000 \<Longrightarrow> decimal n =
     [decimal_digit (n div 100), decimal_digit (n div 10 mod 10), decimal_digit (n mod 10)]"
    by (simp add: decimal.simps [of n] two flip: div_mult2_eq)
qed

lemma decimal_digits: "ch \<in> set (decimal n) \<Longrightarrow> is_digit ch"
proof (induction n rule: decimal.induct)
  case (1 n)
  then show ?case
    by (cases "n < 10") (auto simp: decimal.simps [of n] decimal_digit_is_digit)
qed

lemma not_digit [simp]: "\<not> is_digit (CHR ''.'')" "\<not> is_digit (CHR '':'')" "\<not> is_digit (CHR ''%'')"
  "\<not> is_digit (CHR '','')"
  by (simp_all add: is_digit_def)

lemma decimal_not_Nil [simp]: "decimal n \<noteq> []"
  by (subst decimal.simps) simp

lemma parse_decimal:
  assumes "n < 256"
  shows "parse_ipv4 0 0 octets (decimal n @ s) = parse_ipv4 n (length (decimal n)) octets s"
proof -
  have digits: "n div 10 mod 10 < 10" "n mod 10 < 10" by simp_all
  consider "n < 10" | "10 \<le> n" "n < 100" | "100 \<le> n" by linarith
  then show ?thesis
  proof cases
    case 1
    then show ?thesis by (simp add: decimal_small decimal_digit_is_digit decimal_digit_value)
  next
    case 2
    then have "n div 10 < 10" "0 < n div 10" by (simp_all add: div_greater_zero_iff)
    with 2 show ?thesis by (simp add: decimal_small decimal_digit_is_digit decimal_digit_value)
  next
    case 3
    then have d: "n div 100 < 10" "0 < n div 100" using assms by (simp_all add: div_greater_zero_iff)
    have "n div 10 \<le> 255" using assms by simp
    have "n div 100 = n div 10 div 10" by (simp flip: div_mult2_eq)
    then have "n div 100 * 10 + n div 10 mod 10 = n div 10" by (simp add: div_mult_mod_eq)
    with 3 d assms \<open>n div 10 \<le> 255\<close> show ?thesis
      by (simp add: decimal_small decimal_digit_is_digit decimal_digit_value)
  qed
qed

lemma length_decimal_pos: "length (decimal n) \<noteq> 0" by simp

lemma parse_dotted: "parse_ipv4 0 0 [] (dotted [a, b, c, d]) = Some [a, b, c, d]"
  using unat_byte_less [of a] unat_byte_less [of b] unat_byte_less [of c] unat_byte_less [of d]
  by (simp add: parse_decimal parse_decimal [where s = "[]", simplified])

lemma ParseIP_dotted: "ParseIP (dotted [a, b, c, d]) = Some (mapped_prefix @ [a, b, c, d])"
proof -
  have "dropWhile (\<lambda>ch. ch \<notin> {CHR ''.'', CHR '':'', CHR ''%''}) (decimal n @ CHR ''.'' # s) = CHR ''.'' # s" for n s
    by (subst dropWhile_append2) (auto dest: decimal_digits)
  then have "\<exists>s. dropWhile (\<lambda>ch. ch \<notin> {CHR ''.'', CHR '':'', CHR ''%''}) (dotted [a, b, c, d]) = CHR ''.'' # s"
    by simp
  then show ?thesis using parse_dotted by (auto simp: ParseIP_def)
qed

lemma To4_mapped: "length v4 = 4 \<Longrightarrow> To4 (mapped_prefix @ v4) = Some v4"
  by (simp add: To4_def mapped_prefix_def)

end
