(* ===== verification/Go_Path.thy ===== *)
theory Go_Path imports Go_Net begin

text \<open>
  Paths as \<open>path/filepath\<close> handles them on Unix: \<open>Clean\<close>, \<open>Join\<close> and \<open>Dir\<close>, over the parts
  between the separators.
\<close>

section \<open>Paths\<close>

fun clean_parts :: "bool \<Rightarrow> string list \<Rightarrow> string list \<Rightarrow> string list" where
  "clean_parts rooted acc [] = rev acc"
| "clean_parts rooted acc (p # ps) =
     (if p = [] \<or> p = ''.'' then clean_parts rooted acc ps
      else if p = ''..'' then
        (case acc of
           [] \<Rightarrow> clean_parts rooted (if rooted then [] else [p]) ps
         | q # qs \<Rightarrow> clean_parts rooted (if q = ''..'' then p # acc else qs) ps)
      else clean_parts rooted (p # acc) ps)"

definition filepath_Clean :: "string \<Rightarrow> string" where
  "filepath_Clean path =
     (let rooted = (take 1 path = ''/'');
          clean = join_with (CHR ''/'') (clean_parts rooted [] (split_at (CHR ''/'') path)) in
      if rooted then CHR ''/'' # clean else if clean = [] then ''.'' else clean)"

definition filepath_Join :: "string list \<Rightarrow> string" where
  "filepath_Join elems =
     (let elems = dropWhile (\<lambda>s. s = []) elems in
      if elems = [] then [] else filepath_Clean (join_with (CHR ''/'') elems))"

text \<open>\<open>Dir\<close> is what precedes the last separator, cleaned.\<close>

definition filepath_Dir :: "string \<Rightarrow> string" where
  "filepath_Dir path = filepath_Clean (rev (dropWhile (\<lambda>ch. ch \<noteq> CHR ''/'') (rev path)))"

lemma Dir_of_socket: "filepath_Dir ''/tmp/ipc/scalerize.sock'' = ''/tmp/ipc''"
  by (simp add: filepath_Dir_def filepath_Clean_def)

end
