(* ===== verification/Router_Socket.thy ===== *)
theory Router_Socket imports Db_System Go_Path begin

text \<open>
  The sockets of the two routers (\<open>StartDBRouter\<close> in \<open>app/db_transport.go\<close>, \<open>StartStateRouter\<close> in
  \<open>app/state_transport.go\<close>): what is done before the first connection, and the loop that accepts
  connections. The file system and the socket are not code of the repository: the record
  \<open>socket_api\<close>. The results of \<open>l.Accept()\<close> are an input; a connection is a number.
\<close>

section \<open>Listening\<close>

record ('w, 'l) socket_api =
  os_Remove :: "string \<Rightarrow> 'w \<Rightarrow> 'w"
  os_MkdirAll :: "string \<Rightarrow> 'w \<Rightarrow> (string + unit) \<times> 'w"
  ListenUnix :: "string \<Rightarrow> 'w \<Rightarrow> (string + 'l) \<times> 'w"

text \<open>\<open>if err != nil { panic(err) }\<close> after \<open>net.ListenUnix\<close>.\<close>

definition must_listen :: "('w, 'l) socket_api \<Rightarrow> string \<Rightarrow> 'w \<Rightarrow> 'l outcome \<times> 'w" where
  "must_listen net path w =
     (case ListenUnix net path w of (Inl err, w1) \<Rightarrow> (Panic, w1) | (Inr l, w1) \<Rightarrow> (Ret l, w1))"

text \<open>
  The database router up to its loop: the old socket goes before the type of the client is
  looked at, and the cached store is made before the directory.
\<close>

definition listen_db :: "('w, 'l) socket_api \<Rightarrow> ('ms, 'cs) store_api \<Rightarrow> string \<Rightarrow> string \<Rightarrow>
    ('ms, 'cs) app \<Rightarrow> 'w \<Rightarrow> (('ms, 'cs) system \<times> 'l) outcome \<times> 'w" where
  "listen_db net api socketPath clientType a w =
     (let w = os_Remove net socketPath w in
      case StartDBRouter api clientType a of
        Ret s \<Rightarrow>
          (case os_MkdirAll net (filepath_Dir socketPath) w of
             (Inl err, w) \<Rightarrow> (Panic, w)
           | (Inr _, w) \<Rightarrow>
               (case must_listen net socketPath w of (r, w) \<Rightarrow> (map_outcome (Pair s) r, w)))
      | Panic \<Rightarrow> (Panic, w)
      | Blocked \<Rightarrow> (Blocked, w))"

text \<open>The state router does not look at the type of the client, and makes no directory.\<close>

definition listen_state :: "('w, 'l) socket_api \<Rightarrow> string \<Rightarrow> string \<Rightarrow> 'w \<Rightarrow> 'l outcome \<times> 'w" where
  "listen_state net socketPath clientType w = must_listen net socketPath (os_Remove net socketPath w)"

section \<open>Accepting\<close>

datatype accept_result = Accepted nat | AcceptError string

text \<open>An error is logged and the loop goes on; a connection gets a goroutine.\<close>

fun accept_events :: "accept_result list \<Rightarrow> event list" where
  "accept_events [] = []"
| "accept_events (Accepted c # rs) = Accept c # accept_events rs"
| "accept_events (AcceptError err # rs) = accept_events rs"

fun accepted_conns :: "accept_result list \<Rightarrow> nat list" where
  "accepted_conns [] = []"
| "accepted_conns (Accepted c # rs) = c # accepted_conns rs"
| "accepted_conns (AcceptError err # rs) = accepted_conns rs"

lemma accept_run:
  assumes "\<not> crashed s" and "distinct (accepted_conns rs)" and "\<forall>c \<in> set (accepted_conns rs). conns s c = None"
  shows "system_run api s (accept_events rs)
    (s\<lparr>conns := (\<lambda>c. if c \<in> set (accepted_conns rs) then Some AtTop else conns s c)\<rparr>)"
  using assms
proof (induction rs arbitrary: s rule: accept_events.induct)
  case 1
  then show ?case by (simp add: run_Nil_iff)
next
  case (2 c rs)
  let ?s = "s\<lparr>conns := (conns s)(c \<mapsto> AtTop)\<rparr>"
  have "system_step api s (Accept c) ?s" using 2 by (simp add: accept)
  moreover have "system_run api ?s (accept_events rs)
      (?s\<lparr>conns := (\<lambda>d. if d \<in> set (accepted_conns rs) then Some AtTop else conns ?s d)\<rparr>)"
    using 2 by (intro "2.IH") auto
  moreover have "?s\<lparr>conns := (\<lambda>d. if d \<in> set (accepted_conns rs) then Some AtTop else conns ?s d)\<rparr> =
      s\<lparr>conns := (\<lambda>d. if d \<in> set (accepted_conns (Accepted c # rs)) then Some AtTop else conns s d)\<rparr>"
    by (auto simp: fun_eq_iff)
  ultimately show ?case by (auto simp: run_Cons_iff)
qed simp

text \<open>A router that listens is one that started, with its directory made and its socket new.\<close>

lemma listen_db_Ret_iff:
  "listen_db net api socketPath clientType a w = (Ret (s, l), w2) \<longleftrightarrow>
     (\<exists>w1. StartDBRouter api clientType a = Ret s \<and>
        os_MkdirAll net (filepath_Dir socketPath) (os_Remove net socketPath w) = (Inr (), w1) \<and>
        ListenUnix net socketPath w1 = (Inr l, w2))"
  by (auto simp: listen_db_def must_listen_def Let_def split: outcome.splits prod.splits sum.splits)

section \<open>Properties\<close>

text \<open>
  The accept loop. Once the database router listens, whatever \<open>Accept\<close> returns, errors
  included, every accepted connection has a handler at the top of its loop, no other connection
  has one, and accepting touches neither the stores, the cursors nor the locks. (The socket's
  directory and the socket itself were made, or the start would have panicked.)
\<close>

theorem accepting_serves_all:
  assumes "listen_db net api socketPath EVM a w = (Ret (s, l), w')"
    and "distinct (accepted_conns rs)"
  shows "\<exists>s'. system_run api s (accept_events rs) s' \<and> shared s' = shared s \<and> \<not> crashed s' \<and> sent s' = [] \<and>
    dom (conns s') = set (accepted_conns rs) \<and> ran (conns s') \<subseteq> {AtTop}"
proof -
  have s: "\<not> crashed s" "conns s = Map.empty" "sent s = []"
    using assms(1) by (auto simp: listen_db_Ret_iff StartDBRouter_def)
  let ?s = "s\<lparr>conns := (\<lambda>c. if c \<in> set (accepted_conns rs) then Some AtTop else conns s c)\<rparr>"
  have "system_run api s (accept_events rs) ?s"
    using accept_run [of s rs api] s assms(2) by simp
  moreover have "dom (conns ?s) = set (accepted_conns rs)" "ran (conns ?s) \<subseteq> {AtTop}"
    using s(2) by (auto simp: ran_def split: if_splits)
  ultimately show ?thesis using s by (intro exI [of _ ?s]) simp
qed

text \<open>Sockets as the set of the paths that are bound.\<close>

definition sample_sockets :: "(string set, string) socket_api" where
  "sample_sockets = \<lparr>os_Remove = (\<lambda>p w. w - {p}), os_MkdirAll = (\<lambda>p w. (Inr (), w)),
     ListenUnix = (\<lambda>p w. if p \<in> w then (Inl ''address already in use'', w) else (Inr p, insert p w))\<rparr>"

theorem accepting_serves_all_witness:
  "\<exists>s l w' s'. listen_db sample_sockets journal_api ''/tmp/ipc/s'' EVM sample_app {''/tmp/ipc/s''} = (Ret (s, l), w') \<and>
    system_run journal_api s [Accept 1, Accept 2] s' \<and> dom (conns s') = {1, 2}"
proof -
  obtain s l w' where start: "listen_db sample_sockets journal_api ''/tmp/ipc/s'' EVM sample_app {''/tmp/ipc/s''} = (Ret (s, l), w')"
    by (simp add: listen_db_def must_listen_def StartDBRouter_def sample_sockets_def)
  have "distinct (accepted_conns [Accepted 1, AcceptError ''too many open files'', Accepted 2])" by simp
  from accepting_serves_all [OF start this] obtain s' where
    "system_run journal_api s [Accept 1, Accept 2] s'" "dom (conns s') = {1, 2}"
    by (auto simp del: dom_def)
  with start show ?thesis by blast
qed

end
