(* ===== verification/Go_Call.thy ===== *)
theory Go_Call imports Go_Base begin

text \<open>
  Calls with effects on a world \<open>'w\<close> that is not code of the repository: a call returns a value
  or an error (usually a text), or it panics, and it changes the world. The composition runs the second
  call only if the first one returned a value, as \<open>if err != nil { return err }\<close> does.
\<close>

type_synonym ('w, 'e, 'a) fallible = "'w \<Rightarrow> ('e + 'a) outcome \<times> 'w"
type_synonym ('w, 'a) call = "('w, string, 'a) fallible"

definition return_call :: "'a \<Rightarrow> ('w, 'e, 'a) fallible" where
  "return_call x w = (Ret (Inr x), w)"

definition fail_call :: "'e \<Rightarrow> ('w, 'e, 'a) fallible" where
  "fail_call err w = (Ret (Inl err), w)"

definition panic_call :: "('w, 'e, 'a) fallible" where
  "panic_call w = (Panic, w)"

definition bind_call :: "('w, 'e, 'a) fallible \<Rightarrow> ('a \<Rightarrow> ('w, 'e, 'b) fallible) \<Rightarrow> ('w, 'e, 'b) fallible" where
  "bind_call m f w =
     (case m w of
        (Ret (Inr x), w1) \<Rightarrow> f x w1
      | (Ret (Inl err), w1) \<Rightarrow> (Ret (Inl err), w1)
      | (Panic, w1) \<Rightarrow> (Panic, w1)
      | (Blocked, w1) \<Rightarrow> (Blocked, w1))"

definition lift_sum :: "'e + 'a \<Rightarrow> ('w, 'e, 'a) fallible" where
  "lift_sum x w = (Ret x, w)"

definition lift_world :: "('w \<Rightarrow> ('e + 'a) \<times> 'w) \<Rightarrow> ('w, 'e, 'a) fallible" where
  "lift_world f w = (case f w of (x, w1) \<Rightarrow> (Ret x, w1))"

lemma bind_call_Ret_iff:
  "bind_call m f w = (Ret (Inr y), w2) \<longleftrightarrow> (\<exists>x w1. m w = (Ret (Inr x), w1) \<and> f x w1 = (Ret (Inr y), w2))"
  by (auto simp: bind_call_def split: prod.splits outcome.splits sum.splits)

lemma call_Ret_iffs:
  "return_call x w = (Ret (Inr y), w1) \<longleftrightarrow> y = x \<and> w1 = w"
  "fail_call err w \<noteq> (Ret (Inr y), w1)"
  "panic_call w \<noteq> (Ret (Inr y), w1)"
  "lift_sum s w = (Ret (Inr y), w1) \<longleftrightarrow> s = Inr y \<and> w1 = w"
  by (auto simp: return_call_def fail_call_def panic_call_def lift_sum_def)

lemma bind_call_simps:
  "bind_call (return_call x) f = f x"
  "bind_call (lift_sum (Inr x)) f = f x"
  "bind_call (lift_sum (Inl err)) f = fail_call err"
  "bind_call (fail_call err) f = fail_call err"
  "bind_call panic_call f = panic_call"
  by (simp_all add: fun_eq_iff bind_call_def return_call_def fail_call_def panic_call_def lift_sum_def)

text \<open>A loop over a list that stops at the first error.\<close>

fun each_call :: "('x \<Rightarrow> ('w, 'e, unit) fallible) \<Rightarrow> 'x list \<Rightarrow> ('w, 'e, unit) fallible" where
  "each_call f [] = return_call ()"
| "each_call f (x # xs) = bind_call (f x) (\<lambda>_. each_call f xs)"

text \<open>The panic of \<open>if err != nil { panic(err) }\<close>.\<close>

definition or_panic :: "('w, 'e, 'a) fallible \<Rightarrow> ('w, 'e, 'a) fallible" where
  "or_panic m w = (case m w of (Ret (Inl _), w1) \<Rightarrow> (Panic, w1) | r \<Rightarrow> r)"

lemma or_panic_Ret_iff: "or_panic m w = (Ret (Inr x), w1) \<longleftrightarrow> m w = (Ret (Inr x), w1)"
  by (auto simp: or_panic_def split: prod.splits outcome.splits sum.splits)

lemma each_call_Cons_iff:
  "each_call f (x # xs) w = (Ret (Inr y), w2) \<longleftrightarrow>
     (\<exists>u w1. f x w = (Ret (Inr u), w1) \<and> each_call f xs w1 = (Ret (Inr y), w2))"
  by (simp add: bind_call_Ret_iff)

end
