(* ===== verification/App_Accessors.thy ===== *)
theory App_Accessors imports Go_Call begin

text \<open>
  The stores and routes of the application (\<open>GetKey\<close>, \<open>kvStoreKeys\<close> and \<open>RegisterAPIRoutes\<close> in
  \<open>app/app.go\<close>). The SDK's application is the record \<open>runtime_app\<close>; a store key is of the
  key-value type or of another one, and a failed type assertion gives nil.
\<close>

datatype store_key = KVStoreKey string | OtherStoreKey string

fun key_name :: "store_key \<Rightarrow> string" where
  "key_name (KVStoreKey n) = n"
| "key_name (OtherStoreKey n) = n"

record 'w runtime_app =
  GetStoreKeys :: "store_key list"
  UnsafeFindStoreKey :: "string \<Rightarrow> store_key option"
  app_RegisterAPIRoutes :: "'w \<Rightarrow> 'w"
  RegisterSwaggerAPI :: "'w \<Rightarrow> (string + unit) \<times> 'w"

fun as_kv :: "store_key option \<Rightarrow> string option" where
  "as_kv (Some (KVStoreKey n)) = Some n"
| "as_kv _ = None"

definition GetKey :: "'w runtime_app \<Rightarrow> string \<Rightarrow> string option" where
  "GetKey app storeKey = as_kv (UnsafeFindStoreKey app storeKey)"

fun collect_keys :: "store_key list \<Rightarrow> (string \<rightharpoonup> string) \<Rightarrow> string \<rightharpoonup> string" where
  "collect_keys [] keys = keys"
| "collect_keys (k # ks) keys =
     collect_keys ks (case as_kv (Some k) of Some kv \<Rightarrow> keys(kv \<mapsto> kv) | None \<Rightarrow> keys)"

definition kvStoreKeys :: "'w runtime_app \<Rightarrow> string \<rightharpoonup> string" where
  "kvStoreKeys app = collect_keys (GetStoreKeys app) Map.empty"

definition RegisterAPIRoutes :: "'w runtime_app \<Rightarrow> ('w, unit) call" where
  "RegisterAPIRoutes app w = or_panic (lift_world (RegisterSwaggerAPI app)) (app_RegisterAPIRoutes app w)"

text \<open>
  The two views of the key-value stores agree, where the SDK finds a store by the first key with
  the name and no two stores share a name.
\<close>

lemma collect_keys_at:
  "collect_keys ks keys n = (if KVStoreKey n \<in> set ks then Some n else keys n)"
proof (induction ks arbitrary: keys)
  case (Cons k ks)
  then show ?case by (cases k) auto
qed simp

lemma find_named:
  "distinct (map key_name ks) \<Longrightarrow> as_kv (find (\<lambda>k. key_name k = n) ks) = (if KVStoreKey n \<in> set ks then Some n else None)"
proof (induction ks)
  case (Cons k ks)
  then show ?case by (cases k) (force simp: find_None_iff)+
qed simp

lemma kvStoreKeys_GetKey:
  assumes "\<And>n. UnsafeFindStoreKey app n = find (\<lambda>k. key_name k = n) (GetStoreKeys app)"
    and "distinct (map key_name (GetStoreKeys app))"
  shows "kvStoreKeys app = GetKey app"
  by (simp add: fun_eq_iff kvStoreKeys_def GetKey_def assms find_named collect_keys_at)

end
