(* ===== verification/Testnet.thy ===== *)
theory Testnet imports Go_Net begin

text \<open>
  The addresses of a local testnet (\<open>client/testnet.go\<close>): counting up from a starting address,
  checking a list of addresses given on the command line, and the address each node gets. The
  machine's external address is a parameter (\<open>sdkserver.ExternalIP\<close>). An error is a value of
  \<open>ip_error\<close>, with the data of its text.
\<close>

section \<open>Addresses of the nodes\<close>

datatype ip_error = NonIPv4 string | Overflow int | WrongCount int nat | InvalidFormat string
  | NotGlobalUnicast string | ExternalError string | InvalidNumber

text \<open>The loop of \<open>calculateIP\<close>: the last byte of the address wraps to zero after 255.\<close>

fun increments :: "nat \<Rightarrow> bytes \<Rightarrow> bytes option" where
  "increments 0 ipv4 = Some ipv4"
| "increments (Suc j) ipv4 =
     (let ipv4 = ipv4[3 := ipv4 ! 3 + 1] in
      if ipv4 ! 3 = 0 then None else increments j ipv4)"

definition calculateIP :: "string \<Rightarrow> int \<Rightarrow> ip_error + string" where
  "calculateIP ip i =
     (case Option.bind (ParseIP ip) To4 of
        None \<Rightarrow> Inl (NonIPv4 ip)
      | Some ipv4 \<Rightarrow>
          (case increments (nat i) ipv4 of
             None \<Rightarrow> Inl (Overflow i)
           | Some ipv4 \<Rightarrow> Inr (ip_String ipv4)))"

definition getIP :: "string + string \<Rightarrow> int \<Rightarrow> string \<Rightarrow> ip_error + string" where
  "getIP externalIP i startingIPAddr =
     (if length startingIPAddr = 0 then map_sum ExternalError id externalIP
      else calculateIP startingIPAddr i)"

section \<open>Addresses of the command line\<close>

fun validate_each :: "string list \<Rightarrow> ip_error + string list" where
  "validate_each [] = Inr []"
| "validate_each (ipStr # ips) =
     (case ParseIP (TrimSpace ipStr) of
        None \<Rightarrow> Inl (InvalidFormat (TrimSpace ipStr))
      | Some ip \<Rightarrow>
          if \<not> IsGlobalUnicast ip then Inl (NotGlobalUnicast (TrimSpace ipStr))
          else map_sum id ((#) (ip_String ip)) (validate_each ips))"

definition validateIPAddresses :: "string list \<Rightarrow> int \<Rightarrow> ip_error + string list" where
  "validateIPAddresses ipList numValidators =
     (if int (length ipList) \<noteq> numValidators then Inl (WrongCount numValidators (length ipList))
      else validate_each ipList)"

text \<open>The flag, rewritten before the files are made (\<open>testnetInitFilesCmd\<close>).\<close>

definition checked_addresses :: "string \<Rightarrow> int \<Rightarrow> ip_error + string" where
  "checked_addresses ipAddresses numValidators =
     (if ipAddresses = [] then Inr []
      else map_sum id (join_with (CHR '','')) (validateIPAddresses (split_at (CHR '','') ipAddresses) numValidators))"

text \<open>The addresses \<open>initTestnetFiles\<close> gives the nodes 0, 1, ...: those of the flag, or counted up.
  (A negative number of nodes panics before, when the array of the node identities is made.)\<close>

definition listed_addresses :: "string \<Rightarrow> int \<Rightarrow> ip_error + string list" where
  "listed_addresses ipAddresses numValidators =
     (let addresses = split_at (CHR '','') ipAddresses in
      if int (length addresses) \<noteq> numValidators then Inl InvalidNumber else Inr addresses)"

fun collect :: "('a \<Rightarrow> 'e + 'b) \<Rightarrow> 'a list \<Rightarrow> 'e + 'b list" where
  "collect f [] = Inr []"
| "collect f (x # xs) =
     (case f x of Inl err \<Rightarrow> Inl err | Inr y \<Rightarrow> map_sum id ((#) y) (collect f xs))"

definition node_addresses :: "string + string \<Rightarrow> string \<Rightarrow> string \<Rightarrow> int \<Rightarrow> ip_error + string list" where
  "node_addresses externalIP ipAddresses startingIPAddr numValidators =
     (if ipAddresses \<noteq> [] then listed_addresses ipAddresses numValidators
      else collect (\<lambda>i. getIP externalIP (int i) startingIPAddr) [0..<nat numValidators])"

section \<open>Lemmas\<close>

lemma increments_last:
  "increments j [a, b, c, d] =
     (if unat d + j < 256 then Some [a, b, c, d + word_of_nat j] else None)"
proof (induction j arbitrary: d)
  case 0
  then show ?case using unat_byte_less [of d] by simp
next
  case (Suc j)
  show ?case
  proof (cases "d = 255")
    case True
    then show ?thesis by simp
  next
    case False
    then have "unat d \<noteq> 255" by unat_arith
    then have u: "unat (d + 1) = unat d + 1"
      using unat_byte_less [of d] by (simp add: unat_word_ariths)
    then have "d + 1 \<noteq> 0" by (metis Suc_eq_plus1 nat.distinct(1) unat_0)
    note this u
    then show ?thesis using Suc [of "d + 1"] by (simp add: ac_simps)
  qed
qed

lemma ip_String_dotted: "length v4 = 4 \<Longrightarrow> ip_String v4 = dotted v4"
  by (simp add: ip_String_def To4_def)

lemma calculateIP_dotted:
  "calculateIP (dotted [a, b, c, d]) i =
     (if unat d + nat i < 256 then Inr (dotted [a, b, c, d + word_of_nat (nat i)]) else Inl (Overflow i))"
  by (simp add: calculateIP_def ParseIP_dotted To4_mapped increments_last ip_String_dotted del: dotted.simps)

lemma collect_append:
  "collect f (xs @ ys) = (case collect f xs of Inl err \<Rightarrow> Inl err | Inr zs \<Rightarrow> map_sum id ((@) zs) (collect f ys))"
proof (induction xs)
  case Nil
  show ?case by (cases "collect f ys") simp_all
next
  case (Cons x xs)
  then show ?case by (cases "f x"; cases "collect f xs"; cases "collect f ys") simp_all
qed

lemma collect_map: "(\<And>x. x \<in> set xs \<Longrightarrow> f x = Inr (g x)) \<Longrightarrow> collect f xs = Inr (map g xs)"
  by (induction xs) simp_all

lemma collect_error:
  assumes "\<And>i. i < m \<Longrightarrow> f i = Inr (g i)" and "f m = Inl err" and "m < n"
  shows "collect f [0..<n] = Inl err"
proof -
  have "[0..<n] = [0..<m] @ m # [Suc m..<n]"
    using assms(3) by (metis le_add1 le_add_same_cancel1 less_imp_le_nat upt_add_eq_append upt_conv_Cons add_0 le_add_diff_inverse)
  moreover have "collect f [0..<m] = Inr (map g [0..<m])"
    using assms(1) by (intro collect_map) simp
  ultimately show ?thesis using assms(2) by (simp add: collect_append)
qed

lemma dotted_inject: "dotted [a, b, c, d] = dotted [a', b', c', d'] \<Longrightarrow> [a, b, c, d] = [a', b', c', d']"
  by (metis option.inject parse_dotted)

section \<open>No commas in printed addresses\<close>

lemma dotted_chars: "ch \<in> set (dotted bs) \<Longrightarrow> is_digit ch \<or> ch = CHR ''.''"
  by (induction bs rule: dotted.induct) (auto dest: decimal_digits)

lemma hex_chars: "ch \<in> set (nat_hex n) \<Longrightarrow> \<exists>d < 16. ch = hex_digit d"
proof (induction n rule: nat_hex.induct)
  case (1 n)
  show ?case
  proof (cases "n < 16")
    case True
    with 1 show ?thesis by (auto simp: nat_hex.simps [of n])
  next
    case False
    with "1.prems" have "ch \<in> set (nat_hex (n div 16)) \<or> ch = hex_digit (n mod 16)"
      by (subst (asm) nat_hex.simps) auto
    with 1 False show ?thesis by (auto intro: exI [of _ "n mod 16"])
  qed
qed

lemma hex_digit_no_comma: "n < 16 \<Longrightarrow> hex_digit n \<noteq> CHR '',''"
  by (drule below_16, elim insertE emptyE) (simp_all add: hex_digit_def)

lemma join_chars: "ch \<in> set (join_with sep ss) \<Longrightarrow> ch = sep \<or> (\<exists>s \<in> set ss. ch \<in> set s)"
  by (induction sep ss rule: join_with.induct) auto

lemma string6_no_comma: "CHR '','' \<notin> set (string6 ip)"
proof -
  have "CHR '','' \<notin> set (nat_hex n)" for n using hex_chars hex_digit_no_comma by metis
  then have "CHR '','' \<notin> set (join_with (CHR '':'') (map nat_hex gs))" for gs
    by (auto dest!: join_chars)
  then show ?thesis by (simp add: string6_def Let_def split: option.split)
qed

lemma ip_String_no_comma: "CHR '','' \<notin> set (ip_String ip)"
  using string6_no_comma by (auto simp: ip_String_def dest: dotted_chars split: option.split)

lemma join_not_Nil: "ss \<noteq> [] \<Longrightarrow> [] \<notin> set ss \<Longrightarrow> join_with sep ss \<noteq> []"
  by (induction sep ss rule: join_with.induct) auto

lemma To4_length: "To4 ip = Some v4 \<Longrightarrow> length v4 = 4"
  by (auto simp: To4_def split: if_splits)

lemma ip_String_not_Nil:
  assumes "IsGlobalUnicast ip"
  shows "ip_String ip \<noteq> []"
proof (cases "To4 ip")
  case None
  with assms have "length ip = 16" by (simp add: IsGlobalUnicast_def)
  then have "ip_groups ip \<noteq> []" by (cases ip rule: ip_groups.cases) auto
  then have "map nat_hex (ip_groups ip) \<noteq> []" "[] \<notin> set (map nat_hex (ip_groups ip))"
    by (auto, metis nat_hex_not_Nil)
  then show ?thesis
    by (simp add: ip_String_def None string6_def Let_def join_not_Nil split: option.split)
next
  case (Some v4)
  then have "v4 \<noteq> []" using To4_length by fastforce
  then have "dotted v4 \<noteq> []" by (cases v4 rule: dotted.cases) auto
  then show ?thesis by (simp add: ip_String_def Some)
qed

lemma validate_each_strings:
  "validate_each ips = Inr ss \<Longrightarrow> length ss = length ips \<and>
     (\<forall>s \<in> set ss. \<exists>ip. IsGlobalUnicast ip \<and> s = ip_String ip)"
proof (induction ips arbitrary: ss)
  case (Cons x ips)
  then show ?case by (cases "validate_each ips") (auto split: option.splits if_splits)
qed simp

section \<open>Properties\<close>

text \<open>
  C28: counting addresses. From an IPv4 address with last byte d, n nodes get the addresses with
  last bytes d, d + 1, ..., d + n - 1, all different, as long as these are bytes; otherwise the
  whole command fails at the first node past 255, and names it. No address wraps around.
\<close>

theorem testnet_addresses:
  "node_addresses ext [] (dotted [a, b, c, d]) n =
     (if unat d + nat n \<le> 256
      then Inr (map (\<lambda>i. dotted [a, b, c, d + word_of_nat i]) [0..<nat n])
      else Inl (Overflow (256 - int (unat d)))) \<and>
   (unat d + nat n \<le> 256 \<longrightarrow> distinct (map (\<lambda>i. dotted [a, b, c, d + word_of_nat i]) [0..<nat n]))"
proof
  obtain f where f: "f = (\<lambda>i. getIP ext (int i) (dotted [a, b, c, d]))" by simp
  obtain g where g: "g = (\<lambda>i. dotted [a, b, c, d + word_of_nat i])" by simp
  have "dotted [a, b, c, d] \<noteq> []" by simp
  then have step: "f i = (if unat d + i < 256 then Inr (g i) else Inl (Overflow (int i)))" for i
    by (simp add: f g getIP_def calculateIP_dotted del: dotted.simps)
  have "collect f [0..<nat n] = (if unat d + nat n \<le> 256 then Inr (map g [0..<nat n])
      else Inl (Overflow (256 - int (unat d))))"
  proof (cases "unat d + nat n \<le> 256")
    case True
    then show ?thesis by (auto intro!: collect_map simp: step)
  next
    case False
    have "collect f [0..<nat n] = Inl (Overflow (int (256 - unat d)))"
      using False unat_byte_less [of d] by (intro collect_error [where m = "256 - unat d" and g = g]) (auto simp: step)
    then show ?thesis using False unat_byte_less [of d] by (simp add: of_nat_diff)
  qed
  then show "node_addresses ext [] (dotted [a, b, c, d]) n =
     (if unat d + nat n \<le> 256
      then Inr (map (\<lambda>i. dotted [a, b, c, d + word_of_nat i]) [0..<nat n])
      else Inl (Overflow (256 - int (unat d))))"
    by (simp add: node_addresses_def f g del: dotted.simps)
  show "unat d + nat n \<le> 256 \<longrightarrow> distinct (map (\<lambda>i. dotted [a, b, c, d + word_of_nat i]) [0..<nat n])"
  proof
    assume le: "unat d + nat n \<le> 256"
    have "unat (d + word_of_nat i) = unat d + i" if "i < nat n" for i
      using le that unat_byte_less [of d] by (simp add: unat_word_ariths unat_of_nat mod_add_right_eq)
    then have "inj_on (\<lambda>i. d + word_of_nat i) {..<nat n}"
      by (intro inj_onI) (metis add_left_imp_eq lessThan_iff)
    then show "distinct (map (\<lambda>i. dotted [a, b, c, d + word_of_nat i]) [0..<nat n])"
      by (auto simp: distinct_map inj_on_def simp del: dotted.simps dest!: dotted_inject)
  qed
qed

theorem testnet_addresses_witness:
  "node_addresses (Inr []) [] ''192.168.0.254'' 2 = Inr [''192.168.0.254'', ''192.168.0.255''] \<and>
   node_addresses (Inr []) [] ''192.168.0.254'' 3 = Inl (Overflow 2)"
  using testnet_addresses [of "Inr []" 192 168 0 254 2] testnet_addresses [of "Inr []" 192 168 0 254 3]
  by (simp add: upt_rec decimal_small decimal_digit_def)

text \<open>
  C38: a checked list of addresses stays checked. When the command accepts the addresses of its
  flag, the files are made for exactly the accepted number of nodes, with the printed form of
  the addresses that were parsed, every one of them global unicast: joining and splitting them
  again loses nothing, and the second count cannot fail.
\<close>

theorem checked_addresses_used:
  assumes "checked_addresses s n = Inr r" and "s \<noteq> []"
  shows "\<exists>ss. node_addresses ext r start n = Inr ss \<and>
    validateIPAddresses (split_at (CHR '','') s) n = Inr ss \<and> int (length ss) = n \<and>
    list_all (\<lambda>x. \<exists>ip. IsGlobalUnicast ip \<and> x = ip_String ip) ss"
proof -
  from assms obtain ss where ss: "validateIPAddresses (split_at (CHR '','') s) n = Inr ss"
    "r = join_with (CHR '','') ss"
    by (cases "validateIPAddresses (split_at (CHR '','') s) n") (auto simp: checked_addresses_def)
  then have each: "validate_each (split_at (CHR '','') s) = Inr ss" "int (length (split_at (CHR '','') s)) = n"
    by (auto simp: validateIPAddresses_def split: if_splits)
  then have v: "length ss = length (split_at (CHR '','') s)"
    "\<forall>x \<in> set ss. \<exists>ip. IsGlobalUnicast ip \<and> x = ip_String ip"
    by (simp_all add: validate_each_strings)
  have "split_at (CHR '','') s \<noteq> []" by (cases s) (auto split: list.split)
  then have "ss \<noteq> []" using v(1) by auto
  moreover have "[] \<notin> set ss" using v(2) ip_String_not_Nil by metis
  moreover have "CHR '','' \<notin> set x" if "x \<in> set ss" for x using v(2) that ip_String_no_comma by metis
  ultimately have "r \<noteq> []" "split_at (CHR '','') r = ss"
    by (simp_all add: ss(2) join_not_Nil split_join)
  then show ?thesis
    using ss(1) each(2) v by (simp add: node_addresses_def listed_addresses_def list_all_iff)
qed

theorem checked_addresses_used_witness:
  "node_addresses (Inr []) ''10.0.0.1'' [] 1 = Inr [''10.0.0.1'']"
proof -
  have "checked_addresses '' 10.0.0.1 '' 1 = Inr ''10.0.0.1''"
    by (simp add: checked_addresses_def validateIPAddresses_def TrimSpace_def is_space_def ParseIP_def is_digit_def
        digit_value_def IsGlobalUnicast_def To4_def mapped_prefix_def ip_String_def decimal_small decimal_digit_def)
  then obtain ss where "node_addresses (Inr []) ''10.0.0.1'' [] 1 = Inr ss"
    using checked_addresses_used [of "'' 10.0.0.1 ''" 1 "''10.0.0.1''" "Inr []" "[]"] by auto
  then show ?thesis by (auto simp: node_addresses_def listed_addresses_def)
qed

end
