(* ===== verification/App_Params.thy ===== *)
theory App_Params imports Go_Call begin

text \<open>
  The parameters of the chain (\<open>app/params/config.go\<close>): its coin, the prefixes of its addresses,
  and the verifier of addresses, as they are set in the SDK's configuration. That configuration
  is not code of the repository: the record \<open>config_api\<close>; a setter of a sealed configuration
  panics, which is \<open>None\<close> here.
\<close>

definition CoinUnit :: string where "CoinUnit = ''scalerize''"
definition Bech32PrefixAccAddr :: string where "Bech32PrefixAccAddr = ''scalerize''"
definition Bech32PrefixAccPub :: string where "Bech32PrefixAccPub = Bech32PrefixAccAddr @ ''pub''"
definition Bech32PrefixValAddr :: string where "Bech32PrefixValAddr = Bech32PrefixAccAddr @ ''valoper''"
definition Bech32PrefixValPub :: string where "Bech32PrefixValPub = Bech32PrefixAccAddr @ ''valoperpub''"
definition Bech32PrefixConsAddr :: string where "Bech32PrefixConsAddr = Bech32PrefixAccAddr @ ''valcons''"
definition Bech32PrefixConsPub :: string where "Bech32PrefixConsPub = Bech32PrefixAccAddr @ ''valconspub''"

datatype address_error = EmptyAddress | AddressTooLong nat nat | AddressLength nat

definition AddressVerifier :: "nat \<Rightarrow> bytes \<Rightarrow> address_error option" where
  "AddressVerifier maxAddrLen bs =
     (if length bs = 0 then Some EmptyAddress
      else if maxAddrLen < length bs then Some (AddressTooLong maxAddrLen (length bs))
      else if length bs \<noteq> 20 \<and> length bs \<noteq> 32 then Some (AddressLength (length bs))
      else None)"

record 'c config_api =
  SetBech32PrefixForAccount :: "string \<Rightarrow> string \<Rightarrow> 'c \<Rightarrow> 'c option"
  SetBech32PrefixForValidator :: "string \<Rightarrow> string \<Rightarrow> 'c \<Rightarrow> 'c option"
  SetBech32PrefixForConsensusNode :: "string \<Rightarrow> string \<Rightarrow> 'c \<Rightarrow> 'c option"
  SetAddressVerifier :: "(bytes \<Rightarrow> address_error option) \<Rightarrow> 'c \<Rightarrow> 'c option"
  RegisterDenom :: "string \<Rightarrow> int \<Rightarrow> 'c \<Rightarrow> (string + unit) \<times> 'c"
  MaxAddrLen :: nat
  Seal :: "'c \<Rightarrow> 'c"

definition setting :: "('c \<Rightarrow> 'c option) \<Rightarrow> ('c, unit) call" where
  "setting f c = (case f c of None \<Rightarrow> (Panic, c) | Some c1 \<Rightarrow> (Ret (Inr ()), c1))"

definition SetAddressPrefixes :: "'c config_api \<Rightarrow> ('c, unit) call" where
  "SetAddressPrefixes api =
     bind_call (setting (SetBech32PrefixForAccount api Bech32PrefixAccAddr Bech32PrefixAccPub)) (\<lambda>_.
     bind_call (setting (SetBech32PrefixForValidator api Bech32PrefixValAddr Bech32PrefixValPub)) (\<lambda>_.
     bind_call (setting (SetBech32PrefixForConsensusNode api Bech32PrefixConsAddr Bech32PrefixConsPub)) (\<lambda>_.
     setting (SetAddressVerifier api (AddressVerifier (MaxAddrLen api))))))"

definition RegisterDenoms :: "'c config_api \<Rightarrow> ('c, unit) call" where
  "RegisterDenoms api = or_panic (lift_world (RegisterDenom api CoinUnit 1))"

text \<open>What runs when the package is loaded.\<close>

definition params_init :: "'c config_api \<Rightarrow> ('c, unit) call" where
  "params_init api = bind_call (SetAddressPrefixes api) (\<lambda>_. RegisterDenoms api)"

section \<open>Lemmas\<close>

text \<open>Two lengths are accepted, if the SDK's limit allows them; every prefix is another one.\<close>

lemma AddressVerifier_accepts_iff:
  "32 \<le> maxAddrLen \<Longrightarrow> AddressVerifier maxAddrLen bs = None \<longleftrightarrow> length bs = 20 \<or> length bs = 32"
  by (auto simp: AddressVerifier_def)

lemmas prefix_defs = Bech32PrefixAccAddr_def Bech32PrefixAccPub_def Bech32PrefixValAddr_def
  Bech32PrefixValPub_def Bech32PrefixConsAddr_def Bech32PrefixConsPub_def

lemma prefixes_distinct: "distinct [Bech32PrefixAccAddr, Bech32PrefixAccPub, Bech32PrefixValAddr,
    Bech32PrefixValPub, Bech32PrefixConsAddr, Bech32PrefixConsPub]"
  by (simp add: prefix_defs)

lemma setting_Ret_iff: "setting f c = (Ret (Inr u), c1) \<longleftrightarrow> f c = Some c1"
  by (auto simp: setting_def split: option.splits)

end
