(* ===== verification/Testnet_Files.thy ===== *)
theory Testnet_Files imports Testnet Go_Path App_Params begin

text \<open>
  The files of a testnet (\<open>initTestnetFiles\<close>, \<open>initGenFiles\<close>, \<open>collectGenFiles\<close>, \<open>writeFile\<close>
  and \<open>startTestnet\<close> in \<open>client/testnet.go\<close>). The file system, the keyring, the transactions
  and the genesis of the SDK are not code of the repository: they are the record \<open>testnet_api\<close>,
  and a call of them changes the world. An error carries the stage it comes from.
\<close>

section \<open>The data\<close>

definition BaseDenomUnit :: nat where "BaseDenomUnit = 18"
definition PowerReduction :: int where "PowerReduction = 10 ^ BaseDenomUnit"

record initArgs =
  arg_algo :: string
  arg_chainID :: string
  keyringBackend :: string
  minGasPrices :: string
  nodeDaemonHome :: string
  nodeDirPrefix :: string
  numValidators :: int
  outputDir :: string
  startingIPAddress :: string
  ipAddresses :: string

record node_config =
  RootDir :: string
  Moniker :: string
  ListenAddress :: string

record app_config =
  MinGasPrices :: string
  API_Enable :: bool
  Telemetry_Enabled :: bool
  PrometheusRetentionTime :: int
  EnableHostnameLabel :: bool
  GlobalLabels :: "string list list"

record coin =
  Denom :: string
  Amount :: int

record balance =
  Address :: string
  Coins :: "coin list"

record base_account =
  AccountAddress :: bytes
  AccountNumber :: int
  Sequence :: int

record 'pk create_validator =
  ValAddress :: string
  ValPubKey :: 'pk
  Value :: coin
  DescriptionMoniker :: string
  Commission :: "int \<times> int \<times> int"
  MinSelfDelegation :: int

text \<open>The genesis of three modules: the field the code sets, and the rest.\<close>

record 'x auth_genesis =
  Accounts :: "bytes list"
  auth_rest :: 'x

record 'x bank_genesis =
  Balances :: "balance list"
  bank_rest :: 'x

record 'x staking_genesis =
  BondDenom :: string
  staking_rest :: 'x

record GenesisDoc =
  DocChainID :: string
  DocAppState :: bytes

section \<open>What is outside\<close>

record ('w, 'pk, 'kb, 'al, 'msg, 'tx, 't, 'x) testnet_api =
  Int63n :: "int \<Rightarrow> 'w \<Rightarrow> int \<times> 'w"
  ExternalIP :: "string + string"
  MkdirAll :: "string \<Rightarrow> 'w \<Rightarrow> (string + unit) \<times> 'w"
  RemoveAll :: "string \<Rightarrow> 'w \<Rightarrow> 'w"
  WriteFile :: "string \<Rightarrow> bytes \<Rightarrow> 'w \<Rightarrow> (string + unit) \<times> 'w"
  InitializeNodeValidatorFiles :: "node_config \<Rightarrow> 'w \<Rightarrow> (string + string \<times> 'pk) \<times> 'w"
  GenesisFile :: "string \<Rightarrow> string"
  keyring_New :: "string \<Rightarrow> string \<Rightarrow> 'w \<Rightarrow> (string + 'kb) \<times> 'w"
  NewSigningAlgoFromString :: "string \<Rightarrow> 'kb \<Rightarrow> string + 'al"
  GenerateSaveCoinKey :: "'kb \<Rightarrow> string \<Rightarrow> 'al \<Rightarrow> 'w \<Rightarrow> (string + bytes \<times> string) \<times> 'w"
  json_Marshal :: "(string \<times> string) list \<Rightarrow> string + bytes"
  AccAddressText :: "bytes \<Rightarrow> string"
  ValAddressText :: "bytes \<Rightarrow> string + string"
  TokensFromConsensusPower :: "int \<Rightarrow> int \<Rightarrow> int"
  NewMsgCreateValidator :: "'pk create_validator \<Rightarrow> string + 'msg"
  SetMsgs :: "'msg \<Rightarrow> string + 'tx"
  SetMemo :: "string \<Rightarrow> 'tx \<Rightarrow> 'tx"
  Sign :: "string \<Rightarrow> string \<Rightarrow> 'kb \<Rightarrow> string \<Rightarrow> 'tx \<Rightarrow> 'w \<Rightarrow> (string + 'tx) \<times> 'w"
  TxJSONEncoder :: "'tx \<Rightarrow> string + bytes"
  WriteConfigFile :: "string \<Rightarrow> app_config \<Rightarrow> 'w \<Rightarrow> unit option \<times> 'w"
  DefaultGenesis :: "string \<rightharpoonup> bytes"
  PackAccounts :: "base_account list \<Rightarrow> string + bytes list"
  auth_decode :: "bytes option \<Rightarrow> 'x auth_genesis option"
  auth_encode :: "'x auth_genesis \<Rightarrow> bytes option"
  bank_decode :: "bytes option \<Rightarrow> 'x bank_genesis option"
  bank_encode :: "'x bank_genesis \<Rightarrow> bytes option"
  staking_decode :: "bytes option \<Rightarrow> 'x staking_genesis option"
  staking_encode :: "'x staking_genesis \<Rightarrow> bytes option"
  MarshalState :: "(string \<rightharpoonup> bytes) \<Rightarrow> string + bytes"
  SaveAs :: "GenesisDoc \<Rightarrow> string \<Rightarrow> 'w \<Rightarrow> (string + unit) \<times> 'w"
  cmttime_Now :: "'w \<Rightarrow> 't \<times> 'w"
  AppGenesisFromFile :: "string \<Rightarrow> 'w \<Rightarrow> (string + bytes) \<times> 'w"
  GenAppStateFromConfig :: "node_config \<Rightarrow> string \<times> string \<times> string \<times> 'pk \<Rightarrow> bytes \<Rightarrow> 'w \<Rightarrow>
    (string + bytes option) \<times> 'w"
  ExportGenesisFileWithTime :: "string \<Rightarrow> string \<Rightarrow> bytes option \<Rightarrow> 't \<Rightarrow> 'w \<Rightarrow> (string + unit) \<times> 'w"

datatype init_stage = MkdirConfig | NodeFiles | NewKeyring | SigningAlgorithm | GenerateKey
  | MarshalSecret | WriteSeed | ValidatorText | CreateValidator | SetMessages | SignTx | EncodeTx
  | WriteGentx | PackGenesisAccounts | MarshalGenesis | SaveGenesis | ReadGenesis | GenAppState
  | ExportGenesisFile

datatype init_error = StageError init_stage string | AddressError ip_error

definition staged :: "init_stage \<Rightarrow> ('w \<Rightarrow> (string + 'a) \<times> 'w) \<Rightarrow> ('w, init_error, 'a) fallible" where
  "staged st f w = (case f w of (r, w1) \<Rightarrow> (Ret (map_sum (StageError st) id r), w1))"

definition staged_sum :: "init_stage \<Rightarrow> string + 'a \<Rightarrow> ('w, init_error, 'a) fallible" where
  "staged_sum st r = lift_sum (map_sum (StageError st) id r)"

definition must_call :: "'a option \<Rightarrow> ('w, 'e, 'a) fallible" where
  "must_call x = (case x of None \<Rightarrow> panic_call | Some y \<Rightarrow> return_call y)"

text \<open>Indexing a slice panics past its end.\<close>

definition at_index :: "'a list \<Rightarrow> nat \<Rightarrow> ('w, 'e, 'a) fallible" where
  "at_index xs i = must_call (if i < length xs then Some (xs ! i) else None)"

text \<open>The clean-up of some stages: \<open>_ = os.RemoveAll(args.outputDir)\<close> before the return.\<close>

definition or_remove :: "(string \<Rightarrow> 'w \<Rightarrow> 'w) \<Rightarrow> string \<Rightarrow> ('w, 'e, 'a) fallible \<Rightarrow> ('w, 'e, 'a) fallible" where
  "or_remove remove dir m w =
     (case m w of (Ret (Inl err), w1) \<Rightarrow> (Ret (Inl err), remove dir w1) | r \<Rightarrow> r)"

section \<open>One node\<close>

text \<open>
  \<open>writeFile\<close>: the directory is made first; a failure of it has its own text. The verb \<open>%q\<close> is
  modelled for paths without characters it escapes.
\<close>

definition quoted :: "string \<Rightarrow> string" where
  "quoted s = CHR 0x22 # s @ [CHR 0x22]"

definition writeFile :: "('w, 'pk, 'kb, 'al, 'msg, 'tx, 't, 'x) testnet_api \<Rightarrow> string \<Rightarrow> string \<Rightarrow> bytes \<Rightarrow>
    'w \<Rightarrow> (string + unit) \<times> 'w" where
  "writeFile api name dir content w =
     (case MkdirAll api dir w of
        (Inl err, w1) \<Rightarrow> (Inl (''could not create directory '' @ quoted dir @ '': '' @ err), w1)
      | (Inr _, w1) \<Rightarrow> WriteFile api (filepath_Join [dir, name]) content w1)"

record 'pk init_state =
  node_config :: node_config
  nodeIDs :: "string list"
  valPubKeys :: "'pk list"
  genAccounts :: "base_account list"
  genBalances :: "balance list"
  genFiles :: "string list"

definition node_dir_name :: "initArgs \<Rightarrow> nat \<Rightarrow> string" where
  "node_dir_name args i = nodeDirPrefix args @ decimal i"

definition node_dir :: "initArgs \<Rightarrow> nat \<Rightarrow> string" where
  "node_dir args i = filepath_Join [outputDir args, node_dir_name args i, nodeDaemonHome args]"

definition gentxs_dir :: "initArgs \<Rightarrow> string" where
  "gentxs_dir args = filepath_Join [outputDir args, ''gentxs'']"

definition node_ip :: "('w, 'pk, 'kb, 'al, 'msg, 'tx, 't, 'x) testnet_api \<Rightarrow> initArgs \<Rightarrow> string list \<Rightarrow> nat \<Rightarrow>
    ('w, init_error, string) fallible" where
  "node_ip api args ips i =
     (if ipAddresses args \<noteq> [] then at_index ips i
      else or_remove (RemoveAll api) (outputDir args)
        (lift_sum (map_sum AddressError id (getIP (ExternalIP api) (int i) (startingIPAddress args)))))"

text \<open>The validator's transaction of a node, and its account: everything after the node's files.\<close>

definition node_gentx :: "('w, 'pk, 'kb, 'al, 'msg, 'tx, 't, 'x) testnet_api \<Rightarrow> initArgs \<Rightarrow> string \<Rightarrow> nat \<Rightarrow>
    'pk \<Rightarrow> string \<Rightarrow> ('w, init_error, base_account \<times> balance) fallible" where
  "node_gentx api args chainID i valPubKey memo =
     (let nodeDirName = node_dir_name args i; nodeDir = node_dir args i in
      bind_call (staged NewKeyring (keyring_New api (keyringBackend args) nodeDir)) (\<lambda>kb.
      bind_call (staged_sum SigningAlgorithm (NewSigningAlgoFromString api (arg_algo args) kb)) (\<lambda>algo.
      bind_call (or_remove (RemoveAll api) (outputDir args)
        (staged GenerateKey (GenerateSaveCoinKey api kb nodeDirName algo))) (\<lambda>(addr, secret).
      bind_call (staged_sum MarshalSecret (json_Marshal api [(''secret'', secret)])) (\<lambda>cliPrint.
      bind_call (staged WriteSeed (writeFile api ''key_seed.json'' nodeDir cliPrint)) (\<lambda>_.
      let accStakingTokens = TokensFromConsensusPower api 5000 PowerReduction;
          balance = \<lparr>Address = AccAddressText api addr, Coins = [\<lparr>Denom = CoinUnit, Amount = accStakingTokens\<rparr>]\<rparr>;
          account = \<lparr>AccountAddress = addr, AccountNumber = 0, Sequence = 0\<rparr> in
      bind_call (staged_sum ValidatorText (ValAddressText api addr)) (\<lambda>valStr.
      let valTokens = TokensFromConsensusPower api 100 PowerReduction in
      bind_call (staged_sum CreateValidator (NewMsgCreateValidator api
        \<lparr>ValAddress = valStr, ValPubKey = valPubKey, Value = \<lparr>Denom = CoinUnit, Amount = valTokens\<rparr>,
          DescriptionMoniker = nodeDirName, Commission = (1, 1, 1), MinSelfDelegation = 1\<rparr>)) (\<lambda>createValMsg.
      bind_call (staged_sum SetMessages (SetMsgs api createValMsg)) (\<lambda>txBuilder.
      bind_call (staged SignTx (Sign api chainID memo kb nodeDirName (SetMemo api memo txBuilder))) (\<lambda>txBuilder.
      bind_call (staged_sum EncodeTx (TxJSONEncoder api txBuilder)) (\<lambda>txBz.
      bind_call (staged WriteGentx (writeFile api (nodeDirName @ ''.json'') (gentxs_dir args) txBz)) (\<lambda>_.
      return_call (account, balance)))))))))))))"

definition app_config_of :: "initArgs \<Rightarrow> string \<Rightarrow> app_config" where
  "app_config_of args chainID =
     \<lparr>MinGasPrices = minGasPrices args, API_Enable = True, Telemetry_Enabled = True,
       PrometheusRetentionTime = 60, EnableHostnameLabel = False,
       GlobalLabels = [[''chain_id'', chainID]]\<rparr>"

text \<open>Writing the configuration panics when it fails.\<close>

definition write_app_config :: "('w, 'pk, 'kb, 'al, 'msg, 'tx, 't, 'x) testnet_api \<Rightarrow> string \<Rightarrow> app_config \<Rightarrow>
    ('w, init_error, unit) fallible" where
  "write_app_config api path c w = (case WriteConfigFile api path c w of (r, w1) \<Rightarrow> must_call r w1)"

definition init_node :: "('w, 'pk, 'kb, 'al, 'msg, 'tx, 't, 'x) testnet_api \<Rightarrow> initArgs \<Rightarrow> string \<Rightarrow>
    string list \<Rightarrow> nat \<Rightarrow> 'pk init_state \<Rightarrow> ('w, init_error, 'pk init_state) fallible" where
  "init_node api args chainID ips i st =
     (let nodeDir = node_dir args i;
          cfg = (node_config st)\<lparr>RootDir := nodeDir, ListenAddress := ''tcp://0.0.0.0:26657''\<rparr> in
      bind_call (or_remove (RemoveAll api) (outputDir args)
        (staged MkdirConfig (MkdirAll api (filepath_Join [nodeDir, ''config''])))) (\<lambda>_.
      let cfg = cfg\<lparr>Moniker := node_dir_name args i\<rparr> in
      bind_call (node_ip api args ips i) (\<lambda>ip.
      bind_call (or_remove (RemoveAll api) (outputDir args)
        (staged NodeFiles (InitializeNodeValidatorFiles api cfg))) (\<lambda>(nodeID, valPubKey).
      bind_call (node_gentx api args chainID i valPubKey (nodeID @ ''@'' @ ip @ '':26656'')) (\<lambda>(account, balance).
      bind_call (write_app_config api (filepath_Join [nodeDir, ''config/app.toml''])
        (app_config_of args chainID)) (\<lambda>_.
      return_call \<lparr>node_config = cfg, nodeIDs = nodeIDs st @ [nodeID],
        valPubKeys = valPubKeys st @ [valPubKey], genAccounts = genAccounts st @ [account],
        genBalances = genBalances st @ [balance], genFiles = genFiles st @ [GenesisFile api nodeDir]\<rparr>))))))"

fun init_nodes :: "('w, 'pk, 'kb, 'al, 'msg, 'tx, 't, 'x) testnet_api \<Rightarrow> initArgs \<Rightarrow> string \<Rightarrow>
    string list \<Rightarrow> nat list \<Rightarrow> 'pk init_state \<Rightarrow> ('w, init_error, 'pk init_state) fallible" where
  "init_nodes api args chainID ips [] st = return_call st"
| "init_nodes api args chainID ips (i # is) st =
     bind_call (init_node api args chainID ips i st) (init_nodes api args chainID ips is)"

section \<open>The genesis files\<close>

text \<open>\<open>MustUnmarshalJSON\<close> and \<open>MustMarshalJSON\<close> panic.\<close>

definition with_accounts :: "('w, 'pk, 'kb, 'al, 'msg, 'tx, 't, 'x) testnet_api \<Rightarrow> bytes list \<Rightarrow>
    balance list \<Rightarrow> string \<Rightarrow> 'x auth_genesis \<Rightarrow> (string \<rightharpoonup> bytes) \<Rightarrow>
    ('w, init_error, string \<rightharpoonup> bytes) fallible" where
  "with_accounts api accounts balances coinDenom auth gs =
     bind_call (must_call (auth_encode api (auth\<lparr>Accounts := accounts\<rparr>))) (\<lambda>authJSON.
     let gs = gs(''auth'' \<mapsto> authJSON) in
     bind_call (must_call (bank_decode api (gs ''bank''))) (\<lambda>bank.
     bind_call (must_call (bank_encode api (bank\<lparr>Balances := balances\<rparr>))) (\<lambda>bankJSON.
     let gs = gs(''bank'' \<mapsto> bankJSON) in
     bind_call (must_call (staking_decode api (gs ''staking''))) (\<lambda>staking.
     bind_call (must_call (staking_encode api (staking\<lparr>BondDenom := coinDenom\<rparr>))) (\<lambda>stakingJSON.
     return_call (gs(''staking'' \<mapsto> stakingJSON)))))))"

definition initGenFiles :: "('w, 'pk, 'kb, 'al, 'msg, 'tx, 't, 'x) testnet_api \<Rightarrow> string \<Rightarrow> string \<Rightarrow>
    base_account list \<Rightarrow> balance list \<Rightarrow> string list \<Rightarrow> int \<Rightarrow> ('w, init_error, unit) fallible" where
  "initGenFiles api chainID coinDenom accounts balances files n =
     bind_call (must_call (auth_decode api (DefaultGenesis api ''auth''))) (\<lambda>auth.
     bind_call (staged_sum PackGenesisAccounts (PackAccounts api accounts)) (\<lambda>packed.
     bind_call (with_accounts api packed balances coinDenom auth (DefaultGenesis api)) (\<lambda>gs.
     bind_call (staged_sum MarshalGenesis (MarshalState api gs)) (\<lambda>appGenStateJSON.
     each_call (\<lambda>i. bind_call (at_index files i)
       (\<lambda>f. staged SaveGenesis (SaveAs api \<lparr>DocChainID = chainID, DocAppState = appGenStateJSON\<rparr> f)))
       [0..<nat n]))))"

text \<open>One node of \<open>collectGenFiles\<close>: the state of the first one is the canonical one.\<close>

definition collect_node :: "('w, 'pk, 'kb, 'al, 'msg, 'tx, 't, 'x) testnet_api \<Rightarrow> initArgs \<Rightarrow> string \<Rightarrow>
    't \<Rightarrow> string list \<Rightarrow> 'pk list \<Rightarrow> nat \<Rightarrow> node_config \<times> bytes option \<Rightarrow>
    ('w, init_error, node_config \<times> bytes option) fallible" where
  "collect_node api args chainID genTime ids keys i = (\<lambda>(cfg, appState).
     let nodeDir = node_dir args i; cfg = cfg\<lparr>Moniker := node_dir_name args i, RootDir := nodeDir\<rparr>;
         genFile = GenesisFile api nodeDir in
     bind_call (at_index ids i) (\<lambda>nodeID.
     bind_call (at_index keys i) (\<lambda>valPubKey.
     bind_call (staged ReadGenesis (AppGenesisFromFile api genFile)) (\<lambda>genDoc.
     bind_call (staged GenAppState (GenAppStateFromConfig api cfg (chainID, gentxs_dir args, nodeID, valPubKey) genDoc))
       (\<lambda>nodeAppState.
     let appState = (if appState = None then nodeAppState else appState) in
     bind_call (staged ExportGenesisFile (ExportGenesisFileWithTime api genFile chainID appState genTime)) (\<lambda>_.
     return_call (cfg, appState)))))))"

fun collect_nodes :: "('w, 'pk, 'kb, 'al, 'msg, 'tx, 't, 'x) testnet_api \<Rightarrow> initArgs \<Rightarrow> string \<Rightarrow>
    't \<Rightarrow> string list \<Rightarrow> 'pk list \<Rightarrow> nat list \<Rightarrow> node_config \<times> bytes option \<Rightarrow>
    ('w, init_error, unit) fallible" where
  "collect_nodes api args chainID genTime ids keys [] s = return_call ()"
| "collect_nodes api args chainID genTime ids keys (i # is) s =
     bind_call (collect_node api args chainID genTime ids keys i s)
       (collect_nodes api args chainID genTime ids keys is)"

definition collectGenFiles :: "('w, 'pk, 'kb, 'al, 'msg, 'tx, 't, 'x) testnet_api \<Rightarrow> initArgs \<Rightarrow> string \<Rightarrow>
    node_config \<Rightarrow> string list \<Rightarrow> 'pk list \<Rightarrow> int \<Rightarrow> ('w, init_error, unit) fallible" where
  "collectGenFiles api args chainID cfg ids keys n =
     bind_call (\<lambda>w. case cmttime_Now api w of (t, w1) \<Rightarrow> (Ret (Inr t), w1)) (\<lambda>genTime.
     collect_nodes api args chainID genTime ids keys [0..<nat n] (cfg, None))"

section \<open>The command\<close>

definition chain_id :: "('w, 'pk, 'kb, 'al, 'msg, 'tx, 't, 'x) testnet_api \<Rightarrow> initArgs \<Rightarrow>
    ('w, init_error, string) fallible" where
  "chain_id api args w =
     (if arg_chainID args = []
      then (case Int63n api 9999999999999 w of
              (r, w1) \<Rightarrow> (Ret (Inr (''scalerize_'' @ decimal (nat (r + 1)) @ ''-1'')), w1))
      else (Ret (Inr (arg_chainID args)), w))"

definition initTestnetFiles :: "('w, 'pk, 'kb, 'al, 'msg, 'tx, 't, 'x) testnet_api \<Rightarrow> node_config \<Rightarrow>
    initArgs \<Rightarrow> ('w, init_error, unit) fallible" where
  "initTestnetFiles api cfg args =
     bind_call (chain_id api args) (\<lambda>chainID.
     if numValidators args < 0 then panic_call
     else bind_call (if ipAddresses args = [] then return_call []
       else lift_sum (map_sum AddressError id (listed_addresses (ipAddresses args) (numValidators args)))) (\<lambda>ips.
     bind_call (init_nodes api args chainID ips [0..<nat (numValidators args)]
       \<lparr>node_config = cfg, nodeIDs = [], valPubKeys = [], genAccounts = [], genBalances = [], genFiles = []\<rparr>) (\<lambda>st.
     bind_call (initGenFiles api chainID CoinUnit (genAccounts st) (genBalances st) (genFiles st)
       (numValidators args)) (\<lambda>_.
     collectGenFiles api args chainID (node_config st) (nodeIDs st) (valPubKeys st) (numValidators args)))))"

text \<open>The command checks the addresses of its flag first.\<close>

definition testnetInitFiles :: "('w, 'pk, 'kb, 'al, 'msg, 'tx, 't, 'x) testnet_api \<Rightarrow> node_config \<Rightarrow>
    initArgs \<Rightarrow> ('w, init_error, unit) fallible" where
  "testnetInitFiles api cfg args =
     bind_call (lift_sum (map_sum AddressError id (checked_addresses (ipAddresses args) (numValidators args)))) (\<lambda>ips.
     initTestnetFiles api cfg (args\<lparr>ipAddresses := ips\<rparr>))"

section \<open>The in-process testnet\<close>

record startArgs =
  start_algo :: string
  start_apiAddress :: string
  start_chainID :: string
  start_grpcAddress :: string
  start_minGasPrices :: string
  start_outputDir :: string
  start_rpcAddress :: string
  start_jsonrpcAddress :: string
  start_numValidators :: int
  start_enableLogging :: bool
  start_printMnemonic :: bool

record network_config =
  ChainID :: string
  SigningAlgo :: string
  NetMinGasPrices :: string
  NumValidators :: int
  RPCAddress :: string
  APIAddress :: string
  GRPCAddress :: string
  PrintMnemonic :: bool

datatype stat_result = Exists | NotExist | StatError string

record ('w, 'net) network_api =
  DefaultConfig :: "'w \<Rightarrow> network_config \<times> 'w"
  Stat :: "string \<Rightarrow> 'w \<Rightarrow> stat_result"
  network_New :: "string \<Rightarrow> network_config \<Rightarrow> 'w \<Rightarrow> (string + 'net) \<times> 'w"
  WaitForHeight :: "'net \<Rightarrow> int \<Rightarrow> 'w \<Rightarrow> (string + int) \<times> 'w"
  Scanln :: "'w \<Rightarrow> (string + unit) \<times> 'w"
  Cleanup :: "'net \<Rightarrow> 'w \<Rightarrow> 'w"

text \<open>Any other answer of \<open>os.Stat\<close> than "does not exist" counts as an existing directory.\<close>

definition startTestnet :: "('w, 'net) network_api \<Rightarrow> startArgs \<Rightarrow> ('w, unit) call" where
  "startTestnet api args =
     bind_call (\<lambda>w. case DefaultConfig api w of (c, w1) \<Rightarrow> (Ret (Inr c), w1)) (\<lambda>c.
     let c = (if start_chainID args \<noteq> [] then c\<lparr>ChainID := start_chainID args\<rparr> else c)
           \<lparr>SigningAlgo := start_algo args, NetMinGasPrices := start_minGasPrices args,
            NumValidators := start_numValidators args, RPCAddress := start_rpcAddress args,
            APIAddress := start_apiAddress args, GRPCAddress := start_grpcAddress args,
            PrintMnemonic := start_printMnemonic args\<rparr>;
         baseDir = start_outputDir args @ ''/'' @ ChainID c in
     bind_call (\<lambda>w. (Ret (if Stat api baseDir w = NotExist then Inr ()
        else Inl (''testnests directory already exists for chain-id '' @ ChainID c)), w)) (\<lambda>_.
     bind_call (lift_world (network_New api baseDir c)) (\<lambda>testnet.
     bind_call (lift_world (WaitForHeight api testnet 1)) (\<lambda>_.
     bind_call (lift_world (Scanln api)) (\<lambda>_ w. (Ret (Inr ()), Cleanup api testnet w))))))"

section \<open>Which errors clean up\<close>

definition cleaned :: "init_error \<Rightarrow> bool" where
  "cleaned err = (case err of
      StageError st _ \<Rightarrow> st \<in> {MkdirConfig, NodeFiles, GenerateKey}
    | AddressError e \<Rightarrow> e \<noteq> InvalidNumber)"

text \<open>
  Two runs, of which the second one removes the directory with another function: the world after
  a cleaned error is a removed one, and the runs are the same unless such an error has occurred.
\<close>

definition removes :: "('w \<Rightarrow> 'w) \<Rightarrow> ('w, init_error, 'a) fallible \<Rightarrow> ('w, init_error, 'a) fallible \<Rightarrow> bool" where
  "removes remove m m' \<longleftrightarrow> (\<forall>w.
     (m' w = m w \<and> (\<forall>err. fst (m w) = Ret (Inl err) \<longrightarrow> \<not> cleaned err)) \<or>
     (\<exists>err. cleaned err \<and> fst (m w) = Ret (Inl err) \<and> fst (m' w) = Ret (Inl err) \<and> snd (m w) \<in> range remove))"

definition never_cleaned :: "('w, init_error, 'a) fallible \<Rightarrow> bool" where
  "never_cleaned m \<longleftrightarrow> (\<forall>w err. fst (m w) = Ret (Inl err) \<longrightarrow> \<not> cleaned err)"

lemma removes_same [intro]: "never_cleaned m \<Longrightarrow> removes remove m m"
  by (simp add: removes_def never_cleaned_def)

lemma bind_call_Inr: "m w = (Ret (Inr x), w1) \<Longrightarrow> bind_call m f w = f x w1"
  by (simp add: bind_call_def)

lemma bind_call_Inl: "fst (m w) = Ret (Inl err) \<Longrightarrow> bind_call m f w = (Ret (Inl err), snd (m w))"
  by (cases "m w") (simp add: bind_call_def)

lemma removes_bind [intro]:
  assumes "removes remove m m'" and "\<And>x. removes remove (f x) (f' x)"
  shows "removes remove (bind_call m f) (bind_call m' f')"
  unfolding removes_def
proof
  fix w
  consider err where "cleaned err" "fst (m w) = Ret (Inl err)" "fst (m' w) = Ret (Inl err)"
      "snd (m w) \<in> range remove"
    | x w1 where "m w = (Ret (Inr x), w1)" "m' w = (Ret (Inr x), w1)"
    | r w1 where "m w = (r, w1)" "m' w = (r, w1)" "\<forall>x. r \<noteq> Ret (Inr x)" "\<forall>err. r = Ret (Inl err) \<longrightarrow> \<not> cleaned err"
    using assms(1) unfolding removes_def by (metis prod.collapse)
  then show "(bind_call m' f' w = bind_call m f w \<and> (\<forall>err. fst (bind_call m f w) = Ret (Inl err) \<longrightarrow> \<not> cleaned err)) \<or>
     (\<exists>err. cleaned err \<and> fst (bind_call m f w) = Ret (Inl err) \<and> fst (bind_call m' f' w) = Ret (Inl err) \<and>
       snd (bind_call m f w) \<in> range remove)"
  proof cases
    case 1
    then show ?thesis by (metis bind_call_Inl fst_conv snd_conv)
  next
    case 2
    then show ?thesis using assms(2) [of x] unfolding removes_def by (simp add: bind_call_Inr)
  next
    case 3
    then show ?thesis by (auto simp: bind_call_def split: outcome.splits sum.splits)
  qed
qed

lemma removes_or_remove:
  assumes "\<And>w err. fst (m w) = Ret (Inl err) \<Longrightarrow> cleaned err"
  shows "removes (remove dir) (or_remove remove dir m) (or_remove remove' dir m)"
  unfolding removes_def
proof
  fix w
  show "(or_remove remove' dir m w = or_remove remove dir m w \<and>
       (\<forall>err. fst (or_remove remove dir m w) = Ret (Inl err) \<longrightarrow> \<not> cleaned err)) \<or>
     (\<exists>err. cleaned err \<and> fst (or_remove remove dir m w) = Ret (Inl err) \<and>
       fst (or_remove remove' dir m w) = Ret (Inl err) \<and> snd (or_remove remove dir m w) \<in> range (remove dir))"
  proof (cases "\<exists>err. fst (m w) = Ret (Inl err)")
    case True
    then obtain err w1 where "m w = (Ret (Inl err), w1)" by (metis prod.collapse)
    then show ?thesis using assms [of w err] by (simp add: or_remove_def)
  next
    case False
    then show ?thesis by (auto simp: or_remove_def split: prod.splits outcome.splits sum.splits)
  qed
qed

lemma never_cleaned_stages [intro]:
  "st \<notin> {MkdirConfig, NodeFiles, GenerateKey} \<Longrightarrow> never_cleaned (staged st f)"
  "st \<notin> {MkdirConfig, NodeFiles, GenerateKey} \<Longrightarrow> never_cleaned (staged_sum st r)"
  "never_cleaned (return_call x)" "never_cleaned panic_call" "never_cleaned (must_call y)"
  "never_cleaned (at_index xs i)"
  by (auto simp: never_cleaned_def staged_def staged_sum_def lift_sum_def return_call_def panic_call_def
      must_call_def at_index_def cleaned_def map_sum_def split: prod.splits sum.splits option.splits)

lemma stage_cleaned:
  "st \<in> {MkdirConfig, NodeFiles, GenerateKey} \<Longrightarrow> fst (staged st f w) = Ret (Inl err) \<Longrightarrow> cleaned err"
  by (auto simp: staged_def cleaned_def map_sum_def split: prod.splits sum.splits)

lemma getIP_counted: "getIP ext i start \<noteq> Inl InvalidNumber"
  by (auto simp: getIP_def calculateIP_def map_sum_def split: sum.splits option.splits)

text \<open>Replacing the removal leaves the other operations as they are.\<close>

lemma other_removal:
  "writeFile (api\<lparr>RemoveAll := g\<rparr>) = writeFile api"
  "with_accounts (api\<lparr>RemoveAll := g\<rparr>) = with_accounts api"
  "initGenFiles (api\<lparr>RemoveAll := g\<rparr>) = initGenFiles api"
  "collect_node (api\<lparr>RemoveAll := g\<rparr>) = collect_node api"
  "chain_id (api\<lparr>RemoveAll := g\<rparr>) = chain_id api"
  "write_app_config (api\<lparr>RemoveAll := g\<rparr>) = write_app_config api"
  by (simp_all add: fun_eq_iff write_app_config_def writeFile_def with_accounts_def initGenFiles_def collect_node_def chain_id_def
      split: prod.split sum.split)

lemma other_removal_collect: "collect_nodes (api\<lparr>RemoveAll := g\<rparr>) args c t ids keys is s = collect_nodes api args c t ids keys is s"
  by (induction "is" arbitrary: s) (simp_all add: other_removal fun_eq_iff bind_call_def split: prod.split outcome.split sum.split)

lemma never_cleaned_bind [intro]:
  assumes "never_cleaned m" and "\<And>x. never_cleaned (f x)"
  shows "never_cleaned (bind_call m f)"
  using assms unfolding never_cleaned_def bind_call_def
  by (auto split: prod.splits outcome.splits sum.splits) (metis fst_conv)+

lemma never_cleaned_each [intro]: "(\<And>x. never_cleaned (f x)) \<Longrightarrow> never_cleaned (each_call f xs)"
  by (induction xs) auto

lemma genesis_never_cleaned:
  "never_cleaned (initGenFiles api c d accounts balances files n)"
  "never_cleaned (collectGenFiles api args c cfg ids keys n)"
proof -
  show "never_cleaned (initGenFiles api c d accounts balances files n)"
    unfolding initGenFiles_def with_accounts_def Let_def
    by (intro never_cleaned_bind never_cleaned_each never_cleaned_stages) auto
  have "never_cleaned (collect_node api args c t ids keys i s)" for t i s
    unfolding collect_node_def Let_def by (cases s) (auto intro!: never_cleaned_bind never_cleaned_stages)
  then have "never_cleaned (collect_nodes api args c t ids keys is s)" for t "is" s
    by (induction "is" arbitrary: s) auto
  then show "never_cleaned (collectGenFiles api args c cfg ids keys n)"
    unfolding collectGenFiles_def
    by (intro never_cleaned_bind) (auto simp: never_cleaned_def split: prod.splits)
qed

lemma node_gentx_removes:
  "removes (RemoveAll api (outputDir args)) (node_gentx api args c i pk memo)
     (node_gentx (api\<lparr>RemoveAll := g\<rparr>) args c i pk memo)"
  unfolding node_gentx_def Let_def
  by (auto simp: other_removal intro!: removes_bind removes_or_remove removes_same never_cleaned_bind never_cleaned_stages
      elim!: stage_cleaned [rotated])

lemma node_ip_removes:
  "removes (RemoveAll api (outputDir args)) (node_ip api args ips i) (node_ip (api\<lparr>RemoveAll := g\<rparr>) args ips i)"
proof -
  let ?ip = "getIP (ExternalIP api) (int i) (startingIPAddress args)"
  have "cleaned err" if "fst (lift_sum (map_sum AddressError id ?ip) w) = Ret (Inl err)" for w :: 'a and err
    using that getIP_counted [of "ExternalIP api" "int i" "startingIPAddress args"]
    by (auto simp: lift_sum_def cleaned_def map_sum_def split: sum.splits)
  then have "removes (RemoveAll api (outputDir args))
      (or_remove (RemoveAll api) (outputDir args) (lift_sum (map_sum AddressError id ?ip)))
      (or_remove g (outputDir args) (lift_sum (map_sum AddressError id ?ip)))"
    by (rule removes_or_remove)
  then show ?thesis by (auto simp add: node_ip_def intro!: removes_same never_cleaned_stages)
qed

lemma init_node_removes:
  "removes (RemoveAll api (outputDir args)) (init_node api args c ips i st)
     (init_node (api\<lparr>RemoveAll := g\<rparr>) args c ips i st)"
  unfolding init_node_def Let_def
  by (auto simp: other_removal never_cleaned_def write_app_config_def must_call_def panic_call_def return_call_def
      split: prod.split option.splits
      intro!: removes_bind removes_or_remove removes_same never_cleaned_bind never_cleaned_stages node_gentx_removes node_ip_removes
      elim!: stage_cleaned [rotated])

lemma init_nodes_removes:
  "removes (RemoveAll api (outputDir args)) (init_nodes api args c ips is st)
     (init_nodes (api\<lparr>RemoveAll := g\<rparr>) args c ips is st)"
  by (induction "is" arbitrary: st)
    (auto intro!: removes_same never_cleaned_stages removes_bind init_node_removes)

lemma init_files_removes:
  "removes (RemoveAll api (outputDir args)) (initTestnetFiles api cfg args)
     (initTestnetFiles (api\<lparr>RemoveAll := g\<rparr>) cfg args)"
proof -
  have count: "never_cleaned (lift_sum (map_sum AddressError id (listed_addresses s n)))" for s n
    by (auto simp: never_cleaned_def lift_sum_def listed_addresses_def cleaned_def Let_def)
  have chain: "never_cleaned (chain_id api args)"
    by (auto simp: never_cleaned_def chain_id_def split: prod.splits)
  have collect: "collectGenFiles (api\<lparr>RemoveAll := g\<rparr>) = collectGenFiles api"
    by (simp add: fun_eq_iff collectGenFiles_def other_removal_collect)
  show ?thesis
    unfolding initTestnetFiles_def other_removal collect
    by (auto intro!: removes_bind removes_same never_cleaned_bind never_cleaned_stages count chain init_nodes_removes
        genesis_never_cleaned)
qed

section \<open>What the nodes of a testnet are\<close>



















section \<open>A small file system\<close>

text \<open>The world is the list of the files and directories made.\<close>

definition sample_testnet ::
  "(string list, unit, unit, unit, unit, unit, unit, unit) testnet_api" where
  "sample_testnet = \<lparr>
     Int63n = (\<lambda>n w. (n - 1, w)), ExternalIP = Inr ''10.0.0.1'',
     MkdirAll = (\<lambda>p w. (Inr (), w @ [p])),
     RemoveAll = (\<lambda>p w. filter (\<lambda>q. take (length p) q \<noteq> p) w),
     WriteFile = (\<lambda>p bs w. (Inr (), w @ [p])),
     InitializeNodeValidatorFiles = (\<lambda>c w. (Inr (''id'', ()), w)),
     GenesisFile = (\<lambda>root. filepath_Join [root, ''config'', ''genesis.json'']),
     keyring_New = (\<lambda>backend dir w. (Inr (), w)), NewSigningAlgoFromString = (\<lambda>s kb. Inr ()),
     GenerateSaveCoinKey = (\<lambda>kb name al w. (Inr ([7], ''words''), w)),
     json_Marshal = (\<lambda>m. Inr []), AccAddressText = (\<lambda>a. ''acc''), ValAddressText = (\<lambda>a. Inr ''val''),
     TokensFromConsensusPower = (\<lambda>p r. p * r), NewMsgCreateValidator = (\<lambda>v. Inr ()),
     SetMsgs = (\<lambda>m. Inr ()), SetMemo = (\<lambda>memo tx. tx), Sign = (\<lambda>c memo kb name tx w. (Inr tx, w)),
     TxJSONEncoder = (\<lambda>tx. Inr []), WriteConfigFile = (\<lambda>p c w. (Some (), w @ [p])),
     DefaultGenesis = Map.empty, PackAccounts = (\<lambda>as. Inr (map AccountAddress as)),
     auth_decode = (\<lambda>_. Some \<lparr>Accounts = [], auth_rest = ()\<rparr>), auth_encode = (\<lambda>_. Some []),
     bank_decode = (\<lambda>_. Some \<lparr>Balances = [], bank_rest = ()\<rparr>), bank_encode = (\<lambda>_. Some []),
     staking_decode = (\<lambda>_. Some \<lparr>BondDenom = [], staking_rest = ()\<rparr>), staking_encode = (\<lambda>_. Some []),
     MarshalState = (\<lambda>gs. Inr [1]), SaveAs = (\<lambda>d p w. (Inr (), w @ [p])), cmttime_Now = (\<lambda>w. ((), w)),
     AppGenesisFromFile = (\<lambda>p w. (if p \<in> set w then Inr [1] else Inl ''no such file'', w)),
     GenAppStateFromConfig = (\<lambda>c x g w. (Inr (Some [2]), w)),
     ExportGenesisFileWithTime = (\<lambda>p c s t w. (Inr (), w))\<rparr>"

definition sample_init :: initArgs where
  "sample_init = \<lparr>arg_algo = ''secp256k1'', arg_chainID = ''c'', keyringBackend = ''os'', minGasPrices = [],
     nodeDaemonHome = ''home'', nodeDirPrefix = ''node'', numValidators = 1, outputDir = ''out'',
     startingIPAddress = ''192.168.0.1'', ipAddresses = []\<rparr>"

definition sample_node_config :: node_config where
  "sample_node_config = \<lparr>RootDir = [], Moniker = [], ListenAddress = []\<rparr>"

lemma sample_paths:
  "node_dir_name sample_init 0 = ''node0''" "node_dir sample_init 0 = ''out/node0/home''"
  "gentxs_dir sample_init = ''out/gentxs''"
  by (simp_all add: node_dir_name_def node_dir_def gentxs_dir_def sample_init_def decimal_small decimal_digit_def
      filepath_Join_def filepath_Clean_def)

lemma sample_ip: "getIP ext 0 ''192.168.0.1'' = Inr ''192.168.0.1''"
  using calculateIP_dotted [of 192 168 0 1 0] by (simp add: getIP_def decimal_small decimal_digit_def)

lemma sample_runs:
  "initTestnetFiles sample_testnet sample_node_config (sample_init\<lparr>startingIPAddress := ''x''\<rparr>) [''out/precious''] =
     (Ret (Inl (AddressError (NonIPv4 ''x''))), [])"
  "initTestnetFiles (sample_testnet\<lparr>WriteFile := \<lambda>p bs w. (Inl ''disk full'', w)\<rparr>)
     sample_node_config sample_init [] =
     (Ret (Inl (StageError WriteSeed ''disk full'')), [''out/node0/home/config'', ''out/node0/home''])"
  "fst (initTestnetFiles sample_testnet sample_node_config sample_init []) = Ret (Inr ())"
  by code_simp+

section \<open>Properties\<close>

text \<open>
  C22: what a failed \<open>testnet init-files\<close> leaves behind. The directories, the addresses and the
  generated keys clean up: after such an error the whole output directory is removed, whatever
  was in it before. After every other error nothing is removed at all: the command would have
  behaved in the same way with any other removal, so the keys made so far stay there.
\<close>

theorem init_files_cleanup:
  assumes "initTestnetFiles api cfg args w = (Ret (Inl err), w1)"
  shows "if cleaned err then \<exists>w2. w1 = RemoveAll api (outputDir args) w2
    else initTestnetFiles (api\<lparr>RemoveAll := g\<rparr>) cfg args w = (Ret (Inl err), w1)"
  using init_files_removes [of api args cfg g] assms unfolding removes_def
  by (auto dest!: spec [of _ w])

theorem init_files_cleanup_witness:
  "(\<exists>w2. [] = RemoveAll sample_testnet ''out'' w2) \<and>
   initTestnetFiles (sample_testnet\<lparr>WriteFile := \<lambda>p bs w. (Inl ''disk full'', w), RemoveAll := \<lambda>p w. []\<rparr>)
     sample_node_config sample_init [] =
     (Ret (Inl (StageError WriteSeed ''disk full'')), [''out/node0/home/config'', ''out/node0/home''])"
  using init_files_cleanup [OF sample_runs(1)] init_files_cleanup [OF sample_runs(2), of "\<lambda>p w. []"]
  by (simp add: cleaned_def sample_init_def)












end
