(* ===== verification/Cmd_Flags.thy ===== *)
theory Cmd_Flags imports Testnet_Files begin

text \<open>
  The flags of the testnet commands (\<open>client/testnet.go\<close>): what each command declares, in the
  order of the declarations, and what its \<open>RunE\<close> reads. Declaring is data; parsing a command
  line and reading a flag are those of cobra and pflag, the record \<open>flag_api\<close>, with the
  documented behaviour \<open>pflag_laws\<close>: on a command line that is parsed, a declared flag has the
  given value or its default, and reading a flag that is not declared, or is of another type,
  gives the zero value and an error. The names of the SDK's flags are the record \<open>sdk_names\<close>.
\<close>

section \<open>Flags\<close>

datatype flag_value = IntFlag int | StringFlag string | BoolFlag bool

type_synonym flags = "(string \<times> flag_value) list"
type_synonym given_flags = "string \<rightharpoonup> flag_value"

record 'f flag_api =
  Parse :: "flags \<Rightarrow> given_flags \<Rightarrow> 'f"
  GetString :: "'f \<Rightarrow> string \<Rightarrow> string \<times> string option"
  GetInt :: "'f \<Rightarrow> string \<Rightarrow> int \<times> string option"
  GetBool :: "'f \<Rightarrow> string \<Rightarrow> bool \<times> string option"

fun same_kind :: "flag_value \<Rightarrow> flag_value \<Rightarrow> bool" where
  "same_kind (IntFlag _) (IntFlag _) = True"
| "same_kind (StringFlag _) (StringFlag _) = True"
| "same_kind (BoolFlag _) (BoolFlag _) = True"
| "same_kind _ _ = False"

text \<open>The command lines that are parsed: no flag is declared twice, only declared flags are
  given, and with a value of their type. (The first is a panic, the others are errors.)\<close>

definition parsed :: "flags \<Rightarrow> given_flags \<Rightarrow> bool" where
  "parsed decls given \<longleftrightarrow> distinct (map fst decls) \<and>
     (\<forall>name v. given name = Some v \<longrightarrow> (\<exists>d. (name, d) \<in> set decls \<and> same_kind d v))"

definition flag_lookup :: "flags \<Rightarrow> given_flags \<Rightarrow> string \<Rightarrow> flag_value option" where
  "flag_lookup decls given name =
     (case map_of decls name of
        None \<Rightarrow> None
      | Some v \<Rightarrow> Some (case given name of None \<Rightarrow> v | Some w \<Rightarrow> w))"

definition pflag_laws :: "'f flag_api \<Rightarrow> bool" where
  "pflag_laws fl \<longleftrightarrow> (\<forall>decls given name. parsed decls given \<longrightarrow>
     fst (GetString fl (Parse fl decls given) name) =
       (case flag_lookup decls given name of Some (StringFlag s) \<Rightarrow> s | _ \<Rightarrow> []) \<and>
     fst (GetInt fl (Parse fl decls given) name) =
       (case flag_lookup decls given name of Some (IntFlag n) \<Rightarrow> n | _ \<Rightarrow> 0) \<and>
     fst (GetBool fl (Parse fl decls given) name) =
       (case flag_lookup decls given name of Some (BoolFlag b) \<Rightarrow> b | _ \<Rightarrow> False))"

text \<open>The value of a flag that is declared with a default.\<close>

definition string_of :: "given_flags \<Rightarrow> string \<Rightarrow> string \<Rightarrow> string" where
  "string_of given name d = (case given name of Some (StringFlag s) \<Rightarrow> s | _ \<Rightarrow> d)"

definition int_of :: "given_flags \<Rightarrow> string \<Rightarrow> int \<Rightarrow> int" where
  "int_of given name d = (case given name of Some (IntFlag n) \<Rightarrow> n | _ \<Rightarrow> d)"

definition bool_of :: "given_flags \<Rightarrow> string \<Rightarrow> bool \<Rightarrow> bool" where
  "bool_of given name d = (case given name of Some (BoolFlag b) \<Rightarrow> b | _ \<Rightarrow> d)"

lemma parsed_lookup:
  assumes "parsed decls given" "(name, d) \<in> set decls"
  shows "flag_lookup decls given name = Some (case given name of None \<Rightarrow> d | Some v \<Rightarrow> v)"
    and "given name = Some v \<Longrightarrow> same_kind d v"
proof -
  have m: "map_of decls name = Some d" using assms by (simp add: parsed_def)
  then show "flag_lookup decls given name = Some (case given name of None \<Rightarrow> d | Some v \<Rightarrow> v)"
    by (simp add: flag_lookup_def)
  assume "given name = Some v"
  then obtain d' where "(name, d') \<in> set decls" "same_kind d' v" using assms(1) by (auto simp: parsed_def)
  moreover from this m have "d' = d" using assms(1) by (simp add: parsed_def)
  ultimately show "same_kind d v" by simp
qed

lemma same_kind_simps:
  "same_kind (IntFlag n) v \<longleftrightarrow> (\<exists>m. v = IntFlag m)"
  "same_kind (StringFlag s) v \<longleftrightarrow> (\<exists>t. v = StringFlag t)"
  "same_kind (BoolFlag b) v \<longleftrightarrow> (\<exists>c. v = BoolFlag c)"
  by (cases v; simp)+

lemma declared_flags:
  assumes "pflag_laws fl" "parsed decls given"
  shows "(name, StringFlag s) \<in> set decls \<Longrightarrow> fst (GetString fl (Parse fl decls given) name) = string_of given name s"
    and "(name, IntFlag n) \<in> set decls \<Longrightarrow> fst (GetInt fl (Parse fl decls given) name) = int_of given name n"
    and "(name, BoolFlag b) \<in> set decls \<Longrightarrow> fst (GetBool fl (Parse fl decls given) name) = bool_of given name b"
  using assms(1) [unfolded pflag_laws_def, rule_format, OF assms(2)]
    parsed_lookup [OF assms(2)]
  by (cases "given name"; fastforce simp: string_of_def int_of_def bool_of_def same_kind_simps)+

lemma undeclared_not_given: "parsed decls given \<Longrightarrow> name \<notin> set (map fst decls) \<Longrightarrow> given name = None"
  by (cases "given name") (force simp: parsed_def)+

lemma undeclared_flag:
  assumes "pflag_laws fl" "parsed decls given" "name \<notin> set (map fst decls)"
  shows "fst (GetString fl (Parse fl decls given) name) = []"
proof -
  have "flag_lookup decls given name = None"
    using assms(3) by (simp add: flag_lookup_def map_of_eq_None_iff [THEN iffD2])
  then show ?thesis using assms(1,2) by (simp add: pflag_laws_def)
qed

record sdk_names =
  FlagChainID :: string
  FlagMinGasPrices :: string
  FlagKeyAlgorithm :: string
  FlagKeyringBackend :: string
  DefaultKeyringBackend :: string
  Secp256k1Type :: string
  DefaultGRPCAddress :: string

section \<open>The flags of the testnet commands\<close>

definition flagNodeDirPrefix :: string where "flagNodeDirPrefix = ''node-dir-prefix''"
definition flagNumValidators :: string where "flagNumValidators = ''v''"
definition flagOutputDir :: string where "flagOutputDir = ''output-dir''"
definition flagNodeDaemonHome :: string where "flagNodeDaemonHome = ''node-daemon-home''"
definition flagStartingIPAddress :: string where "flagStartingIPAddress = ''starting-ip-address''"
definition flagIPAddresses :: string where "flagIPAddresses = ''ip-addresses''"
definition flagEnableLogging :: string where "flagEnableLogging = ''enable-logging''"
definition flagRPCAddress :: string where "flagRPCAddress = ''rpc.address''"
definition flagAPIAddress :: string where "flagAPIAddress = ''api.address''"
definition flagPrintMnemonic :: string where "flagPrintMnemonic = ''print-mnemonic''"
definition flagGRPCAddress :: string where "flagGRPCAddress = ''grpc.address''"
definition flagJSONRPCAddress :: string where "flagJSONRPCAddress = ''json-rpc.address''"

lemmas testnet_flag_defs = flagNodeDirPrefix_def flagNumValidators_def flagOutputDir_def
  flagNodeDaemonHome_def flagStartingIPAddress_def flagIPAddresses_def flagEnableLogging_def
  flagRPCAddress_def flagAPIAddress_def flagPrintMnemonic_def flagGRPCAddress_def flagJSONRPCAddress_def

definition addTestnetFlagsToCmd :: "sdk_names \<Rightarrow> flags" where
  "addTestnetFlagsToCmd sdk =
     [(flagNumValidators, IntFlag 4), (flagOutputDir, StringFlag ''./.testnets''),
      (FlagChainID sdk, StringFlag []), (FlagMinGasPrices sdk, StringFlag (''0.000006'' @ CoinUnit)),
      (FlagKeyAlgorithm sdk, StringFlag (Secp256k1Type sdk))]"

definition init_files_flags :: "sdk_names \<Rightarrow> flags" where
  "init_files_flags sdk = addTestnetFlagsToCmd sdk @
     [(flagNodeDirPrefix, StringFlag ''node''), (flagNodeDaemonHome, StringFlag ''scalerized''),
      (flagStartingIPAddress, StringFlag ''192.168.0.1''), (flagIPAddresses, StringFlag []),
      (FlagKeyringBackend sdk, StringFlag (DefaultKeyringBackend sdk))]"

definition testnet_start_flags :: "sdk_names \<Rightarrow> flags" where
  "testnet_start_flags sdk = addTestnetFlagsToCmd sdk @
     [(flagEnableLogging, BoolFlag False), (flagRPCAddress, StringFlag ''tcp://0.0.0.0:26657''),
      (flagAPIAddress, StringFlag ''tcp://0.0.0.0:1317''),
      (flagGRPCAddress, StringFlag (DefaultGRPCAddress sdk)), (flagPrintMnemonic, BoolFlag True)]"

text \<open>
  What the commands read; the errors of reading are dropped (\<open>args.x, _ =\<close>). \<open>f\<close> is the flag set
  when \<open>RunE\<close> runs: after the command line is parsed, and after the persistent pre-run of the root
  command (\<open>InterceptConfigsPreRunHandler\<close> of the SDK), which gives a flag that the command line
  left out the value of the environment or of a configuration file, when there is one. Both are
  what \<open>given\<close> holds below: a flag is in \<open>given\<close> when one of the three sets it.
\<close>

definition init_args :: "'f flag_api \<Rightarrow> sdk_names \<Rightarrow> 'f \<Rightarrow> initArgs" where
  "init_args fl sdk f = \<lparr>
     arg_algo = fst (GetString fl f (FlagKeyAlgorithm sdk)),
     arg_chainID = fst (GetString fl f (FlagChainID sdk)),
     keyringBackend = fst (GetString fl f (FlagKeyringBackend sdk)),
     minGasPrices = fst (GetString fl f (FlagMinGasPrices sdk)),
     nodeDaemonHome = fst (GetString fl f flagNodeDaemonHome),
     nodeDirPrefix = fst (GetString fl f flagNodeDirPrefix),
     numValidators = fst (GetInt fl f flagNumValidators),
     outputDir = fst (GetString fl f flagOutputDir),
     startingIPAddress = fst (GetString fl f flagStartingIPAddress),
     ipAddresses = fst (GetString fl f flagIPAddresses)\<rparr>"

definition start_args :: "'f flag_api \<Rightarrow> sdk_names \<Rightarrow> 'f \<Rightarrow> startArgs" where
  "start_args fl sdk f = \<lparr>
     start_algo = fst (GetString fl f (FlagKeyAlgorithm sdk)),
     start_apiAddress = fst (GetString fl f flagAPIAddress),
     start_chainID = fst (GetString fl f (FlagChainID sdk)),
     start_grpcAddress = fst (GetString fl f flagGRPCAddress),
     start_minGasPrices = fst (GetString fl f (FlagMinGasPrices sdk)),
     start_outputDir = fst (GetString fl f flagOutputDir),
     start_rpcAddress = fst (GetString fl f flagRPCAddress),
     start_jsonrpcAddress = fst (GetString fl f flagJSONRPCAddress),
     start_numValidators = fst (GetInt fl f flagNumValidators),
     start_enableLogging = fst (GetBool fl f flagEnableLogging),
     start_printMnemonic = fst (GetBool fl f flagPrintMnemonic)\<rparr>"

section \<open>The commands\<close>

text \<open>\<open>GetClientQueryContext\<close> may fail before anything is done.\<close>

definition init_files_RunE :: "('w, 'pk, 'kb, 'al, 'msg, 'tx, 't, 'x) testnet_api \<Rightarrow> 'f flag_api \<Rightarrow> sdk_names \<Rightarrow>
    string option \<Rightarrow> 'f \<Rightarrow> node_config \<Rightarrow> ('w, string + init_error, unit) fallible" where
  "init_files_RunE api fl sdk contextError f cfg w =
     (case contextError of
        Some err \<Rightarrow> (Ret (Inl (Inl err)), w)
      | None \<Rightarrow> (case testnetInitFiles api cfg (init_args fl sdk f) w of
          (r, w1) \<Rightarrow> (map_outcome (map_sum Inr id) r, w1)))"

definition testnet_start_RunE :: "('w, 'net) network_api \<Rightarrow> 'f flag_api \<Rightarrow> sdk_names \<Rightarrow> 'f \<Rightarrow> ('w, unit) call" where
  "testnet_start_RunE api fl sdk f = startTestnet api (start_args fl sdk f)"

section \<open>Properties\<close>

text \<open>
  C40: the options of \<open>testnet init-files\<close>. Every argument of \<open>initTestnetFiles\<close> is the value
  given to the option with its own name and type, or the documented default: no read of a flag
  fails unseen. Without options the four nodes get the addresses 192.168.0.1 to 192.168.0.4.
\<close>

theorem init_files_options:
  assumes "pflag_laws fl" and "parsed (init_files_flags sdk @ inherited) given"
  shows "init_args fl sdk (Parse fl (init_files_flags sdk @ inherited) given) = \<lparr>
     arg_algo = string_of given (FlagKeyAlgorithm sdk) (Secp256k1Type sdk),
     arg_chainID = string_of given (FlagChainID sdk) [],
     keyringBackend = string_of given (FlagKeyringBackend sdk) (DefaultKeyringBackend sdk),
     minGasPrices = string_of given (FlagMinGasPrices sdk) ''0.000006scalerize'',
     nodeDaemonHome = string_of given ''node-daemon-home'' ''scalerized'',
     nodeDirPrefix = string_of given ''node-dir-prefix'' ''node'',
     numValidators = int_of given ''v'' 4,
     outputDir = string_of given ''output-dir'' ''./.testnets'',
     startingIPAddress = string_of given ''starting-ip-address'' ''192.168.0.1'',
     ipAddresses = string_of given ''ip-addresses'' []\<rparr> \<and>
   (given = Map.empty \<longrightarrow>
     (let args = init_args fl sdk (Parse fl (init_files_flags sdk @ inherited) given) in
      node_addresses ext (ipAddresses args) (startingIPAddress args) (numValidators args) =
        Inr [''192.168.0.1'', ''192.168.0.2'', ''192.168.0.3'', ''192.168.0.4'']))"
proof -
  let ?args = "init_args fl sdk (Parse fl (init_files_flags sdk @ inherited) given)"
  note flags = declared_flags [OF assms]
  note decls = init_files_flags_def addTestnetFlagsToCmd_def testnet_flag_defs CoinUnit_def
  have args: "?args = \<lparr>
     arg_algo = string_of given (FlagKeyAlgorithm sdk) (Secp256k1Type sdk),
     arg_chainID = string_of given (FlagChainID sdk) [],
     keyringBackend = string_of given (FlagKeyringBackend sdk) (DefaultKeyringBackend sdk),
     minGasPrices = string_of given (FlagMinGasPrices sdk) ''0.000006scalerize'',
     nodeDaemonHome = string_of given ''node-daemon-home'' ''scalerized'',
     nodeDirPrefix = string_of given ''node-dir-prefix'' ''node'',
     numValidators = int_of given ''v'' 4,
     outputDir = string_of given ''output-dir'' ''./.testnets'',
     startingIPAddress = string_of given ''starting-ip-address'' ''192.168.0.1'',
     ipAddresses = string_of given ''ip-addresses'' []\<rparr>"
    unfolding init_args_def testnet_flag_defs
    by (simp only: initArgs.ext_inject initArgs.select_convs)
      (intro conjI refl flags; simp add: decls)
  have "collect (\<lambda>i. getIP ext (int i) ''192.168.0.1'') [0..<4] =
      Inr [''192.168.0.1'', ''192.168.0.2'', ''192.168.0.3'', ''192.168.0.4'']"
    using calculateIP_dotted [of 192 168 0 1]
    by (simp add: upt_rec getIP_def decimal_small decimal_digit_def)
  then have four: "given = Map.empty \<Longrightarrow> node_addresses ext (ipAddresses ?args) (startingIPAddress ?args) (numValidators ?args) =
      Inr [''192.168.0.1'', ''192.168.0.2'', ''192.168.0.3'', ''192.168.0.4'']"
    unfolding args by (simp add: string_of_def int_of_def node_addresses_def)
  show ?thesis unfolding Let_def by (intro conjI impI args four)
qed

text \<open>A command line parsed by hand: what was declared and given.\<close>

definition sample_flag_api :: "(flags \<times> given_flags) flag_api" where
  "sample_flag_api = \<lparr>Parse = Pair,
     GetString = (\<lambda>(decls, given) name.
       case flag_lookup decls given name of Some (StringFlag s) \<Rightarrow> (s, None) | _ \<Rightarrow> ([], Some ''undefined'')),
     GetInt = (\<lambda>(decls, given) name.
       case flag_lookup decls given name of Some (IntFlag n) \<Rightarrow> (n, None) | _ \<Rightarrow> (0, Some ''undefined'')),
     GetBool = (\<lambda>(decls, given) name.
       case flag_lookup decls given name of Some (BoolFlag b) \<Rightarrow> (b, None) | _ \<Rightarrow> (False, Some ''undefined''))\<rparr>"

definition sample_sdk :: sdk_names where
  "sample_sdk = \<lparr>FlagChainID = ''chain-id'', FlagMinGasPrices = ''minimum-gas-prices'',
     FlagKeyAlgorithm = ''key-type'', FlagKeyringBackend = ''keyring-backend'',
     DefaultKeyringBackend = ''os'', Secp256k1Type = ''secp256k1'', DefaultGRPCAddress = ''localhost:9090''\<rparr>"

lemma sample_flag_laws: "pflag_laws sample_flag_api"
  by (auto simp: pflag_laws_def sample_flag_api_def split: option.split flag_value.split)

theorem init_files_options_witness:
  "numValidators (init_args sample_flag_api sample_sdk
     (Parse sample_flag_api (init_files_flags sample_sdk @ [(''home'', StringFlag ''h'')]) [''v'' \<mapsto> IntFlag 7])) = 7"
proof -
  have "parsed (init_files_flags sample_sdk @ [(''home'', StringFlag ''h'')]) [''v'' \<mapsto> IntFlag 7]"
    by (auto simp: parsed_def init_files_flags_def addTestnetFlagsToCmd_def testnet_flag_defs sample_sdk_def)
  from init_files_options [OF sample_flag_laws this] show ?thesis by (simp add: int_of_def)
qed

text \<open>
  The options of \<open>testnet start\<close>. Every argument of \<open>startTestnet\<close> is the option of its own
  name or its default, with one exception: the JSON-RPC address is read from a flag whose
  declaration is commented out, so it is empty on every command line, and a command line that
  gives the option is not parsed.
\<close>

theorem testnet_start_options:
  assumes "pflag_laws fl" and "parsed (testnet_start_flags sdk @ inherited) given"
    and "flagJSONRPCAddress \<notin> set (map fst (addTestnetFlagsToCmd sdk @ inherited))"
  shows "start_args fl sdk (Parse fl (testnet_start_flags sdk @ inherited) given) = \<lparr>
     start_algo = string_of given (FlagKeyAlgorithm sdk) (Secp256k1Type sdk),
     start_apiAddress = string_of given ''api.address'' ''tcp://0.0.0.0:1317'',
     start_chainID = string_of given (FlagChainID sdk) [],
     start_grpcAddress = string_of given ''grpc.address'' (DefaultGRPCAddress sdk),
     start_minGasPrices = string_of given (FlagMinGasPrices sdk) ''0.000006scalerize'',
     start_outputDir = string_of given ''output-dir'' ''./.testnets'',
     start_rpcAddress = string_of given ''rpc.address'' ''tcp://0.0.0.0:26657'',
     start_jsonrpcAddress = [],
     start_numValidators = int_of given ''v'' 4,
     start_enableLogging = bool_of given ''enable-logging'' False,
     start_printMnemonic = bool_of given ''print-mnemonic'' True\<rparr> \<and>
   given ''json-rpc.address'' = None"
proof -
  note flags = declared_flags [OF assms(1,2)]
  note decls = testnet_start_flags_def addTestnetFlagsToCmd_def testnet_flag_defs CoinUnit_def
  have new: "flagJSONRPCAddress \<notin> set (map fst (testnet_start_flags sdk @ inherited))"
    using assms(3) by (simp add: testnet_start_flags_def testnet_flag_defs)
  note none = undeclared_flag [OF assms(1,2) new]
  have "given ''json-rpc.address'' = None"
    using new undeclared_not_given [OF assms(2)] unfolding flagJSONRPCAddress_def by blast
  then show ?thesis
    using none unfolding start_args_def testnet_flag_defs
    by (simp only: startArgs.ext_inject startArgs.select_convs simp_thms)
      (intro conjI flags; simp add: decls)
qed

theorem testnet_start_options_witness:
  "start_args sample_flag_api sample_sdk (Parse sample_flag_api (testnet_start_flags sample_sdk)
     [''rpc.address'' \<mapsto> StringFlag ''tcp://1.2.3.4:5'', ''enable-logging'' \<mapsto> BoolFlag True]) = \<lparr>
     start_algo = ''secp256k1'', start_apiAddress = ''tcp://0.0.0.0:1317'', start_chainID = [],
     start_grpcAddress = ''localhost:9090'', start_minGasPrices = ''0.000006scalerize'',
     start_outputDir = ''./.testnets'', start_rpcAddress = ''tcp://1.2.3.4:5'', start_jsonrpcAddress = [],
     start_numValidators = 4, start_enableLogging = True, start_printMnemonic = True\<rparr>"
proof -
  have "parsed (testnet_start_flags sample_sdk @ [])
     [''rpc.address'' \<mapsto> StringFlag ''tcp://1.2.3.4:5'', ''enable-logging'' \<mapsto> BoolFlag True]"
    by (auto simp: parsed_def testnet_start_flags_def addTestnetFlagsToCmd_def testnet_flag_defs sample_sdk_def)
  moreover have "flagJSONRPCAddress \<notin> set (map fst (addTestnetFlagsToCmd sample_sdk @ []))"
    by (simp add: addTestnetFlagsToCmd_def testnet_flag_defs sample_sdk_def)
  ultimately show ?thesis using testnet_start_options [OF sample_flag_laws, of sample_sdk "[]"]
    by (simp add: string_of_def int_of_def bool_of_def sample_sdk_def)
qed

end
