(* ===== verification/Go_Strconv.thy ===== *)
theory Go_Strconv imports Evm_Util begin

text \<open>
  \<open>strconv.ParseInt(s, 0, 64)\<close>, which reads the block number an RPC server answers with: an
  optional sign, a base prefix (0x, 0b, 0o, or 0 for octal), digits, and underscores between
  digits. The loop of \<open>ParseUint\<close> runs on unbounded numbers here; it stops with a range error as
  soon as the value leaves 64 bits, as the code's checks for overflow do.
\<close>

datatype num_error = ErrSyntax | ErrRange

definition lower :: "char \<Rightarrow> nat" where
  "lower ch = (let n = of_char ch :: nat in if 65 \<le> n \<and> n \<le> 90 then n + 32 else n)"

definition digit_of :: "char \<Rightarrow> nat option" where
  "digit_of ch =
     (let n = of_char ch :: nat in
      if 48 \<le> n \<and> n \<le> 57 then Some (n - 48)
      else if 97 \<le> lower ch \<and> lower ch \<le> 122 then Some (lower ch - 97 + 10) else None)"

text \<open>The base, and the digits after the prefix.\<close>

definition int_base :: "string \<Rightarrow> nat \<times> string" where
  "int_base s =
     (if s = [] \<or> hd s \<noteq> CHR ''0'' then (10, s)
      else if 3 \<le> length s \<and> lower (s ! 1) = 98 then (2, drop 2 s)
      else if 3 \<le> length s \<and> lower (s ! 1) = 111 then (8, drop 2 s)
      else if 3 \<le> length s \<and> lower (s ! 1) = 120 then (16, drop 2 s)
      else (8, tl s))"

text \<open>The digits; the second result tells whether there was an underscore.\<close>

fun uint_digits :: "nat \<Rightarrow> nat \<Rightarrow> bool \<Rightarrow> string \<Rightarrow> num_error + nat \<times> bool" where
  "uint_digits base n underscores [] = Inr (n, underscores)"
| "uint_digits base n underscores (ch # s) =
     (if ch = CHR ''_'' then uint_digits base n True s
      else (case digit_of ch of
              None \<Rightarrow> Inl ErrSyntax
            | Some d \<Rightarrow>
                if base \<le> d then Inl ErrSyntax
                else if 2 ^ 64 \<le> n * base + d then Inl ErrRange
                else uint_digits base (n * base + d) underscores s))"

text \<open>\<open>underscoreOK\<close>: what was seen last, a digit (or the prefix), an underscore, or another
  character, or nothing.\<close>

datatype seen = SawNothing | SawDigit | SawUnderscore | SawOther

fun underscores_between :: "bool \<Rightarrow> seen \<Rightarrow> string \<Rightarrow> bool" where
  "underscores_between hex saw [] \<longleftrightarrow> saw \<noteq> SawUnderscore"
| "underscores_between hex saw (ch # s) \<longleftrightarrow>
     (if 48 \<le> (of_char ch :: nat) \<and> (of_char ch :: nat) \<le> 57 \<or>
         hex \<and> 97 \<le> lower ch \<and> lower ch \<le> 102
      then underscores_between hex SawDigit s
      else if ch = CHR ''_'' then saw = SawDigit \<and> underscores_between hex SawUnderscore s
      else saw \<noteq> SawUnderscore \<and> underscores_between hex SawOther s)"

definition underscoreOK :: "string \<Rightarrow> bool" where
  "underscoreOK s =
     (let s = (if s \<noteq> [] \<and> hd s \<in> {CHR ''-'', CHR ''+''} then tl s else s) in
      if 2 \<le> length s \<and> hd s = CHR ''0'' \<and> lower (s ! 1) \<in> {98, 111, 120}
      then underscores_between (lower (s ! 1) = 120) SawDigit (drop 2 s)
      else underscores_between False SawNothing s)"

definition ParseUint :: "string \<Rightarrow> num_error + nat" where
  "ParseUint s =
     (if s = [] then Inl ErrSyntax
      else (case int_base s of
              (base, digits) \<Rightarrow>
                (case uint_digits base 0 False digits of
                   Inl err \<Rightarrow> Inl err
                 | Inr (n, underscores) \<Rightarrow>
                     if underscores \<and> \<not> underscoreOK s then Inl ErrSyntax else Inr n)))"

definition ParseInt :: "string \<Rightarrow> num_error + int" where
  "ParseInt s =
     (if s = [] then Inl ErrSyntax
      else (let neg = hd s = CHR ''-'';
                digits = (if hd s \<in> {CHR ''-'', CHR ''+''} then tl s else s)
            in case ParseUint digits of
                 Inl err \<Rightarrow> Inl err
               | Inr n \<Rightarrow>
                   if \<not> neg \<and> 2 ^ 63 \<le> n \<or> neg \<and> 2 ^ 63 < n then Inl ErrRange
                   else Inr (if neg then - int n else int n)))"

section \<open>Bounds and hexadecimal numbers\<close>

lemma ParseInt_bounds: "ParseInt s = Inr n \<Longrightarrow> - (2 ^ 63) \<le> n \<and> n < 2 ^ 63"
  by (auto simp: ParseInt_def Let_def split: if_splits sum.splits)

lemma digit_of_hex_digit: "n < 16 \<Longrightarrow> digit_of (hex_digit n) = Some n"
  by (drule below_16, elim insertE emptyE) (simp_all add: digit_of_def hex_digit_def lower_def)

lemma hex_digit_not_underscore: "n < 16 \<Longrightarrow> hex_digit n \<noteq> CHR ''_''"
  by (drule below_16, elim insertE emptyE) (simp_all add: hex_digit_def)

lemma uint_digits_append:
  "uint_digits base n u (s @ t) =
     (case uint_digits base n u s of Inl err \<Rightarrow> Inl err | Inr (m, v) \<Rightarrow> uint_digits base m v t)"
  by (induction s arbitrary: n u) (auto split: option.split)

lemma uint_digits_nat_hex:
  "uint_digits 16 0 False (nat_hex n) = (if n < 2 ^ 64 then Inr (n, False) else Inl ErrRange)"
proof (induction n rule: nat_hex.induct)
  case (1 n)
  have d: "digit_of (hex_digit (n mod 16)) = Some (n mod 16)" "hex_digit (n mod 16) \<noteq> CHR ''_''"
    by (simp_all add: digit_of_hex_digit hex_digit_not_underscore)
  show ?case
  proof (cases "n < 16")
    case True
    then show ?thesis using d by (simp add: nat_hex.simps [of n])
  next
    case False
    then show ?thesis
      using 1 d by (subst nat_hex.simps) (auto simp: uint_digits_append)
  qed
qed

text \<open>A quantity as the RPC encodes it is read back, if it fits a signed 64-bit integer.\<close>

lemma ParseInt_EncodeBig:
  "ParseInt (hexutil_EncodeBig n) = (if n < 2 ^ 63 then Inr (int n) else Inl ErrRange)"
proof -
  have "int_base (hexutil_EncodeBig n) = (16, nat_hex n)"
    by (simp add: int_base_def hexutil_EncodeBig_def lower_def Suc_le_eq)
  then have "ParseUint (hexutil_EncodeBig n) = (if n < 2 ^ 64 then Inr n else Inl ErrRange)"
    by (simp add: ParseUint_def uint_digits_nat_hex hexutil_EncodeBig_def)
  then show ?thesis
    by (simp add: ParseInt_def hexutil_EncodeBig_def)
qed

end
