(* ===== verification/Evm_Json.thy ===== *)
theory Evm_Json imports Go_Strconv begin

text \<open>
  JSON as the EVM client uses it. The text of JSON and the encodings of go-ethereum's types
  (hashes, addresses, hexadecimal numbers and bytes, withdrawals) are not code of the
  repository: they are the record \<open>eth_json\<close>, and the locale \<open>eth_codec\<close> states that decoding
  inverts encoding. \<open>hex_codec\<close> is the instance with go-ethereum's hexadecimal strings, on
  which the locale is interpreted. \<open>'t\<close> is the type of a JSON text. A big number is a signed
  integer; its decoding accepts 256 bits and no sign. Of an execution witness the code decodes
  and keeps nothing, so \<open>json_witness\<close> only tells whether it can be decoded.

  The decoding of a struct by \<open>encoding/json\<close> is modelled on values: members are looked up by
  their exact name, the last one of a name counts, and the first field of the struct that
  fails gives the error (the code only passes the error on). Numbers are integers.
\<close>

section \<open>JSON\<close>

datatype json = JNull | JBool bool | JNumber int | JString string | JArray "json list"
  | JObject "(string \<times> json) list"

record ('t, 'wd) eth_json =
  json_text :: "json \<Rightarrow> 't"
  text_json :: "'t \<Rightarrow> string + json"
  fixed_json :: "bytes \<Rightarrow> json"
  json_fixed :: "nat \<Rightarrow> json \<Rightarrow> string + bytes"
  bytes_json :: "bytes \<Rightarrow> json"
  json_bytes :: "json \<Rightarrow> string + bytes"
  uint_json :: "64 word \<Rightarrow> json"
  json_uint :: "json \<Rightarrow> string + 64 word"
  big_json :: "int \<Rightarrow> json"
  json_big :: "json \<Rightarrow> string + int"
  withdrawals_json :: "'wd list \<Rightarrow> json"
  json_withdrawals :: "json \<Rightarrow> string + 'wd list"
  json_witness :: "json \<Rightarrow> string + unit"

locale eth_codec =
  fixes c :: "('t, 'wd) eth_json"
  assumes parsed: "text_json c (json_text c j) = Inr j"
    and fixed: "json_fixed c (length bs) (fixed_json c bs) = Inr bs" "fixed_json c bs \<noteq> JNull"
    and bytes: "json_bytes c (bytes_json c bs) = Inr bs" "bytes_json c bs \<noteq> JNull"
    and fixed_length: "json_fixed c n j = Inr bs \<Longrightarrow> length bs = n"
    and uint: "json_uint c (uint_json c w) = Inr w" "uint_json c w \<noteq> JNull"
    and big: "0 \<le> i \<Longrightarrow> i < 2 ^ 256 \<Longrightarrow> json_big c (big_json c i) = Inr i" "big_json c i \<noteq> JNull"
    and big_limit: "json_big c j = Inr i \<Longrightarrow> 0 \<le> i \<and> i < 2 ^ 256"
    and big_refused: "i < 0 \<or> 2 ^ 256 \<le> i \<Longrightarrow> isl (json_big c (big_json c i))"
    and withdrawals: "json_withdrawals c (withdrawals_json c ws) = Inr ws"
      "withdrawals_json c ws \<noteq> JNull"

section \<open>Decoding the fields of a struct\<close>

definition bind_sum :: "'e + 'a \<Rightarrow> ('a \<Rightarrow> 'e + 'b) \<Rightarrow> 'e + 'b" where
  "bind_sum x f = (case x of Inl err \<Rightarrow> Inl err | Inr v \<Rightarrow> f v)"

text \<open>A pointer field: nil when the member is missing or null.\<close>

definition pointer_field :: "(json \<Rightarrow> string + 'a) \<Rightarrow> string \<Rightarrow> (string \<times> json) list \<Rightarrow>
    string + 'a option" where
  "pointer_field decode name members =
     (case map_of (rev members) name of
        None \<Rightarrow> Inr None
      | Some j \<Rightarrow> if j = JNull then Inr None else map_sum id Some (decode j))"

fun json_each :: "(json \<Rightarrow> string + 'a) \<Rightarrow> json list \<Rightarrow> string + 'a list" where
  "json_each decode [] = Inr []"
| "json_each decode (j # js) =
     bind_sum (decode j) (\<lambda>x. map_sum id ((#) x) (json_each decode js))"

definition json_list_of :: "(json \<Rightarrow> string + 'a) \<Rightarrow> json \<Rightarrow> string + 'a list" where
  "json_list_of decode j = (case j of JArray js \<Rightarrow> json_each decode js | _ \<Rightarrow> Inl ''cannot unmarshal'')"

definition object_members :: "json \<Rightarrow> string + (string \<times> json) list" where
  "object_members j =
     (case j of JObject members \<Rightarrow> Inr members | JNull \<Rightarrow> Inr [] | _ \<Rightarrow> Inl ''cannot unmarshal'')"

text \<open>A field that is not a pointer keeps its zero value when the member is missing.\<close>

definition value_field :: "(json \<Rightarrow> string + 'a) \<Rightarrow> 'a \<Rightarrow> string \<Rightarrow> (string \<times> json) list \<Rightarrow> string + 'a" where
  "value_field decode zero name members =
     (case map_of (rev members) name of None \<Rightarrow> Inr zero | Some j \<Rightarrow> decode j)"

text \<open>The plain Go types: null leaves the zero value.\<close>

definition plain_string :: "json \<Rightarrow> string + string" where
  "plain_string j =
     (case j of JString s \<Rightarrow> Inr s | JNull \<Rightarrow> Inr [] | _ \<Rightarrow> Inl ''cannot unmarshal'')"

definition plain_bool :: "json \<Rightarrow> string + bool" where
  "plain_bool j =
     (case j of JBool b \<Rightarrow> Inr b | JNull \<Rightarrow> Inr False | _ \<Rightarrow> Inl ''cannot unmarshal'')"

definition plain_uint64 :: "json \<Rightarrow> string + 64 word" where
  "plain_uint64 j =
     (case j of
        JNumber n \<Rightarrow> if 0 \<le> n \<and> n < 2 ^ 64 then Inr (word_of_int n) else Inl ''cannot unmarshal''
      | JNull \<Rightarrow> Inr 0
      | _ \<Rightarrow> Inl ''cannot unmarshal'')"

definition nullable :: "('a \<Rightarrow> json) \<Rightarrow> 'a option \<Rightarrow> json" where
  "nullable f x = (case x of None \<Rightarrow> JNull | Some v \<Rightarrow> f v)"

lemma bind_sum_simps [simp]:
  "bind_sum (Inl err) f = Inl err"
  "bind_sum (Inr v) f = f v"
  by (simp_all add: bind_sum_def)

lemma bind_sum_Inr_iff: "bind_sum x f = Inr y \<longleftrightarrow> (\<exists>v. x = Inr v \<and> f v = Inr y)"
  by (simp add: bind_sum_def split: sum.split)

lemma pointer_field_SomeD:
  "pointer_field decode name ms = Inr (Some v) \<Longrightarrow> \<exists>j. map_of (rev ms) name = Some j \<and> j \<noteq> JNull"
  by (auto simp: pointer_field_def split: option.splits if_splits)

lemma object_members_object [simp]: "object_members (JObject ms) = Inr ms"
  by (simp add: object_members_def)

lemma json_each_map:
  "(\<And>x. decode (f x) = Inr x) \<Longrightarrow> json_each decode (map f xs) = Inr xs"
  by (induction xs) simp_all

lemma pointer_field_present:
  "map_of (rev ms) name = Some (f v) \<Longrightarrow> decode (f v) = Inr v \<Longrightarrow> f v \<noteq> JNull \<Longrightarrow>
     pointer_field decode name ms = Inr (Some v)"
  by (simp add: pointer_field_def)

lemma pointer_field_nullable:
  "map_of (rev ms) name = Some (nullable f x) \<Longrightarrow>
     (\<And>v. x = Some v \<Longrightarrow> decode (f v) = Inr v \<and> f v \<noteq> JNull) \<Longrightarrow>
     pointer_field decode name ms = Inr x"
  by (cases x) (simp_all add: pointer_field_def nullable_def)

lemma value_field_present:
  "map_of (rev ms) name = Some j \<Longrightarrow> decode j = Inr v \<Longrightarrow> value_field decode zero name ms = Inr v"
  by (simp add: value_field_def)

lemma plain_uint64_number: "plain_uint64 (JNumber (uint w)) = Inr w"
proof -
  have "uint w < 2 ^ LENGTH(64)" by (rule unsigned_less)
  then show ?thesis by (simp add: plain_uint64_def)
qed

context eth_codec
begin

lemma fixed_sized: "length bs = n \<Longrightarrow> json_fixed c n (fixed_json c bs) = Inr bs"
  using fixed(1) by blast

lemma list_of_bytes: "json_list_of (json_bytes c) (JArray (map (bytes_json c) txs)) = Inr txs"
  by (simp add: json_list_of_def json_each_map bytes(1))

end

section \<open>Hexadecimal strings\<close>

definition hexutil_Decode :: "string \<Rightarrow> string + bytes" where
  "hexutil_Decode s =
     (if take 2 s \<noteq> ''0x'' then Inl ''hex string without 0x prefix''
      else (case hex_DecodeString (drop 2 s) of
              Inl _ \<Rightarrow> Inl ''invalid hex string'' | Inr bs \<Rightarrow> Inr bs))"

fun hex_digits_value :: "nat \<Rightarrow> string \<Rightarrow> nat option" where
  "hex_digits_value n [] = Some n"
| "hex_digits_value n (ch # s) =
     (case hex_value ch of None \<Rightarrow> None | Some d \<Rightarrow> hex_digits_value (16 * n + d) s)"

definition hexutil_DecodeNat :: "nat \<Rightarrow> string \<Rightarrow> string + nat" where
  "hexutil_DecodeNat limit s =
     (if take 2 s \<noteq> ''0x'' then Inl ''hex string without 0x prefix''
      else if drop 2 s = [] then Inl ''hex string \"0x\"''
      else if s ! 2 = CHR ''0'' \<and> 3 < length s then Inl ''hex number with leading zero digits''
      else (case hex_digits_value 0 (drop 2 s) of
              None \<Rightarrow> Inl ''invalid hex string''
            | Some n \<Rightarrow> if n < limit then Inr n else Inl ''hex number out of range''))"

definition string_field :: "(string \<Rightarrow> string + 'a) \<Rightarrow> json \<Rightarrow> string + 'a" where
  "string_field f j = (case j of JString s \<Rightarrow> f s | _ \<Rightarrow> Inl ''non-string'')"

definition hex_codec :: "(json, json) eth_json" where
  "hex_codec = \<lparr>
     json_text = (\<lambda>j. j),
     text_json = Inr,
     fixed_json = (\<lambda>bs. JString (hexutil_Encode bs)),
     json_fixed = (\<lambda>n. string_field (\<lambda>s. bind_sum (hexutil_Decode s)
       (\<lambda>bs. if length bs = n then Inr bs else Inl ''hex string of another length''))),
     bytes_json = (\<lambda>bs. JString (hexutil_Encode bs)),
     json_bytes = string_field hexutil_Decode,
     uint_json = (\<lambda>w. JString (hexutil_EncodeBig (unat w))),
     json_uint = string_field (\<lambda>s. map_sum id word_of_nat (hexutil_DecodeNat (2 ^ 64) s)),
     big_json = (\<lambda>n. JString ((if n < 0 then ''-'' else []) @ hexutil_EncodeBig (nat \<bar>n\<bar>))),
     json_big = string_field (\<lambda>s. map_sum id int (hexutil_DecodeNat (2 ^ 256) s)),
     withdrawals_json = JArray,
     json_withdrawals = json_list_of Inr,
     json_witness = (\<lambda>j. map_sum id (\<lambda>_. ()) (object_members j))\<rparr>"

lemma hexutil_Decode_Encode: "hexutil_Decode (hexutil_Encode bs) = Inr bs"
  by (simp add: hexutil_Decode_def hexutil_Encode_eq hex_decode_encode)

lemma hex_digits_value_append:
  "hex_digits_value n (s @ t) = (case hex_digits_value n s of None \<Rightarrow> None | Some m \<Rightarrow> hex_digits_value m t)"
  by (induction s arbitrary: n) (auto split: option.split)

lemma hex_digits_value_nat_hex: "hex_digits_value 0 (nat_hex n) = Some n"
proof (induction n rule: nat_hex.induct)
  case (1 n)
  show ?case
  proof (cases "n < 16")
    case True
    then show ?thesis by (simp add: nat_hex.simps [of n] hex_value_digit)
  next
    case False
    then show ?thesis
      using 1 by (subst nat_hex.simps) (simp add: hex_digits_value_append hex_value_digit)
  qed
qed

lemma hex_digit_zero: "n < 16 \<Longrightarrow> hex_digit n = CHR ''0'' \<longleftrightarrow> n = 0"
  by (drule below_16, elim insertE emptyE) (simp_all add: hex_digit_def)

lemma nat_hex_no_leading_zero: "0 < n \<Longrightarrow> hd (nat_hex n) \<noteq> CHR ''0''"
proof (induction n rule: nat_hex.induct)
  case (1 n)
  show ?case
  proof (cases "n < 16")
    case True
    then show ?thesis using 1 by (simp add: nat_hex.simps [of n] hex_digit_zero)
  next
    case False
    then have "0 < n div 16" by (simp add: div_greater_zero_iff)
    then show ?thesis using 1 False by (subst nat_hex.simps) simp
  qed
qed

lemma hexutil_Decode_EncodeBig: "n < limit \<Longrightarrow> hexutil_DecodeNat limit (hexutil_EncodeBig n) = Inr n"
proof (cases "n = 0")
  case False
  assume "n < limit"
  moreover have "nat_hex n ! 0 \<noteq> CHR ''0''"
    using nat_hex_no_leading_zero [of n] False by (simp add: hd_conv_nth)
  ultimately show ?thesis
    by (simp add: hexutil_DecodeNat_def hexutil_EncodeBig_def hex_digits_value_nat_hex)
qed (simp add: hexutil_DecodeNat_def hexutil_EncodeBig_def nat_hex.simps [of 0] hex_value_digit hex_digit_def hex_value_def)

lemma json_each_Inr [simp]: "json_each Inr js = Inr js"
  by (induction js) (simp_all)

lemma hexutil_DecodeNat_limit: "hexutil_DecodeNat limit s = Inr n \<Longrightarrow> n < limit"
  by (auto simp: hexutil_DecodeNat_def split: if_splits option.splits)

lemma hexutil_Decode_beyond: "limit \<le> n \<Longrightarrow> 0 < limit \<Longrightarrow> isl (hexutil_DecodeNat limit (hexutil_EncodeBig n))"
proof (cases "n = 0")
  case False
  then have "nat_hex n ! 0 \<noteq> CHR ''0''"
    using nat_hex_no_leading_zero [of n] by (simp add: hd_conv_nth)
  moreover assume "limit \<le> n"
  ultimately show ?thesis
    by (simp add: hexutil_DecodeNat_def hexutil_EncodeBig_def hex_digits_value_nat_hex)
qed simp

lemma signed_refused: "isl (hexutil_DecodeNat limit (CHR ''-'' # s))"
  by (simp add: hexutil_DecodeNat_def)

lemma string_field_InrD: "string_field f j = Inr v \<Longrightarrow> \<exists>s. f s = Inr v"
  by (auto simp: string_field_def split: json.splits)

interpretation hex: eth_codec hex_codec
proof
  show "length bs = n" if "json_fixed hex_codec n j = Inr bs" for n j bs
    using that by (auto simp: hex_codec_def bind_sum_Inr_iff split: if_splits dest!: string_field_InrD)
  show "0 \<le> n \<and> n < 2 ^ 256" if run: "json_big hex_codec j = Inr n" for j n
  proof -
    obtain s where "map_sum id int (hexutil_DecodeNat (2 ^ 256) s) = Inr n"
      using run by (auto simp: hex_codec_def dest!: string_field_InrD)
    then obtain m where "n = int m" "hexutil_DecodeNat (2 ^ 256) s = Inr m"
      by (cases "hexutil_DecodeNat (2 ^ 256) s") auto
    then show ?thesis using hexutil_DecodeNat_limit [of "2 ^ 256" s m] by simp
  qed
  show "json_big hex_codec (big_json hex_codec n) = Inr n" if "0 \<le> n" "n < 2 ^ 256" for n
  proof -
    have "nat n < 2 ^ 256" using that by (simp add: nat_less_iff)
    then have "hexutil_DecodeNat (2 ^ 256) (hexutil_EncodeBig (nat n)) = Inr (nat n)"
      by (rule hexutil_Decode_EncodeBig)
    then show ?thesis using that by (simp add: hex_codec_def string_field_def)
  qed
  show "isl (json_big hex_codec (big_json hex_codec n))" if "n < 0 \<or> 2 ^ 256 \<le> n" for n
  proof (cases "n < 0")
    case True
    then show ?thesis
      using signed_refused [of "2 ^ 256"] by (simp add: hex_codec_def string_field_def isl_map_sum)
  next
    case False
    then have "2 ^ 256 \<le> nat n" using that by (simp add: le_nat_iff)
    then have "isl (hexutil_DecodeNat (2 ^ 256) (hexutil_EncodeBig (nat n)))"
      by (rule hexutil_Decode_beyond) simp
    then show ?thesis using False by (simp add: hex_codec_def string_field_def isl_map_sum)
  qed
next
  fix w :: "64 word"
  have "unat w < 2 ^ LENGTH(64)" by (rule unsigned_less)
  then have "unat w < 2 ^ 64" by simp
  then show "json_uint hex_codec (uint_json hex_codec w) = Inr w"
    by (simp only: hex_codec_def eth_json.simps string_field_def json.simps hexutil_Decode_EncodeBig
        map_sum.simps) simp
qed (simp_all add: hex_codec_def string_field_def hexutil_Decode_Encode hexutil_Decode_EncodeBig json_list_of_def)

end
