(* ===== verification/Evm_Payload.thy ===== *)
theory Evm_Payload imports Evm_Json begin

text \<open>
  The execution payload and its JSON (\<open>execution/evm/primitives.go\<close>): \<open>ExecutableData\<close> with
  \<open>MarshalJSON\<close> and \<open>UnmarshalJSON\<close>, and the envelope in which the engine returns it. A pointer
  is an option; so is a slice whose nil the code tells from the empty one (\<open>Transactions\<close>,
  \<open>Withdrawals\<close>).
\<close>

section \<open>The payload\<close>

record 'wd ExecutableData =
  parentHash :: bytes
  feeRecipient :: bytes
  stateRoot :: bytes
  receiptsRoot :: bytes
  logsBloom :: bytes
  prevRandao :: bytes
  blockNumber :: "64 word"
  gasLimit :: "64 word"
  gasUsed :: "64 word"
  timestamp :: "64 word"
  extraData :: bytes
  baseFeePerGas :: "int option"
  blockHash :: bytes
  transactions :: "bytes list option"
  withdrawals :: "'wd list option"
  blobGasUsed :: "64 word option"
  excessBlobGas :: "64 word option"

definition payload_members :: "('t, 'wd) eth_json \<Rightarrow> 'wd ExecutableData \<Rightarrow> (string \<times> json) list" where
  "payload_members c e =
     [(''parentHash'', fixed_json c (parentHash e)),
      (''feeRecipient'', fixed_json c (feeRecipient e)),
      (''stateRoot'', fixed_json c (stateRoot e)),
      (''receiptsRoot'', fixed_json c (receiptsRoot e)),
      (''logsBloom'', bytes_json c (logsBloom e)),
      (''prevRandao'', fixed_json c (prevRandao e)),
      (''blockNumber'', uint_json c (blockNumber e)),
      (''gasLimit'', uint_json c (gasLimit e)),
      (''gasUsed'', uint_json c (gasUsed e)),
      (''timestamp'', uint_json c (timestamp e)),
      (''extraData'', bytes_json c (extraData e)),
      (''baseFeePerGas'', nullable (big_json c) (baseFeePerGas e)),
      (''blockHash'', fixed_json c (blockHash e)),
      (''transactions'', nullable (\<lambda>txs. JArray (map (bytes_json c) txs)) (transactions e)),
      (''withdrawals'', nullable (withdrawals_json c) (withdrawals e)),
      (''blobGasUsed'', nullable (uint_json c) (blobGasUsed e)),
      (''excessBlobGas'', nullable (uint_json c) (excessBlobGas e))]"

definition payload_json :: "('t, 'wd) eth_json \<Rightarrow> 'wd ExecutableData \<Rightarrow> json" where
  "payload_json c e = JObject (payload_members c e)"

definition MarshalJSON :: "('t, 'wd) eth_json \<Rightarrow> 'wd ExecutableData \<Rightarrow> 't" where
  "MarshalJSON c e = json_text c (payload_json c e)"

section \<open>Decoding\<close>

definition missing_field :: "string \<Rightarrow> string \<Rightarrow> string" where
  "missing_field struct name = ''missing required field '' @ [CHR 0x27] @ name @ [CHR 0x27] @
     '' for '' @ struct"

definition required :: "string \<Rightarrow> string \<Rightarrow> 'a option \<Rightarrow> string + 'a" where
  "required struct name x = (case x of None \<Rightarrow> Inl (missing_field struct name) | Some v \<Rightarrow> Inr v)"

text \<open>All members are decoded before the first missing one is reported; the execution witness is
  decoded and dropped.\<close>

definition payload_of_json :: "('t, 'wd) eth_json \<Rightarrow> json \<Rightarrow> string + 'wd ExecutableData" where
  "payload_of_json c j =
     bind_sum (object_members j) (\<lambda>ms.
     bind_sum (pointer_field (json_fixed c 32) ''parentHash'' ms) (\<lambda>dParentHash.
     bind_sum (pointer_field (json_fixed c 20) ''feeRecipient'' ms) (\<lambda>dFeeRecipient.
     bind_sum (pointer_field (json_fixed c 32) ''stateRoot'' ms) (\<lambda>dStateRoot.
     bind_sum (pointer_field (json_fixed c 32) ''receiptsRoot'' ms) (\<lambda>dReceiptsRoot.
     bind_sum (pointer_field (json_bytes c) ''logsBloom'' ms) (\<lambda>dLogsBloom.
     bind_sum (pointer_field (json_fixed c 32) ''prevRandao'' ms) (\<lambda>dRandom.
     bind_sum (pointer_field (json_uint c) ''blockNumber'' ms) (\<lambda>dNumber.
     bind_sum (pointer_field (json_uint c) ''gasLimit'' ms) (\<lambda>dGasLimit.
     bind_sum (pointer_field (json_uint c) ''gasUsed'' ms) (\<lambda>dGasUsed.
     bind_sum (pointer_field (json_uint c) ''timestamp'' ms) (\<lambda>dTimestamp.
     bind_sum (pointer_field (json_bytes c) ''extraData'' ms) (\<lambda>dExtraData.
     bind_sum (pointer_field (json_big c) ''baseFeePerGas'' ms) (\<lambda>dBaseFeePerGas.
     bind_sum (pointer_field (json_fixed c 32) ''blockHash'' ms) (\<lambda>dBlockHash.
     bind_sum (pointer_field (json_list_of (json_bytes c)) ''transactions'' ms) (\<lambda>dTransactions.
     bind_sum (pointer_field (json_withdrawals c) ''withdrawals'' ms) (\<lambda>dWithdrawals.
     bind_sum (pointer_field (json_uint c) ''blobGasUsed'' ms) (\<lambda>dBlobGasUsed.
     bind_sum (pointer_field (json_uint c) ''excessBlobGas'' ms) (\<lambda>dExcessBlobGas.
     bind_sum (pointer_field (json_witness c) ''executionWitness'' ms) (\<lambda>_.
     bind_sum (required ''ExecutableData'' ''parentHash'' dParentHash) (\<lambda>parentHash.
     bind_sum (required ''ExecutableData'' ''feeRecipient'' dFeeRecipient) (\<lambda>feeRecipient.
     bind_sum (required ''ExecutableData'' ''stateRoot'' dStateRoot) (\<lambda>stateRoot.
     bind_sum (required ''ExecutableData'' ''receiptsRoot'' dReceiptsRoot) (\<lambda>receiptsRoot.
     bind_sum (required ''ExecutableData'' ''logsBloom'' dLogsBloom) (\<lambda>logsBloom.
     bind_sum (required ''ExecutableData'' ''prevRandao'' dRandom) (\<lambda>prevRandao.
     bind_sum (required ''ExecutableData'' ''blockNumber'' dNumber) (\<lambda>blockNumber.
     bind_sum (required ''ExecutableData'' ''gasLimit'' dGasLimit) (\<lambda>gasLimit.
     bind_sum (required ''ExecutableData'' ''gasUsed'' dGasUsed) (\<lambda>gasUsed.
     bind_sum (required ''ExecutableData'' ''timestamp'' dTimestamp) (\<lambda>timestamp.
     bind_sum (required ''ExecutableData'' ''extraData'' dExtraData) (\<lambda>extraData.
     bind_sum (required ''ExecutableData'' ''baseFeePerGas'' dBaseFeePerGas) (\<lambda>baseFeePerGas.
     bind_sum (required ''ExecutableData'' ''blockHash'' dBlockHash) (\<lambda>blockHash.
     bind_sum (required ''ExecutableData'' ''transactions'' dTransactions) (\<lambda>transactions.
     Inr \<lparr>parentHash = parentHash, feeRecipient = feeRecipient, stateRoot = stateRoot,
       receiptsRoot = receiptsRoot, logsBloom = logsBloom, prevRandao = prevRandao,
       blockNumber = blockNumber, gasLimit = gasLimit, gasUsed = gasUsed, timestamp = timestamp,
       extraData = extraData, baseFeePerGas = Some baseFeePerGas, blockHash = blockHash,
       transactions = Some transactions, withdrawals = dWithdrawals,
       blobGasUsed = dBlobGasUsed, excessBlobGas = dExcessBlobGas\<rparr>)))))))))))))))))))))))))))))))))"

definition UnmarshalJSON :: "('t, 'wd) eth_json \<Rightarrow> 't \<Rightarrow> string + 'wd ExecutableData" where
  "UnmarshalJSON c input = bind_sum (text_json c input) (payload_of_json c)"

section \<open>Round trip\<close>

lemma required_simps [simp]:
  "required struct name (Some v) = Inr v"
  "required struct name None = Inl (missing_field struct name)"
  by (simp_all add: required_def)

lemma required_Inr_iff: "required struct name x = Inr v \<longleftrightarrow> x = Some v"
  by (simp add: required_def split: option.split)

lemma payload_lookup:
  "map_of (rev (payload_members c e)) ''parentHash'' = Some (fixed_json c (parentHash e))"
  "map_of (rev (payload_members c e)) ''feeRecipient'' = Some (fixed_json c (feeRecipient e))"
  "map_of (rev (payload_members c e)) ''stateRoot'' = Some (fixed_json c (stateRoot e))"
  "map_of (rev (payload_members c e)) ''receiptsRoot'' = Some (fixed_json c (receiptsRoot e))"
  "map_of (rev (payload_members c e)) ''logsBloom'' = Some (bytes_json c (logsBloom e))"
  "map_of (rev (payload_members c e)) ''prevRandao'' = Some (fixed_json c (prevRandao e))"
  "map_of (rev (payload_members c e)) ''blockNumber'' = Some (uint_json c (blockNumber e))"
  "map_of (rev (payload_members c e)) ''gasLimit'' = Some (uint_json c (gasLimit e))"
  "map_of (rev (payload_members c e)) ''gasUsed'' = Some (uint_json c (gasUsed e))"
  "map_of (rev (payload_members c e)) ''timestamp'' = Some (uint_json c (timestamp e))"
  "map_of (rev (payload_members c e)) ''extraData'' = Some (bytes_json c (extraData e))"
  "map_of (rev (payload_members c e)) ''baseFeePerGas'' = Some (nullable (big_json c) (baseFeePerGas e))"
  "map_of (rev (payload_members c e)) ''blockHash'' = Some (fixed_json c (blockHash e))"
  "map_of (rev (payload_members c e)) ''transactions'' =
     Some (nullable (\<lambda>txs. JArray (map (bytes_json c) txs)) (transactions e))"
  "map_of (rev (payload_members c e)) ''withdrawals'' = Some (nullable (withdrawals_json c) (withdrawals e))"
  "map_of (rev (payload_members c e)) ''blobGasUsed'' = Some (nullable (uint_json c) (blobGasUsed e))"
  "map_of (rev (payload_members c e)) ''excessBlobGas'' = Some (nullable (uint_json c) (excessBlobGas e))"
  by (simp_all add: payload_members_def)

text \<open>The payloads whose fields have the sizes of their Go types.\<close>

definition payload_sized :: "'wd ExecutableData \<Rightarrow> bool" where
  "payload_sized e \<longleftrightarrow>
     length (parentHash e) = 32 \<and> length (feeRecipient e) = 20 \<and> length (stateRoot e) = 32 \<and>
     length (receiptsRoot e) = 32 \<and> length (prevRandao e) = 32 \<and> length (blockHash e) = 32"

text \<open>The integers whose encoding is decoded again.\<close>

definition big_fits :: "int \<Rightarrow> bool" where
  "big_fits n \<longleftrightarrow> 0 \<le> n \<and> n < 2 ^ 256"

context eth_codec
begin

lemma payload_fields:
  assumes "payload_sized e"
  shows
    "pointer_field (json_fixed c 32) ''parentHash'' (payload_members c e) = Inr (Some (parentHash e))"
    "pointer_field (json_fixed c 20) ''feeRecipient'' (payload_members c e) = Inr (Some (feeRecipient e))"
    "pointer_field (json_fixed c 32) ''stateRoot'' (payload_members c e) = Inr (Some (stateRoot e))"
    "pointer_field (json_fixed c 32) ''receiptsRoot'' (payload_members c e) = Inr (Some (receiptsRoot e))"
    "pointer_field (json_bytes c) ''logsBloom'' (payload_members c e) = Inr (Some (logsBloom e))"
    "pointer_field (json_fixed c 32) ''prevRandao'' (payload_members c e) = Inr (Some (prevRandao e))"
    "pointer_field (json_uint c) ''blockNumber'' (payload_members c e) = Inr (Some (blockNumber e))"
    "pointer_field (json_uint c) ''gasLimit'' (payload_members c e) = Inr (Some (gasLimit e))"
    "pointer_field (json_uint c) ''gasUsed'' (payload_members c e) = Inr (Some (gasUsed e))"
    "pointer_field (json_uint c) ''timestamp'' (payload_members c e) = Inr (Some (timestamp e))"
    "pointer_field (json_bytes c) ''extraData'' (payload_members c e) = Inr (Some (extraData e))"
    "pointer_field (json_fixed c 32) ''blockHash'' (payload_members c e) = Inr (Some (blockHash e))"
  using assms fixed(2) bytes uint
  by (auto intro!: pointer_field_present fixed_sized simp: payload_sized_def payload_lookup)

lemma payload_pointers:
  assumes "payload_sized e"
  shows
    "pred_option big_fits (baseFeePerGas e) \<Longrightarrow>
       pointer_field (json_big c) ''baseFeePerGas'' (payload_members c e) = Inr (baseFeePerGas e)"
    "baseFeePerGas e = Some n \<Longrightarrow> \<not> big_fits n \<Longrightarrow>
       isl (pointer_field (json_big c) ''baseFeePerGas'' (payload_members c e))"
    "pointer_field (json_list_of (json_bytes c)) ''transactions'' (payload_members c e) =
       Inr (transactions e)"
    "pointer_field (json_withdrawals c) ''withdrawals'' (payload_members c e) = Inr (withdrawals e)"
    "pointer_field (json_uint c) ''blobGasUsed'' (payload_members c e) = Inr (blobGasUsed e)"
    "pointer_field (json_uint c) ''excessBlobGas'' (payload_members c e) = Inr (excessBlobGas e)"
    "pointer_field (json_witness c) ''executionWitness'' (payload_members c e) = Inr None"
proof -
  show "pointer_field (json_witness c) ''executionWitness'' (payload_members c e) = Inr None"
    by (simp add: pointer_field_def payload_members_def)
  show "isl (pointer_field (json_big c) ''baseFeePerGas'' (payload_members c e))"
    if "baseFeePerGas e = Some n" "\<not> big_fits n"
    using that big(2) [of n] big_refused [of n]
    by (auto simp: pointer_field_def payload_lookup nullable_def big_fits_def isl_map_sum)
qed (use assms list_of_bytes uint big withdrawals in
    \<open>auto intro!: pointer_field_nullable simp: payload_sized_def payload_lookup big_fits_def\<close>)

lemma payload_decodes:
  assumes "payload_sized e" and "pred_option big_fits (baseFeePerGas e)"
  shows "payload_of_json c (payload_json c e) =
    (if baseFeePerGas e = None then Inl (missing_field ''ExecutableData'' ''baseFeePerGas'')
     else if transactions e = None then Inl (missing_field ''ExecutableData'' ''transactions'') else Inr e)"
  using payload_fields [OF assms(1)] payload_pointers(1) [OF assms] payload_pointers(3-) [OF assms(1)]
  by (cases "baseFeePerGas e"; cases "transactions e") (simp_all add: payload_of_json_def payload_json_def)

lemma payload_fee_refused:
  assumes "payload_sized e" and "baseFeePerGas e = Some n" and "\<not> big_fits n"
  shows "isl (payload_of_json c (payload_json c e))"
  using payload_fields [OF assms(1)] payload_pointers(2) [OF assms]
  by (auto simp: payload_of_json_def payload_json_def isl_def)

lemma unmarshal_marshal:
  "payload_sized e \<Longrightarrow> pred_option big_fits (baseFeePerGas e) \<Longrightarrow> UnmarshalJSON c (MarshalJSON c e) =
    (if baseFeePerGas e = None then Inl (missing_field ''ExecutableData'' ''baseFeePerGas'')
     else if transactions e = None then Inl (missing_field ''ExecutableData'' ''transactions'') else Inr e)"
  by (simp add: UnmarshalJSON_def MarshalJSON_def parsed payload_decodes)

end

text \<open>What is accepted has the sizes, and can be encoded and decoded again.\<close>

definition payload_complete :: "'wd ExecutableData \<Rightarrow> bool" where
  "payload_complete e \<longleftrightarrow> payload_sized e \<and> baseFeePerGas e \<noteq> None \<and>
     pred_option big_fits (baseFeePerGas e) \<and> transactions e \<noteq> None"

lemma pointer_field_decoded:
  "pointer_field decode name ms = Inr (Some v) \<Longrightarrow> \<exists>j. decode j = Inr v"
  by (auto simp: pointer_field_def split: option.splits if_splits sum.splits)
    (metis (no_types) Inr_inject Inl_Inr_False map_sum.simps old.sum.exhaust option.inject)

context eth_codec
begin

lemma decoded_complete: "payload_of_json c j = Inr e \<Longrightarrow> payload_complete e"
  unfolding payload_of_json_def bind_sum_Inr_iff required_Inr_iff
  by (auto simp: payload_complete_def payload_sized_def big_fits_def
      dest!: pointer_field_decoded dest: fixed_length big_limit)

lemma complete_roundtrip: "payload_complete e \<Longrightarrow> UnmarshalJSON c (MarshalJSON c e) = Inr e"
  by (simp add: payload_complete_def unmarshal_marshal)

end

section \<open>The envelope\<close>

record BlobsBundleV1 =
  commitments :: "bytes list option"
  proofs :: "bytes list option"
  blobs :: "bytes list option"

record 'wd ExecutionPayloadEnvelope =
  ExecutionPayload :: "'wd ExecutableData option"
  BlockValue :: "int option"
  BlobsBundle :: "BlobsBundleV1 option"
  Override :: bool

definition bytes_list_json :: "('t, 'wd) eth_json \<Rightarrow> bytes list \<Rightarrow> json" where
  "bytes_list_json c bss = JArray (map (bytes_json c) bss)"

definition blobs_json :: "('t, 'wd) eth_json \<Rightarrow> BlobsBundleV1 \<Rightarrow> json" where
  "blobs_json c b = JObject
     [(''commitments'', nullable (bytes_list_json c) (commitments b)),
      (''proofs'', nullable (bytes_list_json c) (proofs b)),
      (''blobs'', nullable (bytes_list_json c) (blobs b))]"

definition blobs_of_json :: "('t, 'wd) eth_json \<Rightarrow> json \<Rightarrow> string + BlobsBundleV1" where
  "blobs_of_json c j =
     bind_sum (object_members j) (\<lambda>ms.
     bind_sum (pointer_field (json_list_of (json_bytes c)) ''commitments'' ms) (\<lambda>dCommitments.
     bind_sum (pointer_field (json_list_of (json_bytes c)) ''proofs'' ms) (\<lambda>dProofs.
     bind_sum (pointer_field (json_list_of (json_bytes c)) ''blobs'' ms) (\<lambda>dBlobs.
     Inr \<lparr>commitments = dCommitments, proofs = dProofs, blobs = dBlobs\<rparr>))))"

definition envelope_json :: "('t, 'wd) eth_json \<Rightarrow> 'wd ExecutionPayloadEnvelope \<Rightarrow> json" where
  "envelope_json c e = JObject
     [(''executionPayload'', nullable (payload_json c) (ExecutionPayload e)),
      (''blockValue'', nullable (big_json c) (BlockValue e)),
      (''blobsBundle'', nullable (blobs_json c) (BlobsBundle e)),
      (''executionRequests'', JNull),
      (''shouldOverrideBuilder'', JBool (Override e))]"

definition envelope_of_json :: "('t, 'wd) eth_json \<Rightarrow> json \<Rightarrow> string + 'wd ExecutionPayloadEnvelope" where
  "envelope_of_json c j =
     bind_sum (object_members j) (\<lambda>ms.
     bind_sum (pointer_field (payload_of_json c) ''executionPayload'' ms) (\<lambda>dExecutionPayload.
     bind_sum (pointer_field (json_big c) ''blockValue'' ms) (\<lambda>dBlockValue.
     bind_sum (pointer_field (blobs_of_json c) ''blobsBundle'' ms) (\<lambda>dBlobsBundle.
     bind_sum (pointer_field (json_list_of (json_bytes c)) ''executionRequests'' ms) (\<lambda>_.
     bind_sum (pointer_field plain_bool ''shouldOverrideBuilder'' ms) (\<lambda>dOverride.
     bind_sum (pointer_field (json_bytes c) ''witness'' ms) (\<lambda>_.
     bind_sum (required ''ExecutionPayloadEnvelope'' ''executionPayload'' dExecutionPayload) (\<lambda>payload.
     bind_sum (required ''ExecutionPayloadEnvelope'' ''blockValue'' dBlockValue) (\<lambda>blockValue.
     Inr \<lparr>ExecutionPayload = Some payload, BlockValue = Some blockValue,
       BlobsBundle = dBlobsBundle,
       Override = (case dOverride of None \<Rightarrow> False | Some b \<Rightarrow> b)\<rparr>)))))))))"

definition envelope_sized :: "'wd ExecutionPayloadEnvelope \<Rightarrow> bool" where
  "envelope_sized e \<longleftrightarrow>
     (case ExecutionPayload e of None \<Rightarrow> True | Some p \<Rightarrow> payload_complete p) \<and>
     pred_option big_fits (BlockValue e)"

lemma object_not_null: "payload_json c p \<noteq> JNull" "blobs_json c b \<noteq> JNull"
  by (simp_all add: payload_json_def blobs_json_def)

context eth_codec
begin

lemma blobs_decode: "blobs_of_json c (blobs_json c b) = Inr b"
proof -
  obtain ms where ms: "blobs_json c b = JObject ms" by (simp add: blobs_json_def)
  have fields: "pointer_field (json_list_of (json_bytes c)) ''commitments'' ms = Inr (commitments b)"
    "pointer_field (json_list_of (json_bytes c)) ''proofs'' ms = Inr (proofs b)"
    "pointer_field (json_list_of (json_bytes c)) ''blobs'' ms = Inr (blobs b)"
    using ms list_of_bytes
    by (auto intro!: pointer_field_nullable [where f = "bytes_list_json c"]
        simp: blobs_json_def bytes_list_json_def)
  then show ?thesis by (simp add: blobs_of_json_def ms)
qed

lemma envelope_decodes:
  assumes "envelope_sized e"
  shows "envelope_of_json c (envelope_json c e) =
    (if ExecutionPayload e = None
     then Inl (missing_field ''ExecutionPayloadEnvelope'' ''executionPayload'')
     else if BlockValue e = None then Inl (missing_field ''ExecutionPayloadEnvelope'' ''blockValue'')
     else Inr e)"
proof -
  obtain ms where ms: "envelope_json c e = JObject ms" by (simp add: envelope_json_def)
  have payload: "pointer_field (payload_of_json c) ''executionPayload'' ms = Inr (ExecutionPayload e)"
    using ms assms
    by (auto intro!: pointer_field_nullable [where f = "payload_json c"] simp: payload_decodes
        object_not_null envelope_json_def envelope_sized_def payload_complete_def)
  have "pointer_field (json_big c) ''blockValue'' ms = Inr (BlockValue e)"
    "pointer_field (blobs_of_json c) ''blobsBundle'' ms = Inr (BlobsBundle e)"
    using ms assms big blobs_decode
    by (auto intro!: pointer_field_nullable [where f = "big_json c"]
        pointer_field_nullable [where f = "blobs_json c"] simp: envelope_json_def envelope_sized_def big_fits_def object_not_null)
  moreover have "pointer_field (json_list_of (json_bytes c)) ''executionRequests'' ms = Inr None"
    "pointer_field plain_bool ''shouldOverrideBuilder'' ms = Inr (Some (Override e))"
    "pointer_field (json_bytes c) ''witness'' ms = Inr None"
    using ms by (auto simp: envelope_json_def pointer_field_def plain_bool_def)
  ultimately show ?thesis
    using payload by (cases "ExecutionPayload e"; cases "BlockValue e") (simp_all add: envelope_of_json_def ms)
qed

end

section \<open>Properties\<close>

definition sample_payload :: "json ExecutableData" where
  "sample_payload = \<lparr>parentHash = replicate 32 1, feeRecipient = replicate 20 2, stateRoot = replicate 32 3,
     receiptsRoot = replicate 32 4, logsBloom = [5], prevRandao = replicate 32 6, blockNumber = 7,
     gasLimit = 8, gasUsed = 9, timestamp = 10, extraData = [], baseFeePerGas = Some 11,
     blockHash = replicate 32 12, transactions = Some [[13, 14]], withdrawals = Some [],
     blobGasUsed = None, excessBlobGas = Some 15\<rparr>"

text \<open>
  C14: the payload's JSON. Over every codec of go-ethereum's types, \<open>UnmarshalJSON\<close> inverts
  \<open>MarshalJSON\<close> on every payload whose byte arrays have the sizes of their types, except that a
  payload without a base fee or with nil transactions is encoded and then refused, with the
  error that names the first of the two that is missing, and that one whose base fee is negative
  or has more than 256 bits is encoded and then refused; nil withdrawals and blob counters
  survive.
\<close>

theorem payload_roundtrip:
  assumes "eth_codec c" and "payload_sized e"
  shows "if pred_option big_fits (baseFeePerGas e) then UnmarshalJSON c (MarshalJSON c e) =
      (if baseFeePerGas e = None then Inl (missing_field ''ExecutableData'' ''baseFeePerGas'')
       else if transactions e = None then Inl (missing_field ''ExecutableData'' ''transactions'')
       else Inr e)
    else \<exists>err. UnmarshalJSON c (MarshalJSON c e) = Inl err"
proof (cases "pred_option big_fits (baseFeePerGas e)")
  case True
  then show ?thesis by (simp add: eth_codec.unmarshal_marshal [OF assms])
next
  case False
  then obtain n where "baseFeePerGas e = Some n" "\<not> big_fits n"
    by (auto simp: pred_option_def)
  then have "isl (payload_of_json c (payload_json c e))"
    by (rule eth_codec.payload_fee_refused [OF assms])
  then show ?thesis
    using False eth_codec.parsed [OF assms(1)] by (auto simp: UnmarshalJSON_def MarshalJSON_def isl_def)
qed

theorem payload_roundtrip_witness:
  "UnmarshalJSON hex_codec (MarshalJSON hex_codec sample_payload) = Inr sample_payload"
  using payload_roundtrip [OF hex.eth_codec_axioms, of sample_payload]
  by (simp add: payload_sized_def sample_payload_def big_fits_def)

text \<open>
  The envelope. The envelope \<open>engine_getPayload\<close> answers with is decoded to the envelope
  that was encoded, payload, block value, blobs and override flag; without a payload or a
  block value it is refused, with the error that names the field.
\<close>

theorem envelope_roundtrip:
  assumes "eth_codec c" and "envelope_sized e"
  shows "envelope_of_json c (envelope_json c e) =
    (if ExecutionPayload e = None
     then Inl (missing_field ''ExecutionPayloadEnvelope'' ''executionPayload'')
     else if BlockValue e = None
     then Inl (missing_field ''ExecutionPayloadEnvelope'' ''blockValue'')
     else Inr e)"
  by (rule eth_codec.envelope_decodes [OF assms])

theorem envelope_roundtrip_witness:
  "envelope_of_json hex_codec (envelope_json hex_codec \<lparr>ExecutionPayload = Some sample_payload,
      BlockValue = Some 5, BlobsBundle = None, Override = True\<rparr>) =
    Inr \<lparr>ExecutionPayload = Some sample_payload, BlockValue = Some 5, BlobsBundle = None, Override = True\<rparr>"
  using envelope_roundtrip [OF hex.eth_codec_axioms, of "\<lparr>ExecutionPayload = Some sample_payload,
      BlockValue = Some 5, BlobsBundle = None, Override = True\<rparr>"]
  by (simp add: envelope_sized_def payload_complete_def payload_sized_def sample_payload_def big_fits_def)

text \<open>
  Required fields. A JSON object with any of the fourteen required members (all but the
  withdrawals and the two blob counters) missing or null is never accepted as a payload.
\<close>

theorem payload_fields_required:
  assumes "name \<in> {''parentHash'', ''feeRecipient'', ''stateRoot'', ''receiptsRoot'', ''logsBloom'',
      ''prevRandao'', ''blockNumber'', ''gasLimit'', ''gasUsed'', ''timestamp'', ''extraData'',
      ''baseFeePerGas'', ''blockHash'', ''transactions''}"
    and "map_of (rev ms) name \<in> {None, Some JNull}"
  shows "\<exists>err. payload_of_json c (JObject ms) = Inl err"
proof -
  have "payload_of_json c (JObject ms) \<noteq> Inr e" for e
    unfolding payload_of_json_def bind_sum_Inr_iff required_Inr_iff
    using assms by (auto dest!: pointer_field_SomeD)
  then show ?thesis by (cases "payload_of_json c (JObject ms)") auto
qed

theorem payload_fields_required_witness:
  "\<exists>err. payload_of_json hex_codec (JObject [(''parentHash'', JNull)]) = Inl err"
  using payload_fields_required [of "''parentHash''" "[(''parentHash'', JNull)]" hex_codec] by simp

end
