(* ===== verification/Evm_Engine.thy ===== *)
theory Evm_Engine imports Evm_Payload Go_Call begin

text \<open>
  The calls of the EVM client (\<open>execution/evm/engine.go\<close>, \<open>rpc.go\<close>, the types of
  \<open>primitives.go\<close>). The two JSON-RPC connections are not code of the repository: the record
  \<open>eth_net\<close> has, for each of them, the answer to a method and its parameters, as an error text
  or the JSON of the result, together with the effect on the world \<open>'w\<close> (the state of the
  execution client, the log of the calls). It also has the random numbers, the clock and
  go-ethereum's decoding of block headers.

  A call is a function of the world: it returns a value or an error, or it panics. Decoding
  the JSON null into a variable that is itself a pointer makes that pointer nil
  (\<open>ForkchoiceUpdated\<close>, \<open>GetPayload\<close>); into a struct it changes nothing (\<open>NewPayload\<close>).
\<close>

section \<open>Types of the engine API\<close>

record ForkchoiceState =
  HeadBlockHash :: bytes
  SafeBlockHash :: bytes
  FinalizedBlockHash :: bytes

record PayloadStatus =
  Status :: string
  LatestValidHash :: "bytes option"
  ValidationError :: "string option"

record ForkchoiceResponse =
  ResponseStatus :: PayloadStatus
  PayloadID :: "string option"

record 'wd PayloadAttributes =
  Timestamp :: "64 word"
  Random :: bytes
  SuggestedFeeRecipient :: bytes
  AttrWithdrawals :: "'wd list option"
  ParentBeaconBlockRoot :: bytes

text \<open>The part of go-ethereum's block header the code reads; \<open>HeaderHash\<close> is \<open>Header.Hash()\<close>.\<close>

record Header =
  HeaderHash :: bytes
  ParentHash :: bytes
  ParentBeaconRoot :: "bytes option"

record 'w eth_net =
  engine_call :: "string \<Rightarrow> json list \<Rightarrow> 'w \<Rightarrow> (string + json) \<times> 'w"
  rpc_call :: "string \<Rightarrow> json list \<Rightarrow> 'w \<Rightarrow> (string + json) \<times> 'w"
  rand_Read :: "nat \<Rightarrow> 'w \<Rightarrow> (string + bytes) \<times> 'w"
  Unix :: "'w \<Rightarrow> 64 word \<times> 'w"
  json_header :: "json \<Rightarrow> string + Header"
  block_number_json :: "int \<Rightarrow> json"

definition NewPayloadMethodV3 :: string where "NewPayloadMethodV3 = ''engine_newPayloadV3''"
definition ForkchoiceUpdatedMethodV3 :: string where
  "ForkchoiceUpdatedMethodV3 = ''engine_forkchoiceUpdatedV3''"
definition GetPayloadMethodV3 :: string where "GetPayloadMethodV3 = ''engine_getPayloadV3''"
definition BlockByNumberMethod :: string where "BlockByNumberMethod = ''eth_getBlockByNumber''"
definition BlockNumberMethod :: string where "BlockNumberMethod = ''eth_blockNumber''"
definition ExchangeCapabilitiesMethod :: string where
  "ExchangeCapabilitiesMethod = ''engine_exchangeCapabilities''"
definition GetClientVersionV1 :: string where "GetClientVersionV1 = ''engine_getClientVersionV1''"

definition ScalerizeSupportedCapabilities :: "string list" where
  "ScalerizeSupportedCapabilities =
     [ForkchoiceUpdatedMethodV3, GetPayloadMethodV3, NewPayloadMethodV3, GetClientVersionV1]"

section \<open>Their JSON\<close>

definition forkchoice_state_json :: "('t, 'wd) eth_json \<Rightarrow> ForkchoiceState \<Rightarrow> json" where
  "forkchoice_state_json c s = JObject
     [(''headBlockHash'', fixed_json c (HeadBlockHash s)),
      (''safeBlockHash'', fixed_json c (SafeBlockHash s)),
      (''finalizedBlockHash'', fixed_json c (FinalizedBlockHash s))]"

definition zero_status :: PayloadStatus where
  "zero_status = \<lparr>Status = [], LatestValidHash = None, ValidationError = None\<rparr>"

definition status_of_json :: "('t, 'wd) eth_json \<Rightarrow> json \<Rightarrow> string + PayloadStatus" where
  "status_of_json c j =
     bind_sum (object_members j) (\<lambda>ms.
     bind_sum (value_field plain_string [] ''status'' ms) (\<lambda>status.
     bind_sum (pointer_field (json_fixed c 32) ''latestValidHash'' ms) (\<lambda>hash.
     bind_sum (pointer_field plain_string ''validationError'' ms) (\<lambda>err.
     Inr \<lparr>Status = status, LatestValidHash = hash, ValidationError = err\<rparr>))))"

definition forkchoice_response_of_json :: "('t, 'wd) eth_json \<Rightarrow> json \<Rightarrow> string + ForkchoiceResponse" where
  "forkchoice_response_of_json c j =
     bind_sum (object_members j) (\<lambda>ms.
     bind_sum (value_field (status_of_json c) zero_status ''payloadStatus'' ms) (\<lambda>status.
     bind_sum (pointer_field plain_string ''payloadId'' ms) (\<lambda>payloadID.
     Inr \<lparr>ResponseStatus = status, PayloadID = payloadID\<rparr>)))"

text \<open>The attributes have no encoding of their own: the timestamp is a JSON number.\<close>

definition attributes_json :: "('t, 'wd) eth_json \<Rightarrow> 'wd PayloadAttributes \<Rightarrow> json" where
  "attributes_json c a = JObject
     [(''timestamp'', JNumber (uint (Timestamp a))),
      (''prevRandao'', fixed_json c (Random a)),
      (''suggestedFeeRecipient'', fixed_json c (SuggestedFeeRecipient a)),
      (''withdrawals'', nullable (withdrawals_json c) (AttrWithdrawals a)),
      (''parentBeaconBlockRoot'', fixed_json c (ParentBeaconBlockRoot a))]"

definition attributes_of_json :: "('t, 'wd) eth_json \<Rightarrow> json \<Rightarrow> string + 'wd PayloadAttributes" where
  "attributes_of_json c j =
     bind_sum (object_members j) (\<lambda>ms.
     bind_sum (value_field plain_uint64 0 ''timestamp'' ms) (\<lambda>timestamp.
     bind_sum (value_field (json_fixed c 32) (replicate 32 0) ''prevRandao'' ms) (\<lambda>random.
     bind_sum (value_field (json_fixed c 20) (replicate 20 0) ''suggestedFeeRecipient'' ms) (\<lambda>recipient.
     bind_sum (pointer_field (json_withdrawals c) ''withdrawals'' ms) (\<lambda>withdrawals.
     bind_sum (value_field (json_fixed c 32) (replicate 32 0) ''parentBeaconBlockRoot'' ms) (\<lambda>root.
     Inr \<lparr>Timestamp = timestamp, Random = random, SuggestedFeeRecipient = recipient,
       AttrWithdrawals = withdrawals, ParentBeaconBlockRoot = root\<rparr>))))))"

section \<open>The calls\<close>

definition ExchangeCapabilities :: "'w eth_net \<Rightarrow> string list \<Rightarrow> ('w, string list) call" where
  "ExchangeCapabilities net caps =
     bind_call (lift_world (engine_call net ExchangeCapabilitiesMethod [JArray (map JString caps)])) (\<lambda>j.
     lift_sum (if j = JNull then Inr [] else json_list_of plain_string j))"

definition ForkchoiceUpdated :: "('t, 'wd) eth_json \<Rightarrow> 'w eth_net \<Rightarrow> ForkchoiceState \<Rightarrow>
    'wd PayloadAttributes option \<Rightarrow> ('w, ForkchoiceResponse) call" where
  "ForkchoiceUpdated c net state attributes =
     bind_call (lift_world (engine_call net ForkchoiceUpdatedMethodV3
       [forkchoice_state_json c state, nullable (attributes_json c) attributes])) (\<lambda>j.
     if j = JNull then panic_call
     else bind_call (lift_sum (forkchoice_response_of_json c j)) (\<lambda>result.
       if ResponseStatus result = zero_status then fail_call ''nil response from forkchoiceupdate''
       else return_call result))"

text \<open>A nil envelope is returned as such.\<close>

definition GetPayload :: "('t, 'wd) eth_json \<Rightarrow> 'w eth_net \<Rightarrow> string \<Rightarrow>
    ('w, 'wd ExecutionPayloadEnvelope option) call" where
  "GetPayload c net payloadID =
     bind_call (lift_world (engine_call net GetPayloadMethodV3 [JString payloadID])) (\<lambda>j.
     if j = JNull then return_call None
     else lift_sum (map_sum id Some (envelope_of_json c j)))"

definition NewPayload :: "('t, 'wd) eth_json \<Rightarrow> 'w eth_net \<Rightarrow> 'wd ExecutableData \<Rightarrow> bytes list \<Rightarrow>
    bytes \<Rightarrow> ('w, PayloadStatus) call" where
  "NewPayload c net payload versionedHashes parentBlockRoot =
     bind_call (lift_world (engine_call net NewPayloadMethodV3
       [payload_json c payload, JArray (map (fixed_json c) versionedHashes),
        fixed_json c parentBlockRoot])) (\<lambda>j.
     lift_sum (status_of_json c j))"

text \<open>The fixed part of the error's text; the input it quotes is left out.\<close>

definition num_error_text :: "num_error \<Rightarrow> string" where
  "num_error_text err =
     (case err of ErrSyntax \<Rightarrow> ''invalid syntax'' | ErrRange \<Rightarrow> ''value out of range'')"

definition GetLatestBlockNumber :: "'w eth_net \<Rightarrow> ('w, int) call" where
  "GetLatestBlockNumber net =
     bind_call (lift_world (rpc_call net BlockNumberMethod [])) (\<lambda>j.
     bind_call (lift_sum (plain_string j)) (\<lambda>result.
     lift_sum (map_sum num_error_text id (ParseInt result))))"

definition GetBlockByNumber :: "'w eth_net \<Rightarrow> int \<Rightarrow> bool \<Rightarrow> ('w, Header) call" where
  "GetBlockByNumber net num withTxs =
     bind_call (lift_world (rpc_call net BlockByNumberMethod [block_number_json net num, JBool withTxs]))
       (\<lambda>j. lift_sum (json_header net j))"

definition generateRandao :: "'w eth_net \<Rightarrow> ('w, bytes) call" where
  "generateRandao net = lift_world (rand_Read net 32)"

end
