(* ===== verification/Evm_Proposal.thy ===== *)
theory Evm_Proposal imports Evm_Engine begin

text \<open>
  The ABCI handlers of the EVM client (\<open>execution/evm/abci_handler.go\<close>). A proposal is a list of
  two transactions: the JSON of the payload the engine built and the JSON of the attributes it
  was built with. The other validators hand the payload to their engine, and every node makes
  it the head when the block is finalized. What the handlers print is left out, and so is the
  pause of ten milliseconds before the payload is asked for.
\<close>

section \<open>The handlers\<close>

definition suggested_fee_recipient :: string where
  "suggested_fee_recipient = ''0xf39Fd6e51aad88F6F4ce6aB8827279cffFb92266''"

text \<open>The error is never reached: the literal is an address (\<open>length_fee_recipient\<close>).\<close>

definition hex_input_error_text :: "hex_input_error \<Rightarrow> string" where
  "hex_input_error_text err = ''invalid address''"

definition fork_choice_of :: "bytes \<Rightarrow> bytes \<Rightarrow> ForkchoiceState" where
  "fork_choice_of head parent =
     \<lparr>HeadBlockHash = head, SafeBlockHash = parent, FinalizedBlockHash = parent\<rparr>"

definition PrepareProposal :: "('t, 'wd) eth_json \<Rightarrow> 'w eth_net \<Rightarrow> ('w, 't list) call" where
  "PrepareProposal c net =
     bind_call (GetLatestBlockNumber net) (\<lambda>lbn.
     bind_call (GetBlockByNumber net lbn False) (\<lambda>bh.
     bind_call (generateRandao net) (\<lambda>randao.
     bind_call (lift_sum (map_sum hex_input_error_text id (hexToAddress suggested_fee_recipient))) (\<lambda>sfr.
     bind_call (lift_world (\<lambda>w. map_prod Inr id (Unix net w))) (\<lambda>now.
     case ParentBeaconRoot bh of
       None \<Rightarrow> panic_call
     | Some root \<Rightarrow>
         let attr = \<lparr>Timestamp = now, Random = randao, SuggestedFeeRecipient = sfr,
               AttrWithdrawals = Some [], ParentBeaconBlockRoot = root\<rparr> in
         bind_call (ForkchoiceUpdated c net (fork_choice_of (HeaderHash bh) (ParentHash bh)) (Some attr)) (\<lambda>fcres.
         case PayloadID fcres of
           None \<Rightarrow> fail_call ''payload ID is nil''
         | Some payloadID \<Rightarrow>
             bind_call (GetPayload c net payloadID) (\<lambda>payloadExData.
             case payloadExData of
               None \<Rightarrow> panic_call
             | Some envelope \<Rightarrow>
                 (case ExecutionPayload envelope of
                    None \<Rightarrow> panic_call
                  | Some payload \<Rightarrow>
                      return_call [MarshalJSON c payload, json_text c (attributes_json c attr)]))))))))"

datatype ProposalStatus = ACCEPT | REJECT

definition ProcessProposal :: "('t, 'wd) eth_json \<Rightarrow> 'w eth_net \<Rightarrow> 't list \<Rightarrow> ('w, ProposalStatus) call" where
  "ProcessProposal c net txs =
     (case txs of
        [] \<Rightarrow> panic_call
      | tx0 # rest \<Rightarrow>
          bind_call (lift_sum (UnmarshalJSON c tx0)) (\<lambda>executableData.
          case rest of
            [] \<Rightarrow> panic_call
          | tx1 # _ \<Rightarrow>
              bind_call (lift_sum (bind_sum (text_json c tx1) (attributes_of_json c))) (\<lambda>attributes.
              bind_call (NewPayload c net executableData [] (ParentBeaconBlockRoot attributes)) (\<lambda>_.
              return_call ACCEPT))))"

definition PreBlock :: "('t, 'wd) eth_json \<Rightarrow> 'w eth_net \<Rightarrow> 't list \<Rightarrow> ('w, unit) call" where
  "PreBlock c net txs =
     (case txs of
        [] \<Rightarrow> panic_call
      | tx0 # _ \<Rightarrow>
          bind_call (lift_sum (UnmarshalJSON c tx0)) (\<lambda>executableData.
          bind_call (ForkchoiceUpdated c net
            (fork_choice_of (blockHash executableData) (parentHash executableData)) None) (\<lambda>_.
          return_call ())))"

text \<open>No validator updates at the end of a block.\<close>

definition EndBlock :: "('w, 'u list) call" where
  "EndBlock = return_call []"

section \<open>Decoding what was encoded\<close>

definition attributes_sized :: "'wd PayloadAttributes \<Rightarrow> bool" where
  "attributes_sized a \<longleftrightarrow> length (Random a) = 32 \<and> length (SuggestedFeeRecipient a) = 20 \<and>
     length (ParentBeaconBlockRoot a) = 32"

context eth_codec
begin

lemma attributes_decode: "attributes_sized a \<Longrightarrow> attributes_of_json c (attributes_json c a) = Inr a"
proof -
  assume a: "attributes_sized a"
  obtain ms where ms: "attributes_json c a = JObject ms" by (simp add: attributes_json_def)
  have "value_field plain_uint64 0 ''timestamp'' ms = Inr (Timestamp a)"
    using ms by (auto intro!: value_field_present simp: attributes_json_def plain_uint64_number)
  moreover have "value_field (json_fixed c 32) (replicate 32 0) ''prevRandao'' ms = Inr (Random a)"
    "value_field (json_fixed c 20) (replicate 20 0) ''suggestedFeeRecipient'' ms = Inr (SuggestedFeeRecipient a)"
    "value_field (json_fixed c 32) (replicate 32 0) ''parentBeaconBlockRoot'' ms = Inr (ParentBeaconBlockRoot a)"
    using ms a by (auto simp: attributes_json_def attributes_sized_def value_field_def fixed_sized)
  moreover have "pointer_field (json_withdrawals c) ''withdrawals'' ms = Inr (AttrWithdrawals a)"
    using ms withdrawals
    by (auto intro!: pointer_field_nullable [where f = "withdrawals_json c"] simp: attributes_json_def)
  ultimately show ?thesis by (simp add: attributes_of_json_def ms)
qed

lemma proposal_accepted:
  assumes "payload_complete e" and "attributes_sized a"
  shows "ProcessProposal c net (MarshalJSON c e # json_text c (attributes_json c a) # rest) =
    bind_call (NewPayload c net e [] (ParentBeaconBlockRoot a)) (\<lambda>_. return_call ACCEPT)"
  using assms by (simp add: ProcessProposal_def complete_roundtrip bind_call_simps parsed attributes_decode)

lemma proposal_finalized:
  "payload_complete e \<Longrightarrow> PreBlock c net (MarshalJSON c e # rest) =
    bind_call (ForkchoiceUpdated c net (fork_choice_of (blockHash e) (parentHash e)) None)
      (\<lambda>_. return_call ())"
  by (simp add: PreBlock_def complete_roundtrip bind_call_simps)

lemma envelope_payload_complete:
  "envelope_of_json c j = Inr env \<Longrightarrow> ExecutionPayload env = Some e \<Longrightarrow> payload_complete e"
  unfolding envelope_of_json_def bind_sum_Inr_iff required_Inr_iff
  by (auto dest!: pointer_field_decoded dest: decoded_complete)

end

lemma length_fee_recipient:
  "\<exists>sfr. hexToAddress suggested_fee_recipient = Inr sfr \<and> length sfr = 20"
  by (simp add: hexToAddress_def suggested_fee_recipient_def TrimPrefix_def hex_value_def)

text \<open>What go-ethereum's and Go's types give: hashes have 32 bytes.\<close>

definition net_sized :: "'w eth_net \<Rightarrow> bool" where
  "net_sized net \<longleftrightarrow>
     (\<forall>w bs w1. rand_Read net 32 w = (Inr bs, w1) \<longrightarrow> length bs = 32) \<and>
     (\<forall>j h root. json_header net j = Inr h \<longrightarrow> ParentBeaconRoot h = Some root \<longrightarrow> length root = 32)"

section \<open>A proposal that was prepared\<close>

text \<open>
  The calls of a successful preparation, in order: the latest block, its header \<open>bh\<close>, random
  bytes and the time for the attributes \<open>a\<close>, the fork choice that tells the engine to build on
  \<open>bh\<close>, and the payload \<open>e\<close> it has built.
\<close>

definition prepared :: "('t, 'wd) eth_json \<Rightarrow> 'w eth_net \<Rightarrow> 'w \<Rightarrow> 'wd PayloadAttributes \<Rightarrow>
    'wd ExecutableData \<Rightarrow> 'w \<Rightarrow> bool" where
  "prepared c net w a e w' \<longleftrightarrow>
     (\<exists>lbn w1 bh w2 w3 w4 fcres w5 payloadID env.
        GetLatestBlockNumber net w = (Ret (Inr lbn), w1) \<and>
        GetBlockByNumber net lbn False w1 = (Ret (Inr bh), w2) \<and>
        generateRandao net w2 = (Ret (Inr (Random a)), w3) \<and>
        Unix net w3 = (Timestamp a, w4) \<and>
        ParentBeaconRoot bh = Some (ParentBeaconBlockRoot a) \<and>
        ForkchoiceUpdated c net (fork_choice_of (HeaderHash bh) (ParentHash bh)) (Some a) w4 =
          (Ret (Inr fcres), w5) \<and>
        PayloadID fcres = Some payloadID \<and>
        GetPayload c net payloadID w5 = (Ret (Inr (Some env)), w') \<and> ExecutionPayload env = Some e)"

lemma prepared_proposal:
  assumes "PrepareProposal c net w = (Ret (Inr txs), w')" and "net_sized net"
  obtains a e where "prepared c net w a e w'" "attributes_sized a"
    "txs = [MarshalJSON c e, json_text c (attributes_json c a)]"
proof -
  obtain sfr where sfr: "hexToAddress suggested_fee_recipient = Inr sfr" "length sfr = 20"
    using length_fee_recipient by blast
  from assms(1) obtain lbn w1 bh w2 randao w3 now w4 root fcres w5 payloadID env e a where
    calls: "GetLatestBlockNumber net w = (Ret (Inr lbn), w1)"
      "GetBlockByNumber net lbn False w1 = (Ret (Inr bh), w2)"
      "generateRandao net w2 = (Ret (Inr randao), w3)"
      "Unix net w3 = (now, w4)"
      "ParentBeaconRoot bh = Some root"
      "ForkchoiceUpdated c net (fork_choice_of (HeaderHash bh) (ParentHash bh)) (Some a) w4 = (Ret (Inr fcres), w5)"
      "PayloadID fcres = Some payloadID" "GetPayload c net payloadID w5 = (Ret (Inr (Some env)), w')"
      "ExecutionPayload env = Some e"
    and txs: "txs = [MarshalJSON c e, json_text c (attributes_json c a)]"
    and a: "a = \<lparr>Timestamp = now, Random = randao, SuggestedFeeRecipient = sfr,
        AttrWithdrawals = Some [], ParentBeaconBlockRoot = root\<rparr>"
    by (auto simp: PrepareProposal_def bind_call_Ret_iff call_Ret_iffs sfr Let_def lift_world_def
        map_prod_def split: option.splits prod.splits)
  have "length randao = 32" "length root = 32"
    using calls(2,3,5) assms(2)
    by (auto simp: net_sized_def generateRandao_def lift_world_def GetBlockByNumber_def bind_call_Ret_iff
        call_Ret_iffs split: prod.splits)
  then have "attributes_sized a" using sfr by (simp add: attributes_sized_def a)
  moreover have "prepared c net w a e w'"
    unfolding prepared_def using calls by (intro exI conjI) (auto simp: a)
  ultimately show thesis using that txs by blast
qed

lemma map_sum_Some_iff: "map_sum id Some x = Inr (Some v) \<longleftrightarrow> x = Inr v"
  by (cases x) auto

lemma prepared_complete:
  assumes "eth_codec c" and "prepared c net w a e w'"
  shows "payload_complete e"
  using assms eth_codec.envelope_payload_complete [OF assms(1)]
  by (auto simp: prepared_def GetPayload_def bind_call_Ret_iff call_Ret_iffs return_call_def
      map_sum_Some_iff split: if_splits)

section \<open>A network for the witnesses\<close>

text \<open>The world is the log of the calls; a header is its parent's hash, repeated; the engine
  builds \<open>sample_payload\<close> and calls every payload \<open>status\<close>.\<close>

definition sample_envelope :: "json ExecutionPayloadEnvelope" where
  "sample_envelope = \<lparr>ExecutionPayload = Some sample_payload, BlockValue = Some 5,
     BlobsBundle = None, Override = False\<rparr>"

type_synonym call_log = "(string \<times> json list) list"

definition sample_status :: "string \<Rightarrow> json" where
  "sample_status status = JObject [(''status'', JString status)]"

definition sample_net :: "string \<Rightarrow> call_log eth_net" where
  "sample_net status = \<lparr>
     engine_call = (\<lambda>m ps w.
       (Inr (if m = NewPayloadMethodV3 then sample_status status
          else if m = GetPayloadMethodV3 then envelope_json hex_codec sample_envelope
          else JObject [(''payloadStatus'', sample_status status), (''payloadId'', JString ''0x1'')]),
        w @ [(m, ps)])),
     rpc_call = (\<lambda>m ps w. (Inr (if m = BlockNumberMethod then JString ''0x7'' else JNull), w @ [(m, ps)])),
     rand_Read = (\<lambda>n w. (Inr (replicate n 3), w)),
     Unix = (\<lambda>w. (1000, w)),
     json_header = (\<lambda>j. Inr \<lparr>HeaderHash = replicate 32 8, ParentHash = replicate 32 9,
       ParentBeaconRoot = Some (replicate 32 10)\<rparr>),
     block_number_json = JNumber\<rparr>"

lemma sample_net_sized: "net_sized (sample_net status)"
  by (simp add: net_sized_def sample_net_def)

lemma sample_number: "GetLatestBlockNumber (sample_net s) w = (Ret (Inr 7), w @ [(BlockNumberMethod, [])])"
proof -
  have "ParseInt ''0x7'' = Inr 7" by (simp add: ParseInt_def ParseUint_def int_base_def lower_def digit_of_def)
  then show ?thesis
    by (simp add: GetLatestBlockNumber_def sample_net_def bind_call_def lift_world_def lift_sum_def plain_string_def)
qed

lemma sample_header: "GetBlockByNumber (sample_net s) n False w =
    (Ret (Inr \<lparr>HeaderHash = replicate 32 8, ParentHash = replicate 32 9,
       ParentBeaconRoot = Some (replicate 32 10)\<rparr>), w @ [(BlockByNumberMethod, [JNumber n, JBool False])])"
  by (simp add: GetBlockByNumber_def sample_net_def bind_call_def lift_world_def lift_sum_def)

lemma sample_status_decodes: "status_of_json c (sample_status s) = Inr \<lparr>Status = s, LatestValidHash = None, ValidationError = None\<rparr>"
  by (simp add: status_of_json_def sample_status_def value_field_def pointer_field_def plain_string_def)

lemma sample_forkchoice: "s \<noteq> [] \<Longrightarrow> ForkchoiceUpdated hex_codec (sample_net s) state attr w =
    (Ret (Inr \<lparr>ResponseStatus = \<lparr>Status = s, LatestValidHash = None, ValidationError = None\<rparr>,
       PayloadID = Some ''0x1''\<rparr>),
     w @ [(ForkchoiceUpdatedMethodV3, [forkchoice_state_json hex_codec state, nullable (attributes_json hex_codec) attr])])"
  by (simp add: ForkchoiceUpdated_def sample_net_def bind_call_def lift_world_def lift_sum_def return_call_def
      NewPayloadMethodV3_def GetPayloadMethodV3_def ForkchoiceUpdatedMethodV3_def forkchoice_response_of_json_def
      value_field_def pointer_field_def sample_status_decodes plain_string_def zero_status_def)

lemma envelope_not_null: "envelope_json c e \<noteq> JNull"
  by (simp add: envelope_json_def)

lemma sample_get_payload: "GetPayload hex_codec (sample_net s) pid w =
    (Ret (Inr (Some sample_envelope)), w @ [(GetPayloadMethodV3, [JString pid])])"
proof -
  have "envelope_sized sample_envelope"
    by (simp add: envelope_sized_def payload_complete_def payload_sized_def big_fits_def sample_envelope_def sample_payload_def)
  then have "envelope_of_json hex_codec (envelope_json hex_codec sample_envelope) = Inr sample_envelope"
    using hex.envelope_decodes by (simp add: sample_envelope_def)
  then show ?thesis
    by (simp add: envelope_not_null GetPayload_def sample_net_def bind_call_def lift_world_def lift_sum_def
        NewPayloadMethodV3_def GetPayloadMethodV3_def)
qed

section \<open>Properties\<close>

text \<open>
  C8: what the proposer's engine built is what every validator executes. Whenever a proposal
  is prepared, it consists of a payload the proposer's engine returned for the latest block
  and of the attributes it was asked with; every validator that processes it sends exactly
  this payload to its engine, without versioned hashes and with the same beacon root, and
  accepts if that call returns; and every node that finalizes it makes the payload's block
  the head and its parent the safe and the finalized block.
\<close>

theorem prepared_payload_reaches_validators:
  assumes codec: "eth_codec c" and net: "net_sized net"
    and run: "PrepareProposal c net w = (Ret (Inr txs), w')"
  shows "\<exists>a e. prepared c net w a e w' \<and> (\<forall>(net2 :: 'v eth_net) w2.
    ProcessProposal c net2 txs w2 =
      bind_call (NewPayload c net2 e [] (ParentBeaconBlockRoot a)) (\<lambda>_. return_call ACCEPT) w2 \<and>
    PreBlock c net2 txs w2 =
      bind_call (ForkchoiceUpdated c net2 (fork_choice_of (blockHash e) (parentHash e)) None)
        (\<lambda>_. return_call ()) w2)"
proof -
  obtain a e where p: "prepared c net w a e w'" "attributes_sized a"
    "txs = [MarshalJSON c e, json_text c (attributes_json c a)]"
    using run net by (rule prepared_proposal)
  then have e: "payload_complete e" using codec by (blast intro: prepared_complete)
  then show ?thesis
    using p(1)
    by (intro exI [of _ a] exI [of _ e])
      (simp add: p(3) eth_codec.proposal_accepted [OF codec e p(2)] eth_codec.proposal_finalized [OF codec e])
qed

theorem prepared_payload_reaches_validators_witness:
  "\<exists>txs w'. PrepareProposal hex_codec (sample_net ''VALID'') [] = (Ret (Inr txs), w') \<and>
    (\<exists>a e. prepared hex_codec (sample_net ''VALID'') [] a e w' \<and>
      ProcessProposal hex_codec (sample_net ''VALID'') txs [] =
        bind_call (NewPayload hex_codec (sample_net ''VALID'') e [] (ParentBeaconBlockRoot a))
          (\<lambda>_. return_call ACCEPT) [])"
proof -
  obtain sfr where sfr: "hexToAddress suggested_fee_recipient = Inr sfr" using length_fee_recipient by blast
  obtain net :: "call_log eth_net" where net: "net = sample_net ''VALID''" by simp
  have randao: "\<And>w. generateRandao net w = (Ret (Inr (replicate 32 3)), w)" "\<And>w. Unix net w = (1000, w)"
    by (simp_all add: net generateRandao_def sample_net_def lift_world_def)
  have "\<exists>txs w'. PrepareProposal hex_codec net [] = (Ret (Inr txs), w')"
    by (simp add: PrepareProposal_def bind_call_def sfr Let_def randao lift_world_def lift_sum_def
        sample_number [of "''VALID''", folded net] sample_header [of "''VALID''", folded net]
        sample_forkchoice [of "''VALID''", folded net] sample_get_payload [of "''VALID''", folded net]
        sample_envelope_def return_call_def)
  then obtain txs w' where run: "PrepareProposal hex_codec (sample_net ''VALID'') [] = (Ret (Inr txs), w')"
    unfolding net by blast
  then have "\<exists>a e. prepared hex_codec (sample_net ''VALID'') [] a e w' \<and> (\<forall>(net2 :: call_log eth_net) w2.
    ProcessProposal hex_codec net2 txs w2 =
      bind_call (NewPayload hex_codec net2 e [] (ParentBeaconBlockRoot a)) (\<lambda>_. return_call ACCEPT) w2 \<and>
    PreBlock hex_codec net2 txs w2 =
      bind_call (ForkchoiceUpdated hex_codec net2 (fork_choice_of (blockHash e) (parentHash e)) None)
        (\<lambda>_. return_call ()) w2)"
    by (rule prepared_payload_reaches_validators [OF hex.eth_codec_axioms sample_net_sized])
  with run show ?thesis by blast
qed

text \<open>
  C16: the engine's verdict is not looked at. A proposal whose two transactions decode is
  accepted whatever status the engine gives the payload, INVALID included; no proposal is ever
  rejected; and a block is finalized whatever non-empty status the engine gives its head.
\<close>

theorem payload_status_ignored:
  assumes "UnmarshalJSON c tx0 = Inr e"
    and "bind_sum (text_json c tx1) (attributes_of_json c) = Inr a"
    and "engine_call net NewPayloadMethodV3 [payload_json c e, JArray [], fixed_json c (ParentBeaconBlockRoot a)] w =
      (Inr j, w1)" and "status_of_json c j = Inr status"
    and "engine_call net ForkchoiceUpdatedMethodV3
      [forkchoice_state_json c (fork_choice_of (blockHash e) (parentHash e)), JNull] v = (Inr k, v1)"
    and "k \<noteq> JNull" and "forkchoice_response_of_json c k = Inr response"
    and "ResponseStatus response \<noteq> zero_status"
  shows "ProcessProposal c net [tx0, tx1] w = (Ret (Inr ACCEPT), w1) \<and>
    ProcessProposal c net txs w \<noteq> (Ret (Inr REJECT), w2) \<and>
    PreBlock c net [tx0, tx1] v = (Ret (Inr ()), v1)"
proof (intro conjI)
  show "ProcessProposal c net [tx0, tx1] w = (Ret (Inr ACCEPT), w1)"
    using assms(1-4)
    by (simp add: ProcessProposal_def bind_call_simps NewPayload_def bind_call_def lift_world_def lift_sum_def
        return_call_def)
  show "ProcessProposal c net txs w \<noteq> (Ret (Inr REJECT), w2)"
    by (auto simp: ProcessProposal_def bind_call_Ret_iff call_Ret_iffs split: list.splits)
  show "PreBlock c net [tx0, tx1] v = (Ret (Inr ()), v1)"
    using assms(1,5-8)
    by (simp add: PreBlock_def bind_call_simps ForkchoiceUpdated_def bind_call_def lift_world_def lift_sum_def
        return_call_def nullable_def)
qed

theorem payload_status_ignored_witness:
  "ProcessProposal hex_codec (sample_net ''INVALID'') [MarshalJSON hex_codec sample_payload, JObject []] [] =
      (Ret (Inr ACCEPT), [(NewPayloadMethodV3, [payload_json hex_codec sample_payload, JArray [],
        fixed_json hex_codec (replicate 32 0)])]) \<and>
    fst (PreBlock hex_codec (sample_net ''INVALID'') [MarshalJSON hex_codec sample_payload, JObject []] []) =
      Ret (Inr ())"
proof -
  have e: "UnmarshalJSON hex_codec (MarshalJSON hex_codec sample_payload) = Inr sample_payload"
    by (rule hex.complete_roundtrip) (simp add: payload_complete_def payload_sized_def big_fits_def sample_payload_def)
  have a: "bind_sum (text_json hex_codec (JObject [])) (attributes_of_json hex_codec) =
    Inr \<lparr>Timestamp = 0, Random = replicate 32 0, SuggestedFeeRecipient = replicate 20 0,
      AttrWithdrawals = None, ParentBeaconBlockRoot = replicate 32 0\<rparr>"
    by (simp add: hex_codec_def attributes_of_json_def value_field_def pointer_field_def)
  have r: "forkchoice_response_of_json hex_codec (JObject [(''payloadStatus'', sample_status ''INVALID''),
      (''payloadId'', JString ''0x1'')]) = Inr \<lparr>ResponseStatus = \<lparr>Status = ''INVALID'',
      LatestValidHash = None, ValidationError = None\<rparr>, PayloadID = Some ''0x1''\<rparr>"
    by (simp add: forkchoice_response_of_json_def value_field_def pointer_field_def sample_status_decodes plain_string_def)
  have n: "engine_call (sample_net ''INVALID'') NewPayloadMethodV3 ps [] =
      (Inr (sample_status ''INVALID''), [(NewPayloadMethodV3, ps)])" for ps
    by (simp add: sample_net_def)
  have f: "engine_call (sample_net ''INVALID'') ForkchoiceUpdatedMethodV3 ps [] =
      (Inr (JObject [(''payloadStatus'', sample_status ''INVALID''), (''payloadId'', JString ''0x1'')]),
       [(ForkchoiceUpdatedMethodV3, ps)])" for ps
    by (simp add: sample_net_def NewPayloadMethodV3_def GetPayloadMethodV3_def ForkchoiceUpdatedMethodV3_def)
  show ?thesis
    using payload_status_ignored [OF e a n sample_status_decodes f _ r]
    by (simp add: zero_status_def)
qed

text \<open>
  Short proposals. Processing or finalizing an empty proposal panics, and so does
  processing one with the payload alone: the transactions are indexed without a check.
\<close>

theorem short_proposals_panic:
  "ProcessProposal c net [] w = (Panic, w) \<and> PreBlock c net [] w = (Panic, w) \<and>
   (case UnmarshalJSON c tx of
      Inl err \<Rightarrow> ProcessProposal c net [tx] w = (Ret (Inl err), w)
    | Inr e \<Rightarrow> ProcessProposal c net [tx] w = (Panic, w))"
  by (simp add: ProcessProposal_def PreBlock_def panic_call_def bind_call_def lift_sum_def split: sum.split)

text \<open>
  A latest block without a beacon root (the engine's chain is before the Cancun fork) makes
  the preparation panic, before the engine is called.
\<close>

theorem prepare_without_beacon_root_panics:
  assumes "GetLatestBlockNumber net w = (Ret (Inr lbn), w1)"
    and "GetBlockByNumber net lbn False w1 = (Ret (Inr bh), w2)"
    and "rand_Read net 32 w2 = (Inr randao, w3)" and "ParentBeaconRoot bh = None"
  shows "PrepareProposal c net w = (Panic, snd (Unix net w3))"
proof -
  obtain sfr where "hexToAddress suggested_fee_recipient = Inr sfr" using length_fee_recipient by blast
  then show ?thesis
    using assms by (simp add: PrepareProposal_def bind_call_def generateRandao_def lift_world_def lift_sum_def
        panic_call_def map_prod_def split: prod.split)
qed

theorem prepare_without_beacon_root_panics_witness:
  "fst (PrepareProposal hex_codec (sample_net ''VALID'' \<lparr>json_header := \<lambda>j. Inr
      \<lparr>HeaderHash = replicate 32 8, ParentHash = replicate 32 9, ParentBeaconRoot = None\<rparr>\<rparr>) []) = Panic"
  (is "fst (PrepareProposal hex_codec ?net []) = Panic")
proof -
  have number: "GetLatestBlockNumber ?net [] = (Ret (Inr 7), [(BlockNumberMethod, [])])"
    using sample_number [of "''VALID''" "[]"] by (simp add: GetLatestBlockNumber_def)
  have header: "GetBlockByNumber ?net 7 False [(BlockNumberMethod, [])] =
      (Ret (Inr \<lparr>HeaderHash = replicate 32 8, ParentHash = replicate 32 9, ParentBeaconRoot = None\<rparr>),
       [(BlockNumberMethod, []), (BlockByNumberMethod, [JNumber 7, JBool False])])"
    by (simp add: GetBlockByNumber_def sample_net_def bind_call_def lift_world_def lift_sum_def)
  have random: "rand_Read ?net 32 w = (Inr (replicate 32 3), w)" for w
    by (simp add: sample_net_def)
  show ?thesis
    using prepare_without_beacon_root_panics [OF number header random, of hex_codec] by simp
qed

text \<open>
  The latest block number. The quantity n an RPC server answers with is read as n below
  2 to the 63; a larger one is a range error, never a negative number.
\<close>

theorem latest_block_number:
  assumes "rpc_call net BlockNumberMethod [] w = (Inr (JString (hexutil_EncodeBig n)), w1)"
  shows "GetLatestBlockNumber net w =
    (Ret (if n < 2 ^ 63 then Inr (int n) else Inl (num_error_text ErrRange)), w1)"
  using assms
  by (simp add: GetLatestBlockNumber_def bind_call_def lift_world_def lift_sum_def plain_string_def ParseInt_EncodeBig)

theorem latest_block_number_witness:
  "fst (GetLatestBlockNumber (sample_net ''VALID'' \<lparr>rpc_call := \<lambda>m ps w.
      (Inr (JString (hexutil_EncodeBig 300)), w)\<rparr>) []) = Ret (Inr 300)"
  by (simp add: latest_block_number [where w = "[]"])

end
