(* ===== verification/Evm_Client.thy ===== *)
theory Evm_Client imports Evm_Proposal begin

text \<open>
  Starting the EVM client (\<open>execution/evm/client.go\<close>, \<open>jwt.go\<close>): dialling the two connections,
  checking the engine's capabilities and the chain's identity, the two loops that try until
  both succeed, and the refreshing of the engine's token. Dialling, signing the token and the
  network's identity are not code of the repository: they are the record \<open>dial_api\<close>. The
  world of a call is the client together with the world of the network.

  The loops of \<open>Start\<close> run in two goroutines that share a ticker; each attempt is one step
  here. The two write different fields of the client, so attempts do not interfere.
\<close>

section \<open>The client\<close>

record EVMConfig =
  engineAPIURL :: string
  rpcURL :: string
  jwtSecret :: bytes
  rpcJWTRefreshInterval :: int
  rpcCheckInterval :: int
  ethChainID :: int

record 'k EVMClient =
  engineClient :: "'k option"
  rpcClient :: "'k option"

record ('k, 'w) dial_api =
  SignedString :: "bytes \<Rightarrow> 64 word \<Rightarrow> string + string"
  Now :: "'w \<Rightarrow> 64 word \<times> 'w"
  DialOptions :: "string \<Rightarrow> (string \<times> string) list \<Rightarrow> 'w \<Rightarrow> (string + 'k) \<times> 'w"
  connection :: "'k \<Rightarrow> 'w eth_net"
  NetworkID :: "'k \<Rightarrow> 'w \<Rightarrow> (string + int) \<times> 'w"

definition NewEVMClient :: "'k EVMClient" where
  "NewEVMClient = \<lparr>engineClient = None, rpcClient = None\<rparr>"

definition engine_client :: string where "engine_client = ''engine-client''"
definition rpc_client :: string where "rpc_client = ''rpc-client''"

text \<open>A call of the network leaves the client as it is.\<close>

definition on_network :: "('w \<Rightarrow> (string + 'a) outcome \<times> 'w) \<Rightarrow> ('k EVMClient \<times> 'w, 'a) call" where
  "on_network f s = (case f (snd s) of (r, w) \<Rightarrow> (r, (fst s, w)))"

definition update_client :: "('k EVMClient \<Rightarrow> 'k EVMClient) \<Rightarrow> ('k EVMClient \<times> 'w, unit) call" where
  "update_client f s = (Ret (Inr ()), (f (fst s), snd s))"

section \<open>Dialling\<close>

definition buildSignedJWT :: "('k, 'w) dial_api \<Rightarrow> bytes \<Rightarrow> ('w, string) call" where
  "buildSignedJWT api secret =
     bind_call (lift_world (\<lambda>w. map_prod Inr id (Now api w))) (\<lambda>now.
     lift_sum (map_sum (\<lambda>err. ''failed to create JWT token: '' @ err) id (SignedString api secret now)))"

definition buildJWTHeader :: "('k, 'w) dial_api \<Rightarrow> EVMConfig \<Rightarrow> ('w, (string \<times> string) list) call" where
  "buildJWTHeader api config =
     bind_call (buildSignedJWT api (jwtSecret config)) (\<lambda>token.
     return_call [(''Authorization'', ''Bearer '' @ token)])"

definition dialRPCCLient :: "('k, 'w) dial_api \<Rightarrow> EVMConfig \<Rightarrow> string \<Rightarrow> ('k EVMClient \<times> 'w, unit) call" where
  "dialRPCCLient api config clientType =
     (if clientType = engine_client then
        bind_call (on_network (buildJWTHeader api config)) (\<lambda>header.
        bind_call (on_network (lift_world (DialOptions api (engineAPIURL config) header))) (\<lambda>client.
        update_client (engineClient_update (\<lambda>_. Some client))))
      else if clientType = rpc_client then
        bind_call (on_network (lift_world (DialOptions api (rpcURL config) []))) (\<lambda>client.
        update_client (rpcClient_update (\<lambda>_. Some client)))
      else fail_call ''invalid evm client type'')"

text \<open>The connection in a field; a nil one is dereferenced.\<close>

definition with_client :: "('k EVMClient \<Rightarrow> 'k option) \<Rightarrow> ('k \<Rightarrow> ('k EVMClient \<times> 'w, 'a) call) \<Rightarrow>
    ('k EVMClient \<times> 'w, 'a) call" where
  "with_client field f s = (case field (fst s) of None \<Rightarrow> (Panic, s) | Some k \<Rightarrow> f k s)"

definition connect :: "('k, 'w) dial_api \<Rightarrow> EVMConfig \<Rightarrow> string \<Rightarrow> ('k EVMClient \<times> 'w, unit) call" where
  "connect api config clientType =
     bind_call (dialRPCCLient api config clientType) (\<lambda>_.
     if clientType = engine_client then
       with_client engineClient (\<lambda>k.
       bind_call (on_network (ExchangeCapabilities (connection api k) ScalerizeSupportedCapabilities)) (\<lambda>_.
       return_call ()))
     else if clientType = rpc_client then
       with_client rpcClient (\<lambda>k.
       bind_call (on_network (lift_world (NetworkID api k))) (\<lambda>chainID.
       if chainID \<noteq> ethChainID config
       then fail_call ''chainID do not match for the eth client with what specified in scalerize config''
       else return_call ()))
     else fail_call ''invalid evm client type'')"

section \<open>Starting and refreshing\<close>

text \<open>
  What the goroutines have done: the loops that have ended, whether \<open>Start\<close> has signalled that
  the client is ready (and returned, and started the refreshing), and whether a goroutine has
  panicked, which ends the process.
\<close>

record ('k, 'w) start_state =
  client :: "'k EVMClient"
  network :: 'w
  engine_done :: bool
  rpc_done :: bool
  ready :: bool
  crashed :: bool

definition start_client :: "'w \<Rightarrow> ('k, 'w) start_state" where
  "start_client w = \<lparr>client = NewEVMClient, network = w, engine_done = False, rpc_done = False,
     ready = False, crashed = False\<rparr>"

definition attempted :: "(string + 'a) outcome \<times> 'k EVMClient \<times> 'w \<Rightarrow> ('k, 'w) start_state \<Rightarrow>
    ('k, 'w) start_state" where
  "attempted r s = s\<lparr>client := fst (snd r), network := snd (snd r), crashed := (fst r = Panic)\<rparr>"

definition succeeded :: "(string + 'a) outcome \<times> 'k EVMClient \<times> 'w \<Rightarrow> bool" where
  "succeeded r \<longleftrightarrow> (case fst r of Ret (Inr _) \<Rightarrow> True | _ \<Rightarrow> False)"

text \<open>A tick of the refreshing: the engine is dialled again with a new token, an error is logged.\<close>

definition refreshJWTForClient :: "('k, 'w) dial_api \<Rightarrow> EVMConfig \<Rightarrow> string \<Rightarrow> ('k, 'w) start_state \<Rightarrow>
    ('k, 'w) start_state" where
  "refreshJWTForClient api config clientType s =
     attempted (dialRPCCLient api config clientType (client s, network s)) s"

text \<open>
  The steps: \<open>NewTicker\<close> panics for an interval that is not positive; a tick for the loop of the
  engine or of the RPC connection; \<open>Start\<close> signals when both loops have ended; a tick of the
  refreshing. The last one stands for the world moving on by itself.
\<close>

inductive start_step :: "('k, 'w) dial_api \<Rightarrow> EVMConfig \<Rightarrow> ('k, 'w) start_state \<Rightarrow>
    ('k, 'w) start_state \<Rightarrow> bool" for api config where
  no_ticker: "rpcCheckInterval config \<le> 0 \<Longrightarrow> \<not> crashed s \<Longrightarrow> \<not> ready s \<Longrightarrow>
     start_step api config s (s\<lparr>crashed := True\<rparr>)"
| engine_tick: "0 < rpcCheckInterval config \<Longrightarrow> \<not> crashed s \<Longrightarrow> \<not> engine_done s \<Longrightarrow>
     r = connect api config engine_client (client s, network s) \<Longrightarrow>
     start_step api config s ((attempted r s)\<lparr>engine_done := succeeded r\<rparr>)"
| rpc_tick: "0 < rpcCheckInterval config \<Longrightarrow> \<not> crashed s \<Longrightarrow> \<not> rpc_done s \<Longrightarrow>
     r = connect api config rpc_client (client s, network s) \<Longrightarrow>
     start_step api config s ((attempted r s)\<lparr>rpc_done := succeeded r\<rparr>)"
| signal: "\<not> crashed s \<Longrightarrow> engine_done s \<Longrightarrow> rpc_done s \<Longrightarrow> \<not> ready s \<Longrightarrow>
     start_step api config s (s\<lparr>ready := True\<rparr>)"
| no_refresh: "ready s \<Longrightarrow> \<not> crashed s \<Longrightarrow> rpcJWTRefreshInterval config \<le> 0 \<Longrightarrow>
     start_step api config s (s\<lparr>crashed := True\<rparr>)"
| refresh_tick: "ready s \<Longrightarrow> \<not> crashed s \<Longrightarrow> 0 < rpcJWTRefreshInterval config \<Longrightarrow>
     start_step api config s (refreshJWTForClient api config engine_client s)"
| world: "start_step api config s (s\<lparr>network := w\<rparr>)"

inductive started :: "('k, 'w) dial_api \<Rightarrow> EVMConfig \<Rightarrow> 'w \<Rightarrow> ('k, 'w) start_state \<Rightarrow> bool"
  for api config w where
  start: "started api config w (start_client w)"
| step: "started api config w s \<Longrightarrow> start_step api config s s' \<Longrightarrow> started api config w s'"

inductive_cases start_stepE: "start_step api config s s'"

section \<open>What an attempt does\<close>

lemma client_names [simp]: "engine_client \<noteq> rpc_client" "rpc_client \<noteq> engine_client"
  by (simp_all add: engine_client_def rpc_client_def)

lemma succeeded_iff: "succeeded r \<longleftrightarrow> (\<exists>x s. r = (Ret (Inr x), s))"
  by (cases r) (auto simp: succeeded_def split: outcome.split sum.split)

text \<open>No call of the network panics here, and none touches the client.\<close>

lemma on_network_fst: "fst (snd (on_network f s)) = fst s"
  by (simp add: on_network_def split: prod.split)

lemma on_network_iff:
  "on_network f (cl, w) = (Ret (Inr x), s1) \<longleftrightarrow> (\<exists>w1. f w = (Ret (Inr x), w1) \<and> s1 = (cl, w1))"
  by (auto simp: on_network_def split: prod.splits)

lemma update_client_iff: "update_client f s = (Ret (Inr x), s1) \<longleftrightarrow> s1 = (f (fst s), snd s)"
  by (auto simp: update_client_def)

definition quiet :: "('w, 'a) call \<Rightarrow> bool" where
  "quiet m \<longleftrightarrow> (\<forall>w. fst (m w) \<noteq> Panic)"

lemma quiet_basic [intro!]:
  "quiet (return_call x)" "quiet (fail_call err)" "quiet (lift_sum y)" "quiet (lift_world g)"
  "quiet (update_client h)"
  by (simp_all add: quiet_def return_call_def fail_call_def lift_sum_def lift_world_def update_client_def
      split: prod.split)

lemma quiet_bind [intro!]: "quiet m \<Longrightarrow> (\<And>x. quiet (f x)) \<Longrightarrow> quiet (bind_call m f)"
  by (simp add: quiet_def bind_call_def split: prod.splits outcome.splits sum.splits) (metis fst_conv)

lemma quiet_on_network [intro!]: "quiet f \<Longrightarrow> quiet (on_network f)"
  by (simp add: quiet_def on_network_def split: prod.split) (metis fst_conv)

lemma buildJWTHeader_quiet: "quiet (buildJWTHeader api config)"
  unfolding buildJWTHeader_def buildSignedJWT_def by blast

lemma dial_quiet: "quiet (dialRPCCLient api config t)"
  using buildJWTHeader_quiet by (simp add: dialRPCCLient_def) blast

lemma ExchangeCapabilities_quiet: "quiet (ExchangeCapabilities net caps)"
  unfolding ExchangeCapabilities_def by blast

text \<open>The client after a dial: the other field is as it was, and nothing becomes nil.\<close>

lemma dial_engine_client:
  "dialRPCCLient api config engine_client s = (r, cl, w) \<Longrightarrow>
     rpcClient cl = rpcClient (fst s) \<and> (engineClient (fst s) \<noteq> None \<longrightarrow> engineClient cl \<noteq> None) \<and>
     ((\<exists>x. r = Ret (Inr x)) \<longrightarrow> engineClient cl \<noteq> None)"
  by (auto simp: dialRPCCLient_def bind_call_def on_network_def update_client_def
      split: prod.splits outcome.splits sum.splits)

lemma dial_rpc_client:
  "dialRPCCLient api config rpc_client s = (r, cl, w) \<Longrightarrow>
     engineClient cl = engineClient (fst s) \<and> ((\<exists>x. r = Ret (Inr x)) \<longrightarrow> rpcClient cl \<noteq> None)"
  by (auto simp: dialRPCCLient_def bind_call_def on_network_def update_client_def
      split: prod.splits outcome.splits sum.splits)

lemma with_client_no_panic:
  "field (fst s) \<noteq> None \<Longrightarrow> (\<And>k. quiet (f k)) \<Longrightarrow> fst (with_client field f s) \<noteq> Panic"
  unfolding with_client_def by (cases "field (fst s)"; simp; metis quiet_def)

lemma capabilities_quiet: "quiet (bind_call (on_network (ExchangeCapabilities net caps)) (\<lambda>_. return_call ()))"
  using ExchangeCapabilities_quiet by blast

lemma network_id_quiet: "quiet (bind_call (on_network (lift_world (NetworkID api k)))
    (\<lambda>chainID. if chainID \<noteq> ethChainID config then fail_call err else return_call ()))"
  by (intro quiet_bind quiet_on_network quiet_basic) auto

text \<open>An attempt never panics: the field a check reads was just set.\<close>

lemma connect_no_panic: "fst (connect api config t s) \<noteq> Panic"
proof -
  have dial: "fst (dialRPCCLient api config t s) \<noteq> Panic"
    using dial_quiet unfolding quiet_def by blast
  obtain r cl w where r: "dialRPCCLient api config t s = (r, cl, w)"
    by (cases "dialRPCCLient api config t s") auto
  show ?thesis
  proof (cases "\<exists>x. r = Ret (Inr x) \<and> t \<in> {engine_client, rpc_client}")
    case False
    then show ?thesis
      using dial by (auto simp: connect_def bind_call_def r fail_call_def split: outcome.split sum.split)
  next
    case True
    then have "t = engine_client \<and> engineClient cl \<noteq> None \<or> t = rpc_client \<and> rpcClient cl \<noteq> None"
      using r dial_engine_client [of api config s] dial_rpc_client [of api config s] by blast
    moreover have "connect api config t s = (if t = engine_client then with_client engineClient (\<lambda>k.
        bind_call (on_network (ExchangeCapabilities (connection api k) ScalerizeSupportedCapabilities)) (\<lambda>_.
        return_call ())) (cl, w) else with_client rpcClient (\<lambda>k.
        bind_call (on_network (lift_world (NetworkID api k))) (\<lambda>chainID.
        if chainID \<noteq> ethChainID config
        then fail_call ''chainID do not match for the eth client with what specified in scalerize config''
        else return_call ())) (cl, w))"
      using True by (auto simp: connect_def bind_call_def r)
    ultimately show ?thesis
      by (elim disjE conjE) (simp_all add: with_client_no_panic capabilities_quiet network_id_quiet)
  qed
qed

lemma connect_engine:
  assumes "connect api config engine_client s = (r, cl, w)"
  shows "rpcClient cl = rpcClient (fst s) \<and> (engineClient (fst s) \<noteq> None \<longrightarrow> engineClient cl \<noteq> None) \<and>
    (succeeded (r, cl, w) \<longrightarrow> engineClient cl \<noteq> None)"
  using assms dial_engine_client [of api config s]
  by (auto simp: connect_def bind_call_def with_client_def on_network_def succeeded_iff return_call_def
      split: prod.splits outcome.splits sum.splits option.splits)

lemma connect_rpc:
  assumes "connect api config rpc_client s = (r, cl, w)"
  shows "engineClient cl = engineClient (fst s) \<and>
    (succeeded (r, cl, w) \<longrightarrow> (\<exists>k v. rpcClient cl = Some k \<and> fst (NetworkID api k v) = Inr (ethChainID config)))"
  using assms dial_rpc_client [of api config s]
  by (auto simp: connect_def bind_call_def with_client_def on_network_def succeeded_iff return_call_def
      fail_call_def lift_world_def split: prod.splits outcome.splits sum.splits option.splits if_splits)
    (metis fst_conv)+

section \<open>The invariant of a start\<close>

definition start_inv :: "('k, 'w) dial_api \<Rightarrow> EVMConfig \<Rightarrow> ('k, 'w) start_state \<Rightarrow> bool" where
  "start_inv api config s \<longleftrightarrow>
     (ready s \<longrightarrow> engine_done s \<and> rpc_done s) \<and>
     (engine_done s \<longrightarrow> engineClient (client s) \<noteq> None) \<and>
     (rpc_done s \<longrightarrow> (\<exists>k v. rpcClient (client s) = Some k \<and> fst (NetworkID api k v) = Inr (ethChainID config))) \<and>
     (crashed s \<longrightarrow> rpcCheckInterval config \<le> 0 \<or> rpcJWTRefreshInterval config \<le> 0)"

lemma attempted_fields [simp]:
  "client (attempted (r, cl, w) s) = cl" "network (attempted (r, cl, w) s) = w"
  "engine_done (attempted x s) = engine_done s" "rpc_done (attempted x s) = rpc_done s"
  "ready (attempted x s) = ready s" "crashed (attempted x s) \<longleftrightarrow> fst x = Panic"
  by (simp_all add: attempted_def)

lemma start_inv_step: "start_step api config s s' \<Longrightarrow> start_inv api config s \<Longrightarrow> start_inv api config s'"
proof (induction rule: start_step.induct)
  case (engine_tick s r)
  obtain o' cl w where r: "r = (o', cl, w)" by (cases r) auto
  have "fst r \<noteq> Panic" using engine_tick by (simp add: connect_no_panic)
  moreover have "connect api config engine_client (client s, network s) = (o', cl, w)"
    using engine_tick.hyps(4) r by simp
  ultimately show ?case
    using engine_tick.hyps(1-3) engine_tick.prems connect_engine [of api config "(client s, network s)" o' cl w]
    by (auto simp: start_inv_def r)
next
  case (rpc_tick s r)
  obtain o' cl w where r: "r = (o', cl, w)" by (cases r) auto
  have "fst r \<noteq> Panic" using rpc_tick by (simp add: connect_no_panic)
  moreover have "connect api config rpc_client (client s, network s) = (o', cl, w)"
    using rpc_tick.hyps(4) r by simp
  ultimately show ?case
    using rpc_tick.hyps(1-3) rpc_tick.prems connect_rpc [of api config "(client s, network s)" o' cl w]
    by (auto simp: start_inv_def r)
next
  case (refresh_tick s)
  obtain o' cl w where r: "dialRPCCLient api config engine_client (client s, network s) = (o', cl, w)"
    by (cases "dialRPCCLient api config engine_client (client s, network s)") auto
  have "o' \<noteq> Panic" using dial_quiet [of api config engine_client] r unfolding quiet_def by (metis fst_conv)
  then show ?case
    using refresh_tick dial_engine_client [OF r] by (auto simp: start_inv_def refreshJWTForClient_def r)
qed (auto simp: start_inv_def)

lemma start_inv_started: "started api config w s \<Longrightarrow> start_inv api config s"
proof (induction rule: started.induct)
  case start
  show ?case by (simp add: start_inv_def start_client_def)
next
  case (step s s')
  then show ?case by (blast intro: start_inv_step)
qed

section \<open>Properties\<close>

text \<open>A network that answers everything, with chain 80087.\<close>

definition sample_dial :: "(unit, call_log) dial_api" where
  "sample_dial = \<lparr>
     SignedString = (\<lambda>secret now. Inr ''token''),
     Now = (\<lambda>w. (1000, w)),
     DialOptions = (\<lambda>url header w. (Inr (), w)),
     connection = (\<lambda>_. (sample_net ''VALID'') \<lparr>engine_call := \<lambda>m ps w. (Inr (JArray []), w)\<rparr>),
     NetworkID = (\<lambda>_ w. (Inr 80087, w))\<rparr>"

definition sample_config :: EVMConfig where
  "sample_config = \<lparr>engineAPIURL = ''http://localhost:8551'', rpcURL = ''http://localhost:8545'',
     jwtSecret = replicate 32 0, rpcJWTRefreshInterval = 20, rpcCheckInterval = 3, ethChainID = 80087\<rparr>"

lemma sample_dials:
  "dialRPCCLient sample_dial sample_config engine_client (cl, w) = (Ret (Inr ()), cl\<lparr>engineClient := Some ()\<rparr>, w)"
  "dialRPCCLient sample_dial sample_config rpc_client (cl, w) = (Ret (Inr ()), cl\<lparr>rpcClient := Some ()\<rparr>, w)"
  by (simp_all add: dialRPCCLient_def sample_dial_def sample_config_def bind_call_def on_network_def
      update_client_def buildJWTHeader_def buildSignedJWT_def lift_world_def lift_sum_def return_call_def)

lemma sample_connects:
  "connect sample_dial sample_config engine_client (cl, w) = (Ret (Inr ()), cl\<lparr>engineClient := Some ()\<rparr>, w)"
  "connect sample_dial sample_config rpc_client (cl, w) = (Ret (Inr ()), cl\<lparr>rpcClient := Some ()\<rparr>, w)"
proof -
  have "ExchangeCapabilities (connection sample_dial ()) caps w = (Ret (Inr []), w)" for caps w
    by (simp add: ExchangeCapabilities_def sample_dial_def bind_call_def lift_world_def lift_sum_def json_list_of_def)
  then show "connect sample_dial sample_config engine_client (cl, w) =
      (Ret (Inr ()), cl\<lparr>engineClient := Some ()\<rparr>, w)"
    by (simp add: connect_def bind_call_def sample_dials with_client_def on_network_def return_call_def)
  show "connect sample_dial sample_config rpc_client (cl, w) = (Ret (Inr ()), cl\<lparr>rpcClient := Some ()\<rparr>, w)"
    by (simp add: connect_def bind_call_def sample_dials with_client_def on_network_def return_call_def
        lift_world_def) (simp add: sample_dial_def sample_config_def return_call_def)
qed

text \<open>
  Services that are up: as long as the world is in \<open>up\<close>, where it stays, the token can be signed,
  both URLs can be dialled (the engine's with the bearer of a token), the engine answers the
  exchange of capabilities with a list of names, and the RPC server names the chain of the
  configuration.
\<close>

definition services_up :: "('k, 'w) dial_api \<Rightarrow> EVMConfig \<Rightarrow> ('w \<Rightarrow> bool) \<Rightarrow> bool" where
  "services_up api config up \<longleftrightarrow>
     (\<forall>now. \<exists>token. SignedString api (jwtSecret config) now = Inr token) \<and>
     (\<forall>w. up w \<longrightarrow> up (snd (Now api w))) \<and>
     (\<forall>w token. up w \<longrightarrow> (\<exists>k w'. up w' \<and>
        DialOptions api (engineAPIURL config) [(''Authorization'', ''Bearer '' @ token)] w = (Inr k, w'))) \<and>
     (\<forall>w. up w \<longrightarrow> (\<exists>k w'. up w' \<and> DialOptions api (rpcURL config) [] w = (Inr k, w'))) \<and>
     (\<forall>k w. up w \<longrightarrow> (\<exists>names w'. up w' \<and> engine_call (connection api k) ''engine_exchangeCapabilities''
        [JArray (map JString ScalerizeSupportedCapabilities)] w = (Inr (JArray (map JString names)), w'))) \<and>
     (\<forall>k w. up w \<longrightarrow> (\<exists>w'. up w' \<and> NetworkID api k w = (Inr (ethChainID config), w')))"

lemma services_upD:
  assumes "services_up api config up"
  shows "\<exists>token. SignedString api (jwtSecret config) now = Inr token"
    and "up w \<Longrightarrow> up (snd (Now api w))"
    and "up w \<Longrightarrow> \<exists>k w'. up w' \<and>
      DialOptions api (engineAPIURL config) [(''Authorization'', ''Bearer '' @ token)] w = (Inr k, w')"
    and "up w \<Longrightarrow> \<exists>k w'. up w' \<and> DialOptions api (rpcURL config) [] w = (Inr k, w')"
    and "up w \<Longrightarrow> \<exists>names w'. up w' \<and> engine_call (connection api k) ''engine_exchangeCapabilities''
      [JArray (map JString ScalerizeSupportedCapabilities)] w = (Inr (JArray (map JString names)), w')"
    and "up w \<Longrightarrow> \<exists>w'. up w' \<and> NetworkID api k w = (Inr (ethChainID config), w')"
  using assms unfolding services_up_def by blast+

lemma header_up:
  assumes "services_up api config up" and "up w"
  shows "\<exists>token w'. buildJWTHeader api config w = (Ret (Inr [(''Authorization'', ''Bearer '' @ token)]), w') \<and> up w'"
proof -
  obtain now w1 where now: "Now api w = (now, w1)" by fastforce
  then have "up w1" using services_upD(2) [OF assms] by simp
  moreover obtain token where "SignedString api (jwtSecret config) now = Inr token"
    using services_upD(1) [OF assms(1)] by blast
  ultimately show ?thesis using now
    by (simp add: buildJWTHeader_def buildSignedJWT_def bind_call_def lift_world_def lift_sum_def return_call_def)
qed

lemma dial_engine_up:
  assumes "services_up api config up" and "up w"
  shows "\<exists>k w'. dialRPCCLient api config engine_client (cl, w) =
    (Ret (Inr ()), cl\<lparr>engineClient := Some k\<rparr>, w') \<and> up w'"
proof -
  obtain token w1 where h: "buildJWTHeader api config w =
      (Ret (Inr [(''Authorization'', ''Bearer '' @ token)]), w1)" "up w1"
    using header_up [OF assms] by blast
  obtain k w2 where "up w2" "DialOptions api (engineAPIURL config) [(''Authorization'', ''Bearer '' @ token)] w1 = (Inr k, w2)"
    using services_upD(3) [OF assms(1) h(2)] by blast
  then show ?thesis using h
    by (simp add: dialRPCCLient_def bind_call_def on_network_def update_client_def lift_world_def) blast
qed

lemma dial_rpc_up:
  assumes "services_up api config up" and "up w"
  shows "\<exists>k w'. dialRPCCLient api config rpc_client (cl, w) =
    (Ret (Inr ()), cl\<lparr>rpcClient := Some k\<rparr>, w') \<and> up w'"
  using services_upD(4) [OF assms]
  by (auto simp: dialRPCCLient_def bind_call_def on_network_def update_client_def lift_world_def)

lemma connect_engine_up:
  assumes "services_up api config up" and "up w"
  shows "\<exists>cl' w'. connect api config engine_client (cl, w) = (Ret (Inr ()), cl', w') \<and> up w'"
proof -
  obtain k w1 where d: "dialRPCCLient api config engine_client (cl, w) =
      (Ret (Inr ()), cl\<lparr>engineClient := Some k\<rparr>, w1)" "up w1"
    using dial_engine_up [OF assms] by blast
  obtain names w2 where e: "up w2" "engine_call (connection api k) ''engine_exchangeCapabilities''
      [JArray (map JString ScalerizeSupportedCapabilities)] w1 = (Inr (JArray (map JString names)), w2)"
    using services_upD(5) [OF assms(1) d(2)] by blast
  have "json_list_of plain_string (JArray (map JString names)) = Inr names"
    by (simp add: json_list_of_def json_each_map plain_string_def)
  then have "ExchangeCapabilities (connection api k) ScalerizeSupportedCapabilities w1 = (Ret (Inr names), w2)"
    using e(2) by (simp add: ExchangeCapabilities_def ExchangeCapabilitiesMethod_def bind_call_def
        lift_world_def lift_sum_def)
  then show ?thesis using d(1) e(1)
    by (simp add: connect_def bind_call_def with_client_def on_network_def return_call_def)
qed

lemma connect_rpc_up:
  assumes "services_up api config up" and "up w"
  shows "\<exists>cl' w'. connect api config rpc_client (cl, w) = (Ret (Inr ()), cl', w') \<and> up w'"
proof -
  obtain k w1 where d: "dialRPCCLient api config rpc_client (cl, w) =
      (Ret (Inr ()), cl\<lparr>rpcClient := Some k\<rparr>, w1)" "up w1"
    using dial_rpc_up [OF assms] by blast
  obtain w2 where "up w2" "NetworkID api k w1 = (Inr (ethChainID config), w2)"
    using services_upD(6) [OF assms(1) d(2)] by blast
  then show ?thesis using d(1)
    by (simp add: connect_def bind_call_def with_client_def on_network_def return_call_def lift_world_def)
qed

lemma finish_start:
  assumes "\<not> crashed s" and interval: "0 < rpcCheckInterval config"
    and services: "services_up api config up" and "up (network s)"
  shows "\<exists>s'. (start_step api config)\<^sup>*\<^sup>* s s' \<and> ready s' \<and> \<not> crashed s'"
proof -
  have "\<exists>s1. (start_step api config)\<^sup>*\<^sup>* s s1 \<and> \<not> crashed s1 \<and> engine_done s1 \<and> up (network s1)"
  proof (cases "engine_done s")
    case False
    obtain cl w where c: "connect api config engine_client (client s, network s) = (Ret (Inr ()), cl, w)" "up w"
      using connect_engine_up [OF services assms(4)] by blast
    then have "start_step api config s ((attempted (Ret (Inr ()), cl, w) s)\<lparr>engine_done := True\<rparr>)"
      using start_step.engine_tick [OF interval assms(1) False refl, of api] by (simp add: succeeded_def)
    then show ?thesis using c(2) by - (intro exI conjI, erule r_into_rtranclp, auto)
  qed (use assms(1,4) in blast)
  then obtain s1 where s1: "(start_step api config)\<^sup>*\<^sup>* s s1" "\<not> crashed s1" "engine_done s1" "up (network s1)"
    by blast
  have "\<exists>s2. (start_step api config)\<^sup>*\<^sup>* s1 s2 \<and> \<not> crashed s2 \<and> engine_done s2 \<and> rpc_done s2"
  proof (cases "rpc_done s1")
    case False
    obtain cl w where c: "connect api config rpc_client (client s1, network s1) = (Ret (Inr ()), cl, w)" "up w"
      using connect_rpc_up [OF services s1(4)] by blast
    then have "start_step api config s1 ((attempted (Ret (Inr ()), cl, w) s1)\<lparr>rpc_done := True\<rparr>)"
      using start_step.rpc_tick [OF interval s1(2) False refl, of api] by (simp add: succeeded_def)
    then show ?thesis using s1(3) by - (intro exI conjI, erule r_into_rtranclp, auto)
  qed (use s1 in blast)
  then obtain s2 where s2: "(start_step api config)\<^sup>*\<^sup>* s1 s2" "\<not> crashed s2" "engine_done s2" "rpc_done s2" by blast
  have "\<exists>s3. (start_step api config)\<^sup>*\<^sup>* s2 s3 \<and> ready s3 \<and> \<not> crashed s3"
  proof (cases "ready s2")
    case False
    then have "start_step api config s2 (s2\<lparr>ready := True\<rparr>)" using s2 by (intro start_step.signal)
    then show ?thesis using s2(2) by - (intro exI conjI, erule r_into_rtranclp, auto)
  qed (use s2 in blast)
  then show ?thesis using s1(1) s2(1) by (meson rtranclp_trans)
qed

lemma sample_services: "services_up sample_dial sample_config (\<lambda>_. True)"
proof -
  have "JArray [] = JArray (map JString [])" by simp
  then show ?thesis
    unfolding services_up_def by (auto simp: sample_dial_def sample_config_def simp del: list.map)
qed

text \<open>
  C19: a client that has signalled is connected. In every state that starting and refreshing can
  reach, with any answers of the network and any order of the goroutines: once \<open>Start\<close> has
  signalled, both connections are there, whatever dials of the refreshing fail, and the RPC
  connection has answered with the configured chain; a goroutine panics only if an interval is
  not positive.
\<close>

theorem ready_client_connected:
  assumes "started api config w s"
  shows "(ready s \<longrightarrow> engineClient (client s) \<noteq> None \<and>
      (\<exists>k v. rpcClient (client s) = Some k \<and> fst (NetworkID api k v) = Inr (ethChainID config))) \<and>
    (crashed s \<longrightarrow> rpcCheckInterval config \<le> 0 \<or> rpcJWTRefreshInterval config \<le> 0)"
  using start_inv_started [OF assms] by (auto simp: start_inv_def)

theorem ready_client_connected_witness:
  "\<exists>s. started sample_dial sample_config [] s \<and> ready s \<and> engineClient (client s) = Some () \<and>
    rpcClient (client s) = Some ()"
proof -
  obtain s where s: "(start_step sample_dial sample_config)\<^sup>*\<^sup>* (start_client []) s" "ready s" "\<not> crashed s"
    using finish_start [OF _ _ sample_services, of "start_client []"]
    by (auto simp: start_client_def sample_config_def)
  from s(1) have "started sample_dial sample_config [] s"
    by (induction rule: rtranclp_induct) (auto intro: started.intros)
  then show ?thesis
    using s ready_client_connected [of sample_dial sample_config "[]" s] by auto
qed

text \<open>
  C37: a start can always finish. Take any state a start can reach, with positive intervals,
  whatever the network did so far. Once the world is one in which the services are up (the
  token is signed, both URLs are dialled, the engine lists its capabilities, the RPC server
  names the configured chain), attempts of the two loops succeed and \<open>Start\<close> signals.
\<close>

theorem start_can_finish:
  assumes "started api config w s" and "0 < rpcCheckInterval config" and "0 < rpcJWTRefreshInterval config"
    and services: "services_up api config up" and "up v"
  shows "\<exists>s'. (start_step api config)\<^sup>*\<^sup>* (s\<lparr>network := v\<rparr>) s' \<and> ready s' \<and>
    engineClient (client s') \<noteq> None \<and> rpcClient (client s') \<noteq> None"
proof -
  have "\<not> crashed s" using start_inv_started [OF assms(1)] assms(2,3) by (auto simp: start_inv_def)
  then obtain s' where s': "(start_step api config)\<^sup>*\<^sup>* (s\<lparr>network := v\<rparr>) s'" "ready s'"
    using finish_start [of "s\<lparr>network := v\<rparr>", OF _ assms(2) services] assms(5) by auto
  have "started api config w (s\<lparr>network := v\<rparr>)"
    by (rule started.step [OF assms(1) start_step.world])
  with s'(1) have "started api config w s'"
    by (induction rule: rtranclp_induct) (auto intro: started.intros)
  then have "engineClient (client s') \<noteq> None \<and> rpcClient (client s') \<noteq> None"
    using start_inv_started s'(2) by (fastforce simp: start_inv_def)
  with s' show ?thesis by blast
qed

theorem start_can_finish_witness:
  "\<exists>s'. (start_step sample_dial sample_config)\<^sup>*\<^sup>* (start_client []) s' \<and> ready s' \<and> engineClient (client s') \<noteq> None"
  using start_can_finish [OF started.start _ _ sample_services, of "[]" "[]"]
  by (auto simp: sample_config_def start_client_def)

end
