(* ===== verification/App_Export.thy ===== *)
theory App_Export imports Go_Call begin

text \<open>
  Exporting the state for a genesis file (\<open>app/export.go\<close>): the preparation for a start at
  height zero and the export itself. The keepers of the Cosmos SDK, its address formats and its
  JSON are not code of the repository: they are the record \<open>keepers\<close>; a call of a keeper may
  change the world and depends on the height of its context. Two laws state what the code
  relies on: \<open>staking_laws\<close>, that a validator that was set is read back and setting it changes no
  other; \<open>distribution_laws\<close>, that paying out rewards, the hooks of the distribution and the
  setting of delegation records leave the validators of the staking store as they are.

  \<open>log.Fatal\<close> ends the process with an error: the calls of this theory end with it as an error
  value; a panic is a panic. A result the code ignores (\<open>_, _ =\<close>) is left out.
\<close>

section \<open>The keepers\<close>

text \<open>A validator, and the entries of a redelegation or unbonding delegation: the fields the code
  writes, and the rest.\<close>

record 'x validator =
  Operator :: string
  UnbondingHeight :: int
  Jailed :: bool
  validator_rest :: 'x

record 'x unbonding =
  creation_heights :: "int list"
  unbonding_rest :: 'x

record delegation =
  DelegatorAddress :: string
  ValidatorAddress :: string

record ('w, 'x, 'r, 'u, 'c, 'g) keepers =
  ValAddressFromBech32 :: "string \<Rightarrow> string + bytes"
  AccAddressFromBech32 :: "string \<Rightarrow> string + bytes"
  ValAddressString :: "bytes \<Rightarrow> string"
  AddressFromValidatorsKey :: "bytes \<Rightarrow> bytes"
  ValidatorStringToBytes :: "string \<Rightarrow> string + bytes"
  Validators :: "int \<Rightarrow> 'w \<Rightarrow> 'x validator list"
  GetAllDelegations :: "int \<Rightarrow> 'w \<Rightarrow> string + delegation list"
  Redelegations :: "int \<Rightarrow> 'w \<Rightarrow> 'r unbonding list"
  SetRedelegation :: "int \<Rightarrow> 'r unbonding \<Rightarrow> 'w \<Rightarrow> 'w"
  UnbondingDelegations :: "int \<Rightarrow> 'w \<Rightarrow> 'u unbonding list"
  SetUnbondingDelegation :: "int \<Rightarrow> 'u unbonding \<Rightarrow> 'w \<Rightarrow> 'w"
  ValidatorKeysReverse :: "'w \<Rightarrow> bytes list"
  CloseIterator :: "'w \<Rightarrow> string option"
  GetValidator :: "int \<Rightarrow> bytes \<Rightarrow> 'w \<Rightarrow> string + 'x validator"
  SetValidator :: "int \<Rightarrow> 'x validator \<Rightarrow> 'w \<Rightarrow> 'w"
  ApplyAndReturnValidatorSetUpdates :: "int \<Rightarrow> 'w \<Rightarrow> (string + unit) \<times> 'w"
  WithdrawValidatorCommission :: "int \<Rightarrow> bytes \<Rightarrow> 'w \<Rightarrow> 'w"
  WithdrawDelegationRewards :: "int \<Rightarrow> bytes \<Rightarrow> bytes \<Rightarrow> 'w \<Rightarrow> 'w"
  DeleteAllValidatorSlashEvents :: "int \<Rightarrow> 'w \<Rightarrow> 'w"
  DeleteAllValidatorHistoricalRewards :: "int \<Rightarrow> 'w \<Rightarrow> 'w"
  GetValidatorOutstandingRewardsCoins :: "int \<Rightarrow> bytes \<Rightarrow> 'w \<Rightarrow> string + 'c"
  FeePoolGet :: "int \<Rightarrow> 'w \<Rightarrow> string + 'c"
  FeePoolSet :: "int \<Rightarrow> 'c \<Rightarrow> 'w \<Rightarrow> (string + unit) \<times> 'w"
  AddCoins :: "'c \<Rightarrow> 'c \<Rightarrow> 'c"
  AfterValidatorCreated :: "int \<Rightarrow> bytes \<Rightarrow> 'w \<Rightarrow> (string + unit) \<times> 'w"
  BeforeDelegationCreated :: "int \<Rightarrow> bytes \<Rightarrow> bytes \<Rightarrow> 'w \<Rightarrow> (string + unit) \<times> 'w"
  AfterDelegationModified :: "int \<Rightarrow> bytes \<Rightarrow> bytes \<Rightarrow> 'w \<Rightarrow> (string + unit) \<times> 'w"
  LastBlockHeight :: "'w \<Rightarrow> int"
  ExportGenesis :: "int \<Rightarrow> 'w \<Rightarrow> string + 'g"
  MarshalIndent :: "'g \<Rightarrow> string + bytes"
  WriteValidators :: "int \<Rightarrow> 'w \<Rightarrow> string option \<times> bytes list"

definition effect :: "('w \<Rightarrow> 'w) \<Rightarrow> ('w, unit) call" where
  "effect f w = (Ret (Inr ()), f w)"

definition reading :: "('w \<Rightarrow> 'a) \<Rightarrow> ('w, 'a) call" where
  "reading f w = (Ret (Inr (f w)), w)"

section \<open>Preparing for height zero\<close>

text \<open>The allowed addresses must be addresses; the map is their set, as they are written.\<close>

definition check_allowed :: "('w, 'x, 'r, 'u, 'c, 'g) keepers \<Rightarrow> string list \<Rightarrow> ('w, unit) call" where
  "check_allowed k addrs =
     each_call (\<lambda>addr. bind_call (lift_sum (ValAddressFromBech32 k addr)) (\<lambda>_. return_call ())) addrs"

definition delegation_addresses :: "('w, 'x, 'r, 'u, 'c, 'g) keepers \<Rightarrow> delegation \<Rightarrow> ('w, bytes \<times> bytes) call" where
  "delegation_addresses k d =
     bind_call (or_panic (lift_sum (ValAddressFromBech32 k (ValidatorAddress d)))) (\<lambda>valAddr.
     bind_call (or_panic (lift_sum (AccAddressFromBech32 k (DelegatorAddress d)))) (\<lambda>delAddr.
     return_call (delAddr, valAddr)))"

definition withdraw_all :: "('w, 'x, 'r, 'u, 'c, 'g) keepers \<Rightarrow> int \<Rightarrow> ('w, delegation list) call" where
  "withdraw_all k h =
     bind_call (reading (Validators k h)) (\<lambda>vals.
     bind_call (each_call (\<lambda>val.
       bind_call (or_panic (lift_sum (ValidatorStringToBytes k (Operator val)))) (\<lambda>valBz.
       effect (WithdrawValidatorCommission k h valBz))) vals) (\<lambda>_.
     bind_call (or_panic (\<lambda>w. (Ret (GetAllDelegations k h w), w))) (\<lambda>dels.
     bind_call (each_call (\<lambda>d.
       bind_call (delegation_addresses k d) (\<lambda>(delAddr, valAddr).
       effect (WithdrawDelegationRewards k h delAddr valAddr))) dels) (\<lambda>_.
     bind_call (effect (DeleteAllValidatorSlashEvents k h)) (\<lambda>_.
     bind_call (effect (DeleteAllValidatorHistoricalRewards k h)) (\<lambda>_.
     return_call dels))))))"

definition reinitialize :: "('w, 'x, 'r, 'u, 'c, 'g) keepers \<Rightarrow> int \<Rightarrow> delegation list \<Rightarrow> ('w, unit) call" where
  "reinitialize k h dels =
     bind_call (reading (Validators k h)) (\<lambda>vals.
     bind_call (each_call (\<lambda>val.
       bind_call (or_panic (lift_sum (ValidatorStringToBytes k (Operator val)))) (\<lambda>valBz.
       bind_call (or_panic (\<lambda>w. (Ret (GetValidatorOutstandingRewardsCoins k h valBz w), w))) (\<lambda>scraps.
       bind_call (or_panic (\<lambda>w. (Ret (FeePoolGet k h w), w))) (\<lambda>communityPool.
       bind_call (or_panic (lift_world (FeePoolSet k h (AddCoins k communityPool scraps)))) (\<lambda>_.
       or_panic (lift_world (AfterValidatorCreated k h valBz))))))) vals) (\<lambda>_.
     each_call (\<lambda>d.
       bind_call (delegation_addresses k d) (\<lambda>(delAddr, valAddr).
       bind_call (or_panic (lift_world (BeforeDelegationCreated k h delAddr valAddr))) (\<lambda>_.
       or_panic (lift_world (AfterDelegationModified k h delAddr valAddr))))) dels))"

definition zero_heights :: "'x unbonding \<Rightarrow> 'x unbonding" where
  "zero_heights u = u\<lparr>creation_heights := map (\<lambda>_. 0) (creation_heights u)\<rparr>"

definition reset_unbondings :: "('w, 'x, 'r, 'u, 'c, 'g) keepers \<Rightarrow> int \<Rightarrow> ('w, unit) call" where
  "reset_unbondings k h =
     bind_call (reading (Redelegations k h)) (\<lambda>reds.
     bind_call (each_call (\<lambda>red. effect (SetRedelegation k h (zero_heights red))) reds) (\<lambda>_.
     bind_call (reading (UnbondingDelegations k h)) (\<lambda>ubds.
     each_call (\<lambda>ubd. effect (SetUnbondingDelegation k h (zero_heights ubd))) ubds)))"

text \<open>Both kinds of error panic.\<close>

definition reset_validator :: "('w, 'x, 'r, 'u, 'c, 'g) keepers \<Rightarrow> int \<Rightarrow> string list \<Rightarrow> bytes \<Rightarrow>
    ('w, unit) call" where
  "reset_validator k h jailAllowedAddrs key =
     (let addr = AddressFromValidatorsKey k key in
      bind_call (or_panic (\<lambda>w. (Ret (GetValidator k h addr w), w))) (\<lambda>validator.
      effect (SetValidator k h (validator\<lparr>UnbondingHeight := 0,
        Jailed := (if 0 < length jailAllowedAddrs \<and> ValAddressString k addr \<notin> set jailAllowedAddrs
          then True else Jailed validator)\<rparr>))))"

text \<open>An error of closing the iterator is logged, and the update of the validator set skipped.\<close>

definition prepForZeroHeightGenesis :: "('w, 'x, 'r, 'u, 'c, 'g) keepers \<Rightarrow> int \<Rightarrow> string list \<Rightarrow>
    ('w, unit) call" where
  "prepForZeroHeightGenesis k height jailAllowedAddrs =
     bind_call (check_allowed k jailAllowedAddrs) (\<lambda>_.
     bind_call (withdraw_all k height) (\<lambda>dels.
     bind_call (reinitialize k 0 dels) (\<lambda>_.
     bind_call (reset_unbondings k height) (\<lambda>_.
     bind_call (reading (ValidatorKeysReverse k)) (\<lambda>keys.
     bind_call (each_call (reset_validator k height jailAllowedAddrs) keys) (\<lambda>_.
     bind_call (reading (CloseIterator k)) (\<lambda>closed.
     case closed of
       Some err \<Rightarrow> return_call ()
     | None \<Rightarrow> lift_world (ApplyAndReturnValidatorSetUpdates k height))))))))"

section \<open>The export\<close>

record ExportedApp =
  AppState :: bytes
  ExportedValidators :: "bytes list"
  ExportedHeight :: int

text \<open>The module list is an argument the code does not use. The error of the validators comes
  with the exported state; the caller takes it as an error.\<close>

definition ExportAppStateAndValidators :: "('w, 'x, 'r, 'u, 'c, 'g) keepers \<Rightarrow> bool \<Rightarrow> string list \<Rightarrow>
    string list \<Rightarrow> ('w, ExportedApp) call" where
  "ExportAppStateAndValidators k forZeroHeight jailAllowedAddrs modulesToExport =
     bind_call (reading (LastBlockHeight k)) (\<lambda>ctx_height.
     bind_call (if forZeroHeight then prepForZeroHeightGenesis k ctx_height jailAllowedAddrs
                else return_call ()) (\<lambda>_.
     bind_call (\<lambda>w. (Ret (map_sum ((@) ''failed to export genesis state: '') id (ExportGenesis k ctx_height w)), w)) (\<lambda>genState.
     bind_call (lift_sum (MarshalIndent k genState)) (\<lambda>appState.
     bind_call (reading (WriteValidators k ctx_height)) (\<lambda>written.
     case fst written of
       Some err \<Rightarrow> fail_call err
     | None \<Rightarrow> return_call \<lparr>AppState = appState, ExportedValidators = snd written,
         ExportedHeight = (if forZeroHeight then 0 else ctx_height + 1)\<rparr>)))))"

section \<open>The validators\<close>

text \<open>A validator that was read at an address and set again is read there; others are unchanged.\<close>

definition staking_laws :: "('w, 'x, 'r, 'u, 'c, 'g) keepers \<Rightarrow> bool" where
  "staking_laws k \<longleftrightarrow> (\<forall>h a b v v' w. GetValidator k h a w = Inr v \<longrightarrow> Operator v' = Operator v \<longrightarrow>
     GetValidator k h b (SetValidator k h v' w) = (if b = a then Inr v' else GetValidator k h b w))"

text \<open>What the reset makes of a validator at an address.\<close>

definition restarted :: "('w, 'x, 'r, 'u, 'c, 'g) keepers \<Rightarrow> string list \<Rightarrow> bytes \<Rightarrow> 'x validator \<Rightarrow>
    'x validator" where
  "restarted k allowed addr v = v\<lparr>UnbondingHeight := 0,
     Jailed := (Jailed v \<or> allowed \<noteq> [] \<and> ValAddressString k addr \<notin> set allowed)\<rparr>"

lemma restarted_idem: "restarted k allowed addr (restarted k allowed addr v) = restarted k allowed addr v"
  by (simp add: restarted_def)

lemma restarted_eq:
  "v\<lparr>UnbondingHeight := 0, Jailed := (if 0 < length allowed \<and> ValAddressString k addr \<notin> set allowed
     then True else Jailed v)\<rparr> = restarted k allowed addr v"
  by (cases v) (auto simp: restarted_def)

lemma reset_validator_iff:
  "reset_validator k h allowed key w = (Ret (Inr u), w1) \<longleftrightarrow>
     (\<exists>v. GetValidator k h (AddressFromValidatorsKey k key) w = Inr v \<and>
       w1 = SetValidator k h (restarted k allowed (AddressFromValidatorsKey k key) v) w)"
  unfolding reset_validator_def Let_def restarted_eq
  by (auto simp: bind_call_Ret_iff or_panic_Ret_iff effect_def)

lemma reset_validator_reads:
  assumes "staking_laws k" and "reset_validator k h allowed key w = (Ret (Inr u), w1)"
  shows "GetValidator k h b w1 = (if b = AddressFromValidatorsKey k key
    then map_sum id (restarted k allowed b) (GetValidator k h b w) else GetValidator k h b w)"
proof -
  obtain v where "GetValidator k h (AddressFromValidatorsKey k key) w = Inr v"
    "w1 = SetValidator k h (restarted k allowed (AddressFromValidatorsKey k key) v) w"
    using assms(2) by (auto simp: reset_validator_iff)
  moreover have "Operator (restarted k allowed a v) = Operator v" for a by (simp add: restarted_def)
  ultimately show ?thesis using assms(1) unfolding staking_laws_def by auto
qed

lemma reset_all_reads:
  assumes "staking_laws k" and "each_call (reset_validator k h allowed) keys w = (Ret (Inr u), w1)"
  shows "GetValidator k h b w1 = (if b \<in> AddressFromValidatorsKey k ` set keys
    then map_sum id (restarted k allowed b) (GetValidator k h b w) else GetValidator k h b w)"
  using assms(2)
proof (induction keys arbitrary: w)
  case (Cons key keys)
  then obtain w2 where w2: "reset_validator k h allowed key w = (Ret (Inr ()), w2)"
    "each_call (reset_validator k h allowed) keys w2 = (Ret (Inr u), w1)"
    by (auto simp: bind_call_Ret_iff)
  have idem: "map_sum (\<lambda>err. err) (restarted k allowed b) (map_sum (\<lambda>err. err) (restarted k allowed b) x) =
      map_sum (\<lambda>err. err) (restarted k allowed b) x" for b x
    by (cases x) (simp_all add: restarted_idem)
  show ?case
    using Cons.IH [OF w2(2)] reset_validator_reads [OF assms(1) w2(1), of b]
    by (cases "b = AddressFromValidatorsKey k key"; cases "b \<in> AddressFromValidatorsKey k ` set keys")
      (simp_all add: id_def idem)
qed (simp add: return_call_def)

lemma reset_all_found:
  assumes "staking_laws k" and "each_call (reset_validator k h allowed) keys w = (Ret (Inr u), w1)"
    and "key \<in> set keys"
  shows "\<exists>v. GetValidator k h (AddressFromValidatorsKey k key) w = Inr v"
  using assms(2,3)
proof (induction keys arbitrary: w)
  case (Cons x keys)
  then obtain w2 where w2: "reset_validator k h allowed x w = (Ret (Inr ()), w2)"
    "each_call (reset_validator k h allowed) keys w2 = (Ret (Inr u), w1)"
    by (auto simp: bind_call_Ret_iff)
  show ?case
  proof (cases "key = x")
    case True
    then show ?thesis using w2(1) by (auto simp: reset_validator_iff)
  next
    case False
    then obtain v where "GetValidator k h (AddressFromValidatorsKey k key) w2 = Inr v"
      using Cons w2(2) by auto
    then show ?thesis
      using reset_validator_reads [OF assms(1) w2(1)] by (cases "GetValidator k h (AddressFromValidatorsKey k key) w")
        (auto split: if_splits)
  qed
qed simp

text \<open>
  Two worlds with the same validators: the same keys in the store, and the same answers at every
  address.
\<close>

definition same_validators :: "('w, 'x, 'r, 'u, 'c, 'g) keepers \<Rightarrow> 'w \<Rightarrow> 'w \<Rightarrow> bool" where
  "same_validators k w w' \<longleftrightarrow> ValidatorKeysReverse k w' = ValidatorKeysReverse k w \<and>
     (\<forall>h b. GetValidator k h b w' = GetValidator k h b w)"

text \<open>What is done before the validators are reset works on other records.\<close>

definition distribution_laws :: "('w, 'x, 'r, 'u, 'c, 'g) keepers \<Rightarrow> bool" where
  "distribution_laws k \<longleftrightarrow> (\<forall>h w.
     (\<forall>a. same_validators k w (WithdrawValidatorCommission k h a w)) \<and>
     (\<forall>d a. same_validators k w (WithdrawDelegationRewards k h d a w)) \<and>
     same_validators k w (DeleteAllValidatorSlashEvents k h w) \<and>
     same_validators k w (DeleteAllValidatorHistoricalRewards k h w) \<and>
     (\<forall>c. same_validators k w (snd (FeePoolSet k h c w))) \<and>
     (\<forall>a. same_validators k w (snd (AfterValidatorCreated k h a w))) \<and>
     (\<forall>d a. same_validators k w (snd (BeforeDelegationCreated k h d a w))) \<and>
     (\<forall>d a. same_validators k w (snd (AfterDelegationModified k h d a w))) \<and>
     (\<forall>r. same_validators k w (SetRedelegation k h r w)) \<and>
     (\<forall>u. same_validators k w (SetUnbondingDelegation k h u w)))"

lemma distribution_lawsD:
  assumes "distribution_laws k"
  shows "same_validators k w (WithdrawValidatorCommission k h a w)"
    and "same_validators k w (WithdrawDelegationRewards k h d a w)"
    and "same_validators k w (DeleteAllValidatorSlashEvents k h w)"
    and "same_validators k w (DeleteAllValidatorHistoricalRewards k h w)"
    and "same_validators k w (snd (FeePoolSet k h c w))"
    and "same_validators k w (snd (AfterValidatorCreated k h a w))"
    and "same_validators k w (snd (BeforeDelegationCreated k h d a w))"
    and "same_validators k w (snd (AfterDelegationModified k h d a w))"
    and "same_validators k w (SetRedelegation k h r w)"
    and "same_validators k w (SetUnbondingDelegation k h u w)"
  using assms unfolding distribution_laws_def by blast+

lemma same_validators_refl [simp]: "same_validators k w w"
  by (simp add: same_validators_def)

lemma same_validators_trans: "same_validators k w w1 \<Longrightarrow> same_validators k w1 w2 \<Longrightarrow> same_validators k w w2"
  by (simp add: same_validators_def)

text \<open>Calls that leave the validators alone, whatever they return.\<close>

definition sparing :: "('w, 'x, 'r, 'u, 'c, 'g) keepers \<Rightarrow> ('w, 'a) call \<Rightarrow> bool" where
  "sparing k m \<longleftrightarrow> (\<forall>w r w1. m w = (r, w1) \<longrightarrow> same_validators k w w1)"

lemma sparingI: "(\<And>w r w1. m w = (r, w1) \<Longrightarrow> same_validators k w w1) \<Longrightarrow> sparing k m"
  by (simp add: sparing_def)

lemma sparingD: "sparing k m \<Longrightarrow> m w = (r, w1) \<Longrightarrow> same_validators k w w1"
  unfolding sparing_def by blast

lemma sparing_basic [intro!]:
  "sparing k (return_call x)" "sparing k (lift_sum y)" "sparing k (reading f)"
  "sparing k (\<lambda>w. (Ret (g w), w))"
  by (simp_all add: sparing_def return_call_def lift_sum_def reading_def)

lemma sparing_effect [intro!]: "(\<And>w. same_validators k w (f w)) \<Longrightarrow> sparing k (effect f)"
  by (simp add: sparing_def effect_def)

lemma sparing_lift [intro!]: "(\<And>w. same_validators k w (snd (f w))) \<Longrightarrow> sparing k (lift_world f)"
  by (auto intro!: sparingI simp: lift_world_def split: prod.splits) (metis snd_conv)

lemma sparing_or_panic [intro!]: "sparing k m \<Longrightarrow> sparing k (or_panic m)"
  by (auto intro!: sparingI dest: sparingD simp: or_panic_def split: prod.splits outcome.splits sum.splits)

lemma sparing_bind [intro!]:
  assumes "sparing k m" and "\<And>x. sparing k (f x)"
  shows "sparing k (bind_call m f)"
proof (rule sparingI)
  fix w r w1
  assume run: "bind_call m f w = (r, w1)"
  obtain r0 w0 where m: "m w = (r0, w0)" by fastforce
  have "w1 = w0 \<or> (\<exists>x. f x w0 = (r, w1))"
    using run m by (auto simp: bind_call_def split: outcome.splits sum.splits)
  then show "same_validators k w w1"
    using sparingD [OF assms(1) m] sparingD [OF assms(2)] by (elim disjE exE) (auto intro: same_validators_trans)
qed

lemma sparing_each [intro!]: "(\<And>x. sparing k (f x)) \<Longrightarrow> sparing k (each_call f xs)"
  by (induction xs) auto

lemma delegation_addresses_sparing [intro!]: "sparing k (delegation_addresses k d)"
  unfolding delegation_addresses_def by blast

lemma preparation_sparing:
  assumes "distribution_laws k"
  shows "sparing k (check_allowed k addrs)" and "sparing k (withdraw_all k h)"
    and "sparing k (reinitialize k h dels)" and "sparing k (reset_unbondings k h)"
  unfolding check_allowed_def withdraw_all_def reinitialize_def reset_unbondings_def
  by (auto intro: distribution_lawsD [OF assms])

lemma reset_reached:
  assumes "distribution_laws k" and "prepForZeroHeightGenesis k h allowed w = (Ret (Inr u), w')"
  obtains w0 w1 where "same_validators k w w0"
    "each_call (reset_validator k h allowed) (ValidatorKeysReverse k w0) w0 = (Ret (Inr ()), w1)"
    "(case CloseIterator k w1 of Some err \<Rightarrow> return_call ()
      | None \<Rightarrow> lift_world (ApplyAndReturnValidatorSetUpdates k h)) w1 = (Ret (Inr u), w')"
proof -
  obtain x a dels b y c z w0 w1 where "check_allowed k allowed w = (Ret (Inr x), a)"
    "withdraw_all k h a = (Ret (Inr dels), b)" "reinitialize k 0 dels b = (Ret (Inr y), c)"
    "reset_unbondings k h c = (Ret (Inr z), w0)"
    and rest: "each_call (reset_validator k h allowed) (ValidatorKeysReverse k w0) w0 = (Ret (Inr ()), w1)"
    "(case CloseIterator k w1 of Some err \<Rightarrow> return_call ()
      | None \<Rightarrow> lift_world (ApplyAndReturnValidatorSetUpdates k h)) w1 = (Ret (Inr u), w')"
    using assms(2) by (auto simp: prepForZeroHeightGenesis_def bind_call_Ret_iff reading_def)
  note steps = this(1-4)
  have "same_validators k w w0"
    using preparation_sparing [OF assms(1)] steps by (meson same_validators_trans sparingD)
  then show thesis using rest that by blast
qed

lemma check_allowed_world: "\<exists>r. check_allowed k addrs w = (r, w)"
  by (induction addrs) (auto simp: check_allowed_def bind_call_def lift_sum_def return_call_def split: sum.split)

lemma check_allowed_iff:
  "check_allowed k addrs w = (Ret (Inr u), w1) \<longleftrightarrow>
     w1 = w \<and> list_all (\<lambda>a. \<exists>bs. ValAddressFromBech32 k a = Inr bs) addrs"
  by (induction addrs) (auto simp: check_allowed_def bind_call_Ret_iff call_Ret_iffs)

section \<open>A chain for the witnesses\<close>

text \<open>Its world is a list of the addresses a and b with their validators.\<close>

type_synonym sample_chain = "(bytes \<times> unit validator) list"

definition sample_keepers :: "(sample_chain, unit, unit, unit, unit, unit) keepers" where
  "sample_keepers = \<lparr>
     ValAddressFromBech32 = (\<lambda>s. if s = [] then Inl ''empty address'' else Inr (bytes_of s)),
     AccAddressFromBech32 = (\<lambda>s. Inr (bytes_of s)),
     ValAddressString = (\<lambda>bs. if bs = bytes_of ''a'' then ''a'' else ''b''),
     AddressFromValidatorsKey = (\<lambda>key. key),
     ValidatorStringToBytes = (\<lambda>s. Inr (bytes_of s)),
     Validators = (\<lambda>h w. map snd w),
     GetAllDelegations = (\<lambda>h w. Inr []),
     Redelegations = (\<lambda>h w. []),
     SetRedelegation = (\<lambda>h r w. w),
     UnbondingDelegations = (\<lambda>h w. []),
     SetUnbondingDelegation = (\<lambda>h r w. w),
     ValidatorKeysReverse = (\<lambda>w. rev (map fst w)),
     CloseIterator = (\<lambda>w. None),
     GetValidator = (\<lambda>h a w. case map_of w a of None \<Rightarrow> Inl ''no validator''
       | Some v \<Rightarrow> if bytes_of (Operator v) = a then Inr v else Inl ''bad record''),
     SetValidator = (\<lambda>h v w. map (\<lambda>(a, v'). if a = bytes_of (Operator v) then (a, v) else (a, v')) w),
     ApplyAndReturnValidatorSetUpdates = (\<lambda>h w. (Inr (), w)),
     WithdrawValidatorCommission = (\<lambda>h a w. w),
     WithdrawDelegationRewards = (\<lambda>h a b w. w),
     DeleteAllValidatorSlashEvents = (\<lambda>h w. w),
     DeleteAllValidatorHistoricalRewards = (\<lambda>h w. w),
     GetValidatorOutstandingRewardsCoins = (\<lambda>h a w. Inr ()),
     FeePoolGet = (\<lambda>h w. Inr ()),
     FeePoolSet = (\<lambda>h c w. (Inr (), w)),
     AddCoins = (\<lambda>a b. ()),
     AfterValidatorCreated = (\<lambda>h a w. (Inr (), w)),
     BeforeDelegationCreated = (\<lambda>h a b w. (Inr (), w)),
     AfterDelegationModified = (\<lambda>h a b w. (Inr (), w)),
     LastBlockHeight = (\<lambda>w. 7),
     ExportGenesis = (\<lambda>h w. Inr ()),
     MarshalIndent = (\<lambda>g. Inr [1]),
     WriteValidators = (\<lambda>h w. (None, map fst w))\<rparr>"

lemma map_of_set_validator:
  "map_of (map (\<lambda>(a, v'). if a = key then (a, v) else (a, v')) w) b =
     (if b = key then (case map_of w b of None \<Rightarrow> None | Some _ \<Rightarrow> Some v) else map_of w b)"
  by (induction w) auto

lemma sample_staking_laws: "staking_laws sample_keepers"
  by (auto simp: staking_laws_def sample_keepers_def map_of_set_validator split: option.splits if_splits)

lemma sample_distribution_laws: "distribution_laws sample_keepers"
  by (simp add: distribution_laws_def sample_keepers_def same_validators_def)

definition sample_validator :: "string \<Rightarrow> unit validator" where
  "sample_validator name = \<lparr>Operator = name, UnbondingHeight = 5, Jailed = False, validator_rest = ()\<rparr>"

definition sample_chain :: sample_chain where
  "sample_chain = [(bytes_of ''a'', sample_validator ''a''), (bytes_of ''b'', sample_validator ''b'')]"

section \<open>Properties\<close>

text \<open>
  C30: restarting at height zero. A successful preparation brings every validator whose key is in
  the store to unbonding height 0, and jails it exactly if it was jailed before the preparation,
  or if a list of allowed addresses was given and the validator's address, as it is printed, is
  not on it; nothing else of it changes, and a validator without a key in the store stays as it
  was. Every key of the store belongs to a validator, or the preparation panics. After that only
  the final update of the validator set comes, which is skipped if the iterator cannot be closed.
\<close>

theorem zero_height_validators:
  assumes laws: "staking_laws k" "distribution_laws k"
    and run: "prepForZeroHeightGenesis k h allowed w = (Ret (Inr ()), w')"
  shows "\<exists>w1. (\<forall>b. GetValidator k h b w1 =
      (if b \<in> AddressFromValidatorsKey k ` set (ValidatorKeysReverse k w)
       then map_sum id (restarted k allowed b) (GetValidator k h b w) else GetValidator k h b w)) \<and>
    (\<forall>key \<in> set (ValidatorKeysReverse k w). \<exists>v. GetValidator k h (AddressFromValidatorsKey k key) w = Inr v) \<and>
    (if CloseIterator k w1 = None then ApplyAndReturnValidatorSetUpdates k h w1 = (Inr (), w') else w' = w1)"
proof -
  obtain w0 w1 where same: "same_validators k w w0"
    and reset: "each_call (reset_validator k h allowed) (ValidatorKeysReverse k w0) w0 = (Ret (Inr ()), w1)"
    and final: "(case CloseIterator k w1 of Some err \<Rightarrow> return_call ()
      | None \<Rightarrow> lift_world (ApplyAndReturnValidatorSetUpdates k h)) w1 = (Ret (Inr ()), w')"
    using reset_reached [OF laws(2) run] by blast
  have "if CloseIterator k w1 = None then ApplyAndReturnValidatorSetUpdates k h w1 = (Inr (), w') else w' = w1"
    using final by (auto simp: lift_world_def return_call_def split: option.splits prod.splits)
  then show ?thesis
    using reset_all_reads [OF laws(1) reset] reset_all_found [OF laws(1) reset] same
    unfolding same_validators_def by metis
qed

theorem zero_height_validators_witness:
  "GetValidator sample_keepers 7 (bytes_of ''b'') (snd (prepForZeroHeightGenesis sample_keepers 7 [''a''] sample_chain)) =
    Inr (sample_validator ''b'' \<lparr>UnbondingHeight := 0, Jailed := True\<rparr>) \<and>
   GetValidator sample_keepers 7 (bytes_of ''a'') (snd (prepForZeroHeightGenesis sample_keepers 7 [''a''] sample_chain)) =
    Inr (sample_validator ''a'' \<lparr>UnbondingHeight := 0\<rparr>)"
proof -
  obtain w' where run: "prepForZeroHeightGenesis sample_keepers 7 [''a''] sample_chain = (Ret (Inr ()), w')"
    by (simp add: prepForZeroHeightGenesis_def bind_call_def check_allowed_def withdraw_all_def reinitialize_def
        reset_unbondings_def reset_validator_def sample_keepers_def sample_chain_def sample_validator_def
        reading_def effect_def or_panic_def lift_sum_def lift_world_def return_call_def bytes_of_def Let_def)
  from zero_height_validators [OF sample_staking_laws sample_distribution_laws run]
  obtain w1 where w1: "GetValidator sample_keepers 7 b w1 =
      (if b \<in> AddressFromValidatorsKey sample_keepers ` set (ValidatorKeysReverse sample_keepers sample_chain)
       then map_sum id (restarted sample_keepers [''a''] b) (GetValidator sample_keepers 7 b sample_chain)
       else GetValidator sample_keepers 7 b sample_chain)"
    and "if CloseIterator sample_keepers w1 = None
      then ApplyAndReturnValidatorSetUpdates sample_keepers 7 w1 = (Inr (), w') else w' = w1" for b
    by blast
  then have "w' = w1" by (simp add: sample_keepers_def)
  then show ?thesis
    using w1 [of "bytes_of ''b''"] w1 [of "bytes_of ''a''"] run
    by (simp add: sample_keepers_def sample_chain_def sample_validator_def bytes_of_def restarted_def)
qed

text \<open>
  The list of allowed addresses is checked first. If one of them is no address, the
  preparation ends with an error and nothing has been changed; otherwise that error does not
  occur.
\<close>

theorem allowed_addresses_checked:
  assumes "check_allowed k allowed w = (r, w1)"
  shows "w1 = w \<and> (r = Ret (Inr ()) \<longleftrightarrow> list_all (\<lambda>a. \<exists>bs. ValAddressFromBech32 k a = Inr bs) allowed) \<and>
    (r \<noteq> Ret (Inr ()) \<longrightarrow> (\<exists>err. prepForZeroHeightGenesis k h allowed w = (Ret (Inl err), w)))"
proof -
  have world: "w1 = w" using check_allowed_world [of k allowed w] assms by auto
  moreover have "r = Ret (Inr ()) \<longleftrightarrow> list_all (\<lambda>a. \<exists>bs. ValAddressFromBech32 k a = Inr bs) allowed"
    using check_allowed_iff [of k allowed w "()" w] assms world by auto
  moreover have "\<exists>err. r = Ret (Inl err)" if "r \<noteq> Ret (Inr ())"
  proof -
    have "(\<exists>err. fst (check_allowed k allowed w) = Ret (Inl err)) \<or> fst (check_allowed k allowed w) = Ret (Inr ())"
      by (induction allowed) (auto simp: check_allowed_def bind_call_def lift_sum_def return_call_def split: sum.split)
    then show ?thesis using that assms by auto
  qed
  ultimately show ?thesis
    using assms by (auto simp: prepForZeroHeightGenesis_def bind_call_def)
qed

theorem allowed_addresses_checked_witness:
  "\<exists>err. prepForZeroHeightGenesis sample_keepers 7 [''a'', ''''] sample_chain = (Ret (Inl err), sample_chain)"
proof -
  have "check_allowed sample_keepers [''a'', ''''] sample_chain = (Ret (Inl ''empty address''), sample_chain)"
    by (simp add: check_allowed_def sample_keepers_def bind_call_def lift_sum_def return_call_def)
  then show ?thesis using allowed_addresses_checked by fastforce
qed

text \<open>
  A plain export only reads. Without the restart at height zero an export changes nothing,
  whatever fails; a successful one is for the height after the last block, the one with the
  restart for height zero; and the list of modules to export makes no difference.
\<close>

theorem export_heights:
  "snd (ExportAppStateAndValidators k False allowed modules w) = w \<and>
   ExportAppStateAndValidators k zero allowed modules = ExportAppStateAndValidators k zero allowed modules' \<and>
   (case ExportAppStateAndValidators k zero allowed modules w of
      (Ret (Inr e), _) \<Rightarrow> ExportedHeight e = (if zero then 0 else LastBlockHeight k w + 1)
    | _ \<Rightarrow> True)"
proof (intro conjI)
  show "snd (ExportAppStateAndValidators k False allowed modules w) = w"
    by (auto simp: ExportAppStateAndValidators_def bind_call_def reading_def return_call_def lift_sum_def
        fail_call_def split: prod.splits outcome.splits sum.splits option.splits)
  show "ExportAppStateAndValidators k zero allowed modules = ExportAppStateAndValidators k zero allowed modules'"
    by (simp add: ExportAppStateAndValidators_def)
  have "ExportedHeight e = (if zero then 0 else LastBlockHeight k w + 1)"
    if "ExportAppStateAndValidators k zero allowed modules w = (Ret (Inr e), w')" for e w'
    using that by (auto simp: ExportAppStateAndValidators_def bind_call_Ret_iff reading_def call_Ret_iffs
        split: option.splits prod.splits)
  then show "case ExportAppStateAndValidators k zero allowed modules w of
      (Ret (Inr e), _) \<Rightarrow> ExportedHeight e = (if zero then 0 else LastBlockHeight k w + 1) | _ \<Rightarrow> True"
    by (auto split: prod.split outcome.split sum.split)
qed

end
