(* ===== verification/App_Start.thy ===== *)
theory App_Start imports Db_System Evm_Client App_Export begin

text \<open>
  Starting the application: its flags (\<open>app/params/flags.go\<close>, with the defaults of
  \<open>cmd/scalerized/cmd/commands.go\<close> and \<open>execution/evm/config.go\<close>), the execution client
  (\<open>NewClient\<close> in \<open>app/client.go\<close>, \<open>NewEVMConfig\<close>), the application (\<open>NewScalerizeApp\<close> in
  \<open>app/app.go\<close>), and the two commands that make one (\<open>newApp\<close> and \<open>appExport\<close> in
  \<open>commands.go\<close>). What is outside (the options, dependency injection, the stores of the SDK,
  and the parsers of URLs, durations and big integers, of which nothing is assumed) is the
  record \<open>start_env\<close>. Its field \<open>client_process\<close> is the state the goroutine of
  \<open>executionClient.Start\<close> reaches; that it is a state of \<open>Evm_Client.started\<close> is a hypothesis.
\<close>

section \<open>Flags\<close>

definition FlagExecutionClientType :: string where "FlagExecutionClientType = ''execution-client-type''"
definition FlagExecutionEngineURL :: string where "FlagExecutionEngineURL = ''engine-api-url''"
definition FlagExecutionEngineJWTSecretPath :: string where
  "FlagExecutionEngineJWTSecretPath = ''engine-api-jwtsecret''"
definition FlagRPCURL :: string where "FlagRPCURL = ''eth-rpc-url''"
definition FlagRPCJWTRefreshInterval :: string where "FlagRPCJWTRefreshInterval = ''jwt-refresh-interval''"
definition FlagRPCCheckInterval :: string where "FlagRPCCheckInterval = ''eth-rpc-check-interval''"
definition FlagEthChainID :: string where "FlagEthChainID = ''eth-chain-id''"
definition FlagSocketPath :: string where "FlagSocketPath = ''socket-path''"
definition FlagCometBFTRPCAddress :: string where "FlagCometBFTRPCAddress = ''cometbft-rpc-addr''"

lemmas flag_defs = FlagExecutionClientType_def FlagExecutionEngineURL_def
  FlagExecutionEngineJWTSecretPath_def FlagRPCURL_def FlagRPCJWTRefreshInterval_def
  FlagRPCCheckInterval_def FlagEthChainID_def FlagSocketPath_def FlagCometBFTRPCAddress_def

text \<open>The defaults of the start command; a duration is printed with its unit.\<close>

definition default_flags :: "string \<Rightarrow> string option" where
  "default_flags =
     [FlagExecutionClientType \<mapsto> EVM,
      FlagExecutionEngineURL \<mapsto> ''http://localhost:8551'',
      FlagRPCURL \<mapsto> ''http://localhost:8545'',
      FlagExecutionEngineJWTSecretPath \<mapsto> ''./jwt.hex'',
      FlagRPCCheckInterval \<mapsto> ''3s'',
      FlagRPCJWTRefreshInterval \<mapsto> ''20s'',
      FlagEthChainID \<mapsto> ''80087'',
      FlagSocketPath \<mapsto> ''/tmp/ipc/scalerize.sock'',
      FlagCometBFTRPCAddress \<mapsto> ''http://localhost:26657'']"

section \<open>The execution client\<close>

datatype start_error = InjectError string | InvalidExecutionClientType | DurationError string
  | ChainIDError | UrlError string | JwtError hex_input_error | StreamingError string
  | RegisterError string | LoadError string | HomeNotSet | NotViper | LoadHeightError string
  | ExportError string

record ('ms, 'cs, 'k, 'w) start_env =
  options :: "string \<Rightarrow> string option"
  ParseDuration :: "string \<Rightarrow> string + int"
  big_SetString :: "string \<Rightarrow> int option"
  url_Parse :: "string \<Rightarrow> string + string"
  ReadFile :: "string \<Rightarrow> string + string"
  Inject :: "string option"
  RegisterStreamingServices :: "string option"
  RegisterStores :: "string \<Rightarrow> string option"
  Load :: "bool \<Rightarrow> string + 'ms"
  no_cache :: 'cs
  table_order :: "byte list"
  client_process :: "EVMConfig \<Rightarrow> ('k, 'w) start_state"
  LoadHeight :: "int \<Rightarrow> 'ms \<Rightarrow> string + 'ms"
  FlagHome :: string
  FlagInvCheckPeriod :: string
  DefaultBaseappOptions :: "(string \<Rightarrow> string option) \<Rightarrow> unit option"

text \<open>\<open>appOpts.Get(name).(string)\<close> panics when the option is no string.\<close>

definition with_option :: "('ms, 'cs, 'k, 'w) start_env \<Rightarrow> string \<Rightarrow> (string \<Rightarrow> 'a outcome) \<Rightarrow> 'a outcome" where
  "with_option env name f = (case options env name of None \<Rightarrow> Panic | Some s \<Rightarrow> f s)"

definition NewEVMConfig :: "('ms, 'cs, 'k, 'w) start_env \<Rightarrow> int \<Rightarrow> int \<Rightarrow> int \<Rightarrow> string \<Rightarrow> string \<Rightarrow> string \<Rightarrow>
    start_error + EVMConfig" where
  "NewEVMConfig env chainID refreshInterval checkInterval engineURL url jwtSecretPath =
     (case url_Parse env engineURL of
        Inl err \<Rightarrow> Inl (UrlError err)
      | Inr eu \<Rightarrow>
          (case url_Parse env url of
             Inl err \<Rightarrow> Inl (UrlError err)
           | Inr ru \<Rightarrow>
               (case getJWTFromPath (ReadFile env) jwtSecretPath of
                  Inl err \<Rightarrow> Inl (JwtError err)
                | Inr secret \<Rightarrow>
                    Inr \<lparr>engineAPIURL = eu, rpcURL = ru, jwtSecret = secret,
                      rpcJWTRefreshInterval = refreshInterval, rpcCheckInterval = checkInterval,
                      ethChainID = chainID\<rparr>)))"

text \<open>The table catalogue is installed before the options are read, so it is the result's first part.\<close>

definition NewClient :: "('ms, 'cs, 'k, 'w) start_env \<Rightarrow> ((byte \<rightharpoonup> tableInfo) \<times> (start_error + EVMConfig)) outcome" where
  "NewClient env =
     with_option env FlagExecutionClientType (\<lambda>clientType.
     if clientType \<noteq> EVM then Ret (Map.empty, Inl InvalidExecutionClientType)
     else map_outcome (Pair evm_tables)
       (with_option env FlagExecutionEngineURL (\<lambda>engineURL.
        with_option env FlagRPCURL (\<lambda>url.
        with_option env FlagExecutionEngineJWTSecretPath (\<lambda>jwtSecretPath.
        with_option env FlagRPCJWTRefreshInterval (\<lambda>refresh.
        case ParseDuration env refresh of
          Inl err \<Rightarrow> Ret (Inl (DurationError err))
        | Inr refreshInterval \<Rightarrow>
            with_option env FlagRPCCheckInterval (\<lambda>check.
            case ParseDuration env check of
              Inl err \<Rightarrow> Ret (Inl (DurationError err))
            | Inr checkInterval \<Rightarrow>
                with_option env FlagEthChainID (\<lambda>strEthChainID.
                case big_SetString env strEthChainID of
                  None \<Rightarrow> Ret (Inl ChainIDError)
                | Some chainID \<Rightarrow>
                    Ret (NewEVMConfig env chainID refreshInterval checkInterval engineURL url
                      jwtSecretPath)))))))))"

section \<open>The application\<close>

text \<open>A started application: the client's configuration, the router's process, the store.\<close>

record ('ms, 'cs) started_app =
  evm_config :: EVMConfig
  router :: "('ms, 'cs) system outcome"
  loaded :: 'ms

text \<open>
  The stores of the tables are registered in the order Go's map is ranged over, which is not
  specified (\<open>table_order\<close>); the first error ends the start.
\<close>

fun register_stores :: "(string \<Rightarrow> string option) \<Rightarrow> (byte \<rightharpoonup> tableInfo) \<Rightarrow> byte list \<Rightarrow> string option" where
  "register_stores register tables [] = None"
| "register_stores register tables (code # codes) =
     (case tables code of
        None \<Rightarrow> register_stores register tables codes
      | Some table \<Rightarrow>
          (case register (StoreKey table) of
             Some err \<Rightarrow> Some err
           | None \<Rightarrow> register_stores register tables codes))"

text \<open>
  The last step waits for the client's signal; an error of the client's \<open>Start\<close> is a panic, and
  it is waited for without a limit. In the meantime the router is
  running; that it could listen on its socket is \<open>Router_Socket.listen_db\<close>.
\<close>

definition NewScalerizeApp :: "('ms, 'cs) store_api \<Rightarrow> ('ms, 'cs, 'k, 'w) start_env \<Rightarrow> bool \<Rightarrow>
    (start_error + ('ms, 'cs) started_app) outcome" where
  "NewScalerizeApp api env loadLatest =
     (case Inject env of
        Some err \<Rightarrow> Ret (Inl (InjectError err))
      | None \<Rightarrow>
          with_option env FlagSocketPath (\<lambda>socketPath.
          with_option env FlagCometBFTRPCAddress (\<lambda>cometBFTRPCAddress.
          (case NewClient env of
             Panic \<Rightarrow> Panic
           | Blocked \<Rightarrow> Blocked
           | Ret (tables, Inl err) \<Rightarrow> Ret (Inl err)
           | Ret (tables, Inr config) \<Rightarrow>
               (case RegisterStreamingServices env of
                  Some err \<Rightarrow> Ret (Inl (StreamingError err))
                | None \<Rightarrow>
                    (case register_stores (RegisterStores env) tables (table_order env) of
                       Some err \<Rightarrow> Ret (Inl (RegisterError err))
                     | None \<Rightarrow>
                         (case Load env loadLatest of
                            Inl err \<Rightarrow> Ret (Inl (LoadError err))
                          | Inr ms \<Rightarrow>
                              with_option env FlagExecutionClientType (\<lambda>clientType.
                              if start_state.crashed (client_process env config) then Panic
                              else if \<not> start_state.ready (client_process env config) then Blocked
                              else Ret (Inr \<lparr>evm_config = config,
                                router = StartDBRouter api clientType \<lparr>commitMultiStore = ms,
                                  executionCacheMultistore = no_cache env, executionTablesInfo = tables,
                                  ethIteratorsCurrentKey = Map.empty, rwMutex = unlocked,
                                  ethIteratorsCurrentKeyLock = unlocked\<rparr>,
                                loaded = ms\<rparr>)))))))))"

section \<open>The commands\<close>

text \<open>\<open>DefaultBaseappOptions\<close> of the SDK reads the options first, and panics on some of them.\<close>

definition newApp :: "('ms, 'cs) store_api \<Rightarrow> ('ms, 'cs, 'k, 'w) start_env \<Rightarrow>
    ('ms, 'cs) started_app outcome" where
  "newApp api env =
     (case DefaultBaseappOptions env (options env) of
        None \<Rightarrow> Panic
      | Some baseappOptions \<Rightarrow>
          (case NewScalerizeApp api env True of
             Ret (Inl err) \<Rightarrow> Panic
           | Ret (Inr s) \<Rightarrow> Ret s
           | Panic \<Rightarrow> Panic
           | Blocked \<Rightarrow> Blocked))"

text \<open>
  The export: it reads the home flag of the SDK and overwrites another one of its flags, whose
  names are fields of \<open>start_env\<close>; \<open>is_viper\<close> is the type test of the options. The overwritten option is a number, so
  it is no string any more. The keepers read the state of the loaded store, \<open>check_state\<close>.
\<close>

definition appExport :: "('ms, 'cs) store_api \<Rightarrow> ('ms, 'cs, 'k, 'w) start_env \<Rightarrow> bool \<Rightarrow>
    ('v, 'x, 'r, 'u, 'c, 'g) keepers \<Rightarrow> ('ms \<Rightarrow> 'v) \<Rightarrow> int \<Rightarrow> bool \<Rightarrow> string list \<Rightarrow> string list \<Rightarrow>
    (start_error + ExportedApp) outcome" where
  "appExport api env is_viper k check_state height forZeroHeight jailAllowedAddrs modulesToExport =
     (let export = (\<lambda>ms. map_outcome (map_sum ExportError id)
          (fst (ExportAppStateAndValidators k forZeroHeight jailAllowedAddrs modulesToExport (check_state ms))));
        env' = env\<lparr>options := (options env)(FlagInvCheckPeriod env := None)\<rparr> in
      if options env (FlagHome env) \<in> {None, Some []} then Ret (Inl HomeNotSet)
      else if \<not> is_viper then Ret (Inl NotViper)
      else (case NewScalerizeApp api env' (height = - 1) of
              Panic \<Rightarrow> Panic
            | Blocked \<Rightarrow> Blocked
            | Ret (Inl err) \<Rightarrow> Ret (Inl err)
            | Ret (Inr s) \<Rightarrow>
                if height \<noteq> - 1
                then (case LoadHeight env height (loaded s) of
                        Inl err \<Rightarrow> Ret (Inl (LoadHeightError err))
                      | Inr ms \<Rightarrow> export ms)
                else export (loaded s)))"

section \<open>What a start needs\<close>

lemma with_option_Ret_iff: "with_option env name f = Ret x \<longleftrightarrow> (\<exists>s. options env name = Some s \<and> f s = Ret x)"
  by (auto simp: with_option_def split: option.split)

lemma map_outcome_Ret_iff: "map_outcome f r = Ret y \<longleftrightarrow> (\<exists>x. r = Ret x \<and> y = f x)"
  by (cases r) auto

lemma or_else_iffs:
  "(case x of Inl err \<Rightarrow> Ret (Inl (e err)) | Inr y \<Rightarrow> g y) = Ret (Inr c) \<longleftrightarrow>
     (\<exists>y. x = Inr y \<and> g y = Ret (Inr c))"
  "(case o1 of None \<Rightarrow> Ret (Inl e1) | Some z \<Rightarrow> h z) = Ret (Inr c) \<longleftrightarrow>
     (\<exists>z. o1 = Some z \<and> h z = Ret (Inr c))"
  by (auto split: sum.split option.split)

text \<open>The configuration a start with these options gets, if it gets one.\<close>

definition config_of :: "('ms, 'cs, 'k, 'w) start_env \<Rightarrow> EVMConfig \<Rightarrow> bool" where
  "config_of env c \<longleftrightarrow> (\<exists>engine rpc path refresh check chain.
     options env FlagExecutionEngineURL = Some engine \<and> url_Parse env engine = Inr (engineAPIURL c) \<and>
     options env FlagRPCURL = Some rpc \<and> url_Parse env rpc = Inr (rpcURL c) \<and>
     options env FlagExecutionEngineJWTSecretPath = Some path \<and>
     getJWTFromPath (ReadFile env) path = Inr (jwtSecret c) \<and>
     options env FlagRPCJWTRefreshInterval = Some refresh \<and>
     ParseDuration env refresh = Inr (rpcJWTRefreshInterval c) \<and>
     options env FlagRPCCheckInterval = Some check \<and>
     ParseDuration env check = Inr (rpcCheckInterval c) \<and>
     options env FlagEthChainID = Some chain \<and> big_SetString env chain = Some (ethChainID c))"

lemma NewEVMConfig_iff: "NewEVMConfig env chain refresh check engine rpc path = Inr c \<longleftrightarrow>
    url_Parse env engine = Inr (engineAPIURL c) \<and> url_Parse env rpc = Inr (rpcURL c) \<and>
    getJWTFromPath (ReadFile env) path = Inr (jwtSecret c) \<and>
    rpcJWTRefreshInterval c = refresh \<and> rpcCheckInterval c = check \<and> ethChainID c = chain"
  by (cases c) (auto simp: NewEVMConfig_def split: sum.splits)

lemma NewClient_Inr_iff: "NewClient env = Ret (tables, Inr c) \<longleftrightarrow>
    options env FlagExecutionClientType = Some EVM \<and> tables = evm_tables \<and> config_of env c"
  by (auto simp: NewClient_def with_option_Ret_iff map_outcome_Ret_iff config_of_def
      NewEVMConfig_iff or_else_iffs split: if_splits)

lemma register_stores_None_iff: "register_stores register tables codes = None \<longleftrightarrow>
    (\<forall>code table. code \<in> set codes \<longrightarrow> tables code = Some table \<longrightarrow> register (StoreKey table) = None)"
  by (induction codes) (auto split: option.split)

lemma NewScalerizeApp_Inr_iff: "NewScalerizeApp api env ll = Ret (Inr s) \<longleftrightarrow>
    Inject env = None \<and> options env FlagSocketPath \<noteq> None \<and> options env FlagCometBFTRPCAddress \<noteq> None \<and>
    options env FlagExecutionClientType = Some EVM \<and> config_of env (evm_config s) \<and>
    RegisterStreamingServices env = None \<and>
    register_stores (RegisterStores env) evm_tables (table_order env) = None \<and>
    Load env ll = Inr (loaded s) \<and>
    \<not> start_state.crashed (client_process env (evm_config s)) \<and>
    start_state.ready (client_process env (evm_config s)) \<and>
    router s = StartDBRouter api EVM \<lparr>commitMultiStore = loaded s,
      executionCacheMultistore = no_cache env, executionTablesInfo = evm_tables,
      ethIteratorsCurrentKey = Map.empty, rwMutex = unlocked, ethIteratorsCurrentKeyLock = unlocked\<rparr>"
  (is "?l = ?r")
proof
  assume ?l
  then show ?r
    by (auto simp: NewScalerizeApp_def with_option_Ret_iff NewClient_Inr_iff
        split: option.splits outcome.splits prod.splits sum.splits if_splits)
next
  assume r: ?r
  then have c: "NewClient env = Ret (evm_tables, Inr (evm_config s))" by (simp add: NewClient_Inr_iff)
  show ?l using r
    by (cases s) (auto simp: NewScalerizeApp_def with_option_def c [simplified])
qed

section \<open>A started application\<close>

text \<open>
  C11: When \<open>NewScalerizeApp\<close> returns an application, its client is the EVM client with both
  connections set up (the RPC one to a network of the configured chain), its database router
  has started over the tables of the EVM, and every behaviour of that router keeps these tables
  and its locks: they are free, or a request waits forever. The client's process is a run of
  \<open>Start\<close>; nothing else is assumed of what is outside.
\<close>

theorem started_app_sound:
  assumes "NewScalerizeApp api env loadLatest = Ret (Inr s)"
    and "started dial (evm_config s) w (client_process env (evm_config s))"
  shows "(\<exists>sys. router s = Ret sys \<and> (\<forall>es sys'. system_run api sys es sys' \<longrightarrow>
      executionTablesInfo (shared sys') = evm_tables \<and>
      (if waiting (conns sys') then stuck (shared sys')
       else system.crashed sys' \<or> locks_free (shared sys')))) \<and>
    engineClient (client (client_process env (evm_config s))) \<noteq> None \<and>
    (\<exists>k v. rpcClient (client (client_process env (evm_config s))) = Some k \<and>
      fst (NetworkID dial k v) = Inr (ethChainID (evm_config s)))"
proof (intro conjI)
  note start = assms(1) [unfolded NewScalerizeApp_Inr_iff]
  let ?a = "\<lparr>commitMultiStore = loaded s, executionCacheMultistore = no_cache env,
    executionTablesInfo = evm_tables, ethIteratorsCurrentKey = Map.empty, rwMutex = unlocked,
    ethIteratorsCurrentKeyLock = unlocked\<rparr>"
  have r: "router s = StartDBRouter api EVM ?a" using start by blast
  then obtain sys where sys: "router s = Ret sys" "StartDBRouter api EVM ?a = Ret sys"
    by (simp add: StartDBRouter_def)
  have "locks_free ?a" by (simp add: locks_free_def)
  then have "system_inv evm_tables sys" using system_inv_start [OF sys(2)] by simp
  then have "system_inv evm_tables sys'" if "system_run api sys es sys'" for es sys'
    using that \<open>system_inv evm_tables sys\<close> by (blast intro: system_inv_run evm_tables_at(1))
  then show "\<exists>sys. router s = Ret sys \<and> (\<forall>es sys'. system_run api sys es sys' \<longrightarrow>
      executionTablesInfo (shared sys') = evm_tables \<and>
      (if waiting (conns sys') then stuck (shared sys')
       else system.crashed sys' \<or> locks_free (shared sys')))"
    using sys(1) unfolding system_inv_def by blast
  show "engineClient (client (client_process env (evm_config s))) \<noteq> None"
    and "\<exists>k v. rpcClient (client (client_process env (evm_config s))) = Some k \<and>
      fst (NetworkID dial k v) = Inr (ethChainID (evm_config s))"
    using start_inv_started [OF assms(2)] start by (auto simp: start_inv_def)
qed

text \<open>A start with the default flags, where the services answer.\<close>

definition sample_started :: "(unit, call_log) start_state" where
  "sample_started = \<lparr>client = \<lparr>engineClient = Some (), rpcClient = Some ()\<rparr>, network = [],
     engine_done = True, rpc_done = True, ready = True, crashed = False\<rparr>"

definition sample_env :: "(journal, journal, unit, call_log) start_env" where
  "sample_env = \<lparr>options = default_flags(''home'' \<mapsto> ''/root''),
     ParseDuration = (\<lambda>d. if d = ''20s'' then Inr 20 else if d = ''3s'' then Inr 3 else Inl d),
     big_SetString = (\<lambda>n. Some 80087), url_Parse = Inr, ReadFile = (\<lambda>_. Inr []), Inject = None,
     RegisterStreamingServices = None, RegisterStores = (\<lambda>_. None),
     Load = (\<lambda>_. Inr sample_journal), no_cache = [], table_order = [1, 0],
     client_process = (\<lambda>_. sample_started), LoadHeight = (\<lambda>h ms. Inr ms),
     FlagHome = ''home'', FlagInvCheckPeriod = ''inv-check-period'', DefaultBaseappOptions = (\<lambda>_. Some ())\<rparr>"

lemma default_flags_at:
  "default_flags FlagExecutionClientType = Some EVM"
  "default_flags FlagExecutionEngineURL = Some ''http://localhost:8551''"
  "default_flags FlagRPCURL = Some ''http://localhost:8545''"
  "default_flags FlagExecutionEngineJWTSecretPath = Some ''./jwt.hex''"
  "default_flags FlagRPCCheckInterval = Some ''3s''"
  "default_flags FlagRPCJWTRefreshInterval = Some ''20s''"
  "default_flags FlagEthChainID = Some ''80087''"
  "default_flags FlagSocketPath = Some ''/tmp/ipc/scalerize.sock''"
  "default_flags FlagCometBFTRPCAddress = Some ''http://localhost:26657''"
  by (simp_all add: default_flags_def flag_defs)

lemma home_flag: "''home'' \<notin> dom default_flags"
  by (simp add: default_flags_def flag_defs)

lemma sample_options: "options sample_env ''home'' = Some ''/root''"
  "name \<in> dom default_flags \<Longrightarrow> options sample_env name = default_flags name"
  using home_flag by (auto simp: sample_env_def)

lemmas sample_flags = default_flags_at sample_options(2) [OF domI] sample_options(1)

lemma sample_secret: "getJWTFromPath (\<lambda>_. Inr []) path = Inr (replicate 32 0)"
  by (simp add: getJWTFromPath_def TrimSpace_def TrimPrefix_def)

lemma sample_config_of: "config_of sample_env sample_config"
  by (simp add: config_of_def sample_flags) (simp add: sample_env_def sample_config_def sample_secret)

lemma tick_steps:
  assumes "0 < rpcCheckInterval config" and "\<not> start_state.crashed s"
  shows "\<not> engine_done s \<Longrightarrow> connect api config engine_client (client s, network s) = (Ret (Inr ()), cl, w) \<Longrightarrow>
      start_step api config s (s\<lparr>client := cl, network := w, engine_done := True\<rparr>)"
    and "\<not> rpc_done s \<Longrightarrow> connect api config rpc_client (client s, network s) = (Ret (Inr ()), cl, w) \<Longrightarrow>
      start_step api config s (s\<lparr>client := cl, network := w, rpc_done := True\<rparr>)"
proof -
  have state: "(attempted (Ret (Inr ()), cl, w) s)\<lparr>engine_done := True\<rparr> =
      s\<lparr>client := cl, network := w, engine_done := True\<rparr>"
    "(attempted (Ret (Inr ()), cl, w) s)\<lparr>rpc_done := True\<rparr> =
      s\<lparr>client := cl, network := w, rpc_done := True\<rparr>"
    "succeeded (Ret (Inr ()), cl, w)"
    using assms(2) by (simp_all add: attempted_def succeeded_def)
  show "start_step api config s (s\<lparr>client := cl, network := w, engine_done := True\<rparr>)"
    if "\<not> engine_done s" and "connect api config engine_client (client s, network s) = (Ret (Inr ()), cl, w)"
    using start_step.engine_tick [OF assms that(1) that(2) [symmetric]] state by simp
  show "start_step api config s (s\<lparr>client := cl, network := w, rpc_done := True\<rparr>)"
    if "\<not> rpc_done s" and "connect api config rpc_client (client s, network s) = (Ret (Inr ()), cl, w)"
    using start_step.rpc_tick [OF assms that(1) that(2) [symmetric]] state by simp
qed

lemma sample_run: "started sample_dial sample_config [] sample_started"
proof -
  let ?cl = "\<lparr>engineClient = Some (), rpcClient = None\<rparr>"
  let ?engine = "(start_client [])\<lparr>client := ?cl, network := [], engine_done := True\<rparr>"
  let ?both = "?engine\<lparr>client := \<lparr>engineClient = Some (), rpcClient = Some ()\<rparr>, network := [], rpc_done := True\<rparr>"
  have interval: "0 < rpcCheckInterval sample_config" by (simp add: sample_config_def)
  have "start_step sample_dial sample_config (start_client []) ?engine"
    by (rule tick_steps(1) [OF interval]) (simp_all add: start_client_def sample_connects NewEVMClient_def)
  moreover have "start_step sample_dial sample_config ?engine ?both"
    by (rule tick_steps(2) [OF interval]) (simp_all add: start_client_def sample_connects)
  moreover have "start_step sample_dial sample_config ?both (?both\<lparr>ready := True\<rparr>)"
    by (rule start_step.signal) (simp_all add: start_client_def)
  moreover have "?both\<lparr>ready := True\<rparr> = sample_started"
    by (simp add: start_client_def sample_started_def)
  ultimately show ?thesis by (metis (no_types) started.start started.step)
qed

lemma sample_starts: "\<exists>s. NewScalerizeApp journal_api sample_env loadLatest = Ret (Inr s) \<and>
    evm_config s = sample_config \<and> loaded s = sample_journal"
proof -
  let ?s = "\<lparr>evm_config = sample_config, router = StartDBRouter journal_api EVM \<lparr>commitMultiStore = sample_journal,
      executionCacheMultistore = [], executionTablesInfo = evm_tables,
      ethIteratorsCurrentKey = Map.empty, rwMutex = unlocked, ethIteratorsCurrentKeyLock = unlocked\<rparr>,
    loaded = sample_journal\<rparr>"
  have "NewScalerizeApp journal_api sample_env loadLatest = Ret (Inr ?s)"
    using sample_config_of unfolding NewScalerizeApp_Inr_iff register_stores_None_iff
    by (simp add: sample_flags) (simp add: sample_env_def sample_started_def)
  then show ?thesis by fastforce
qed

theorem started_app_sound_witness:
  "\<exists>s sys. NewScalerizeApp journal_api sample_env True = Ret (Inr s) \<and> router s = Ret sys \<and>
    executionTablesInfo (shared sys) = evm_tables"
proof -
  obtain s where s: "NewScalerizeApp journal_api sample_env True = Ret (Inr s)" "evm_config s = sample_config"
    using sample_starts by blast
  have "started sample_dial (evm_config s) [] (client_process sample_env (evm_config s))"
    using sample_run s(2) by (simp add: sample_env_def)
  from started_app_sound [OF s(1) this] show ?thesis using s(1) run_Nil by blast
qed

end
