(* ===== verification/Cmd_Root.thy ===== *)
theory Cmd_Root imports Cmd_Flags App_Start begin

text \<open>
  The command tree of the program (\<open>cmd/scalerized/cmd/commands.go\<close>, \<open>NewTestnetCmd\<close> in
  \<open>client/testnet.go\<close>) and its start (\<open>main.go\<close>, \<open>cmd/root.go\<close>, the \<open>init\<close> of
  \<open>app/app.go\<close>). A command is data: its names, its flags, what runs, and the commands below it.
  The commands of the SDK are the record \<open>sdk_commands\<close>. \<open>server.AddCommands\<close> is
  \<open>AddCommands\<close> there: it gets the function that adds flags to the start command, and what the
  code relies on is \<open>adds_start\<close>.
\<close>

section \<open>Commands\<close>

datatype run = NoRun | ValidateCmd | RunInitFiles | RunTestnetStart | RunExternal string

datatype command = Command (Use: string) (Aliases: "string list") (DisableFlagParsing: bool)
  (Flags: flags) (PersistentFlags: flags) (RunE: run) (Commands: "command list")

definition AddCommand :: "command list \<Rightarrow> command \<Rightarrow> command" where
  "AddCommand new c = Command (Use c) (Aliases c) (DisableFlagParsing c) (Flags c) (PersistentFlags c)
     (RunE c) (Commands c @ new)"

definition add_persistent :: "flags \<Rightarrow> command \<Rightarrow> command" where
  "add_persistent fs c = Command (Use c) (Aliases c) (DisableFlagParsing c) (Flags c) (PersistentFlags c @ fs)
     (RunE c) (Commands c)"

record ('tc, 'm) sdk_commands =
  InitCmd :: "'m \<Rightarrow> string \<Rightarrow> command"
  debug_Cmd :: command
  ConfigCommand :: command
  pruning_Cmd :: "string \<Rightarrow> command"
  snapshot_Cmd :: command
  AddCommands :: "string \<Rightarrow> (command \<Rightarrow> command) \<Rightarrow> command list"
  StatusCommand :: command
  genutil_Commands :: "'tc \<Rightarrow> 'm \<Rightarrow> string \<Rightarrow> command"
  keys_Commands :: command
  ValidatorCommand :: command
  QueryBlockCmd :: command
  QueryTxsByEventsCmd :: command
  QueryBlocksCmd :: command
  QueryTxCmd :: command
  QueryBlockResultsCmd :: command
  GetSignCommand :: command
  GetSignBatchCommand :: command
  GetMultiSignCommand :: command
  GetMultiSignBatchCmd :: command
  GetValidateSignaturesCommand :: command
  GetBroadcastCommand :: command
  GetEncodeCommand :: command
  GetDecodeCommand :: command
  GetSimulateCmd :: command

section \<open>The commands of the program\<close>

definition DefaultEngineAPIURL :: string where "DefaultEngineAPIURL = ''http://localhost:8551''"
definition DefaultRPCURL :: string where "DefaultRPCURL = ''http://localhost:8545''"
definition DefaultRPCJWTRefreshInterval :: nat where "DefaultRPCJWTRefreshInterval = 20"
definition DefaultJWTSecretPath :: string where "DefaultJWTSecretPath = ''./jwt.hex''"
definition DefaultRPCCheckInterval :: nat where "DefaultRPCCheckInterval = 3"
definition DefaultEthChainID :: string where "DefaultEthChainID = ''80087''"
definition DefaultSocketPath :: string where "DefaultSocketPath = ''/tmp/ipc/scalerize.sock''"
definition DefaultCometBFTRPCAddress :: string where "DefaultCometBFTRPCAddress = ''http://localhost:26657''"

text \<open>The text of a duration of less than a minute that is a whole number of seconds.\<close>

definition seconds_String :: "nat \<Rightarrow> string" where "seconds_String n = decimal n @ ''s''"

definition start_flags :: flags where
  "start_flags =
     [(FlagExecutionClientType, StringFlag EVM), (FlagExecutionEngineURL, StringFlag DefaultEngineAPIURL),
      (FlagRPCURL, StringFlag DefaultRPCURL), (FlagExecutionEngineJWTSecretPath, StringFlag DefaultJWTSecretPath),
      (FlagRPCCheckInterval, StringFlag (seconds_String DefaultRPCCheckInterval)),
      (FlagRPCJWTRefreshInterval, StringFlag (seconds_String DefaultRPCJWTRefreshInterval)),
      (FlagEthChainID, StringFlag DefaultEthChainID), (FlagSocketPath, StringFlag DefaultSocketPath),
      (FlagCometBFTRPCAddress, StringFlag DefaultCometBFTRPCAddress)]"

definition queryCommand :: "('tc, 'm) sdk_commands \<Rightarrow> command" where
  "queryCommand sdk = AddCommand
     [ValidatorCommand sdk, QueryBlockCmd sdk, QueryTxsByEventsCmd sdk,
      QueryBlocksCmd sdk, QueryTxCmd sdk, QueryBlockResultsCmd sdk]
     (Command ''query'' [''q''] False [] [] ValidateCmd [])"

definition txCommand :: "('tc, 'm) sdk_commands \<Rightarrow> command" where
  "txCommand sdk = AddCommand
     [GetSignCommand sdk, GetSignBatchCommand sdk, GetMultiSignCommand sdk, GetMultiSignBatchCmd sdk,
      GetValidateSignaturesCommand sdk, GetBroadcastCommand sdk, GetEncodeCommand sdk,
      GetDecodeCommand sdk, GetSimulateCmd sdk]
     (Command ''tx'' [] False [] [] ValidateCmd [])"

definition testnetStartCmd :: "sdk_names \<Rightarrow> command" where
  "testnetStartCmd names = Command ''start'' [] False (testnet_start_flags names) [] RunTestnetStart []"

definition testnetInitFilesCmd :: "sdk_names \<Rightarrow> command" where
  "testnetInitFilesCmd names = Command ''init-files'' [] False (init_files_flags names) [] RunInitFiles []"

definition NewTestnetCmd :: "sdk_names \<Rightarrow> command" where
  "NewTestnetCmd names = AddCommand [testnetInitFilesCmd names]
     (AddCommand [testnetStartCmd names] (Command ''testnet'' [] True [] [] ValidateCmd []))"

text \<open>The commands \<open>initRootCmd\<close> adds, in its order.\<close>

definition root_commands :: "('tc, 'm) sdk_commands \<Rightarrow> sdk_names \<Rightarrow> string \<Rightarrow> 'tc \<Rightarrow> 'm \<Rightarrow> command \<Rightarrow> command" where
  "root_commands sdk names home txConfig basicManager rootCmd =
     AddCommand
       [StatusCommand sdk, genutil_Commands sdk txConfig basicManager home, NewTestnetCmd names,
        queryCommand sdk, txCommand sdk, keys_Commands sdk]
     (AddCommand (AddCommands sdk home (add_persistent start_flags))
     (AddCommand
       [InitCmd sdk basicManager home, debug_Cmd sdk, ConfigCommand sdk, pruning_Cmd sdk home, snapshot_Cmd sdk]
     rootCmd))"

definition scalerized_Cmd :: command where
  "scalerized_Cmd = Command ''scalerized'' [] False [] [] NoRun []"

section \<open>Finding a command and its flags\<close>

text \<open>Cobra takes the first command with the name or alias; it has its own flags, and the
  persistent ones of all the commands above it.\<close>

definition answers :: "string \<Rightarrow> command \<Rightarrow> bool" where
  "answers name c \<longleftrightarrow> Use c = name \<or> name \<in> set (Aliases c)"

fun command_at :: "flags \<Rightarrow> command \<Rightarrow> string list \<Rightarrow> (command \<times> flags) option" where
  "command_at up c [] = Some (c, up @ PersistentFlags c @ Flags c)"
| "command_at up c (name # names) =
     (case find (answers name) (Commands c) of
        None \<Rightarrow> None
      | Some d \<Rightarrow> command_at (up @ PersistentFlags c) d names)"

fun declares :: "string \<Rightarrow> command \<Rightarrow> bool" where
  "declares name (Command u as d fs ps r cs) \<longleftrightarrow>
     name \<in> fst ` set (ps @ fs) \<or> (\<exists>c \<in> set cs. declares name c)"

lemma declares_iff: "declares name c \<longleftrightarrow>
    name \<in> fst ` set (PersistentFlags c @ Flags c) \<or> (\<exists>d \<in> set (Commands c). declares name d)"
  by (cases c) simp

lemma command_at_declares:
  "command_at up c path = Some (d, fs) \<Longrightarrow> \<not> declares name c \<Longrightarrow> name \<notin> fst ` set up \<Longrightarrow>
     name \<notin> fst ` set fs"
proof (induction path arbitrary: up c)
  case Nil
  then have "fs = up @ PersistentFlags c @ Flags c" by auto
  then show ?case using Nil.prems(2,3) by (simp add: declares_iff [of name c] image_Un)
next
  case (Cons n path)
  then obtain e where e: "find (answers n) (Commands c) = Some e"
    "command_at (up @ PersistentFlags c) e path = Some (d, fs)"
    by (auto split: option.splits)
  then have "e \<in> set (Commands c)" by (auto simp: find_Some_iff)
  then have "\<not> declares name e" "name \<notin> fst ` set (up @ PersistentFlags c)"
    using Cons.prems(2,3) by (simp_all add: declares_iff [of name c] image_Un)
  then show ?case using Cons.IH [OF e(2)] by blast
qed

lemma AddCommand_simps [simp]:
  "Use (AddCommand new c) = Use c" "Aliases (AddCommand new c) = Aliases c"
  "Flags (AddCommand new c) = Flags c" "PersistentFlags (AddCommand new c) = PersistentFlags c"
  "Commands (AddCommand new c) = Commands c @ new"
  by (simp_all add: AddCommand_def)

lemma add_persistent_simps [simp]:
  "Use (add_persistent fs c) = Use c" "Aliases (add_persistent fs c) = Aliases c"
  "Flags (add_persistent fs c) = Flags c" "PersistentFlags (add_persistent fs c) = PersistentFlags c @ fs"
  "Commands (add_persistent fs c) = Commands c"
  by (simp_all add: add_persistent_def)

lemma answers_add_persistent: "answers n (add_persistent fs c) = answers n c"
  by (simp add: answers_def)

lemma find_answers: "find (answers n) cs = Some c \<Longrightarrow> answers n c"
  by (auto simp: find_Some_iff)

text \<open>
  What is relied on: \<open>server.AddCommands\<close> applies the function to the start command and adds it
  with others, and no command of the SDK has a flag of this name or answers to \<open>start\<close>.
\<close>

definition adds_start :: "('tc, 'm) sdk_commands \<Rightarrow> string \<Rightarrow> command \<Rightarrow> command list \<Rightarrow> bool" where
  "adds_start sdk home start others \<longleftrightarrow> answers ''start'' start \<and>
     (\<forall>f. AddCommands sdk home f = f start # others)"

definition sdk_trees :: "('tc, 'm) sdk_commands \<Rightarrow> string \<Rightarrow> 'tc \<Rightarrow> 'm \<Rightarrow> command list \<Rightarrow> command list" where
  "sdk_trees sdk home tc m others =
     [InitCmd sdk m home, debug_Cmd sdk, ConfigCommand sdk, pruning_Cmd sdk home, snapshot_Cmd sdk,
      StatusCommand sdk, genutil_Commands sdk tc m home, keys_Commands sdk] @ others @
     Commands (queryCommand sdk) @ Commands (txCommand sdk)"

lemma root_Commands:
  assumes "adds_start sdk home start others"
  shows "Commands (root_commands sdk names home tc m scalerized_Cmd) =
     [InitCmd sdk m home, debug_Cmd sdk, ConfigCommand sdk, pruning_Cmd sdk home, snapshot_Cmd sdk] @
     add_persistent start_flags start # others @
     [StatusCommand sdk, genutil_Commands sdk tc m home, NewTestnetCmd names, queryCommand sdk,
      txCommand sdk, keys_Commands sdk]"
    and "PersistentFlags (root_commands sdk names home tc m scalerized_Cmd) = []"
    and "Flags (root_commands sdk names home tc m scalerized_Cmd) = []"
  using assms by (simp_all add: root_commands_def scalerized_Cmd_def adds_start_def)


lemma own_commands_declare:
  assumes "list_all (\<lambda>c. \<not> declares name c) (sdk_trees sdk home tc m others)"
    and "name \<notin> fst ` set (init_files_flags names @ testnet_start_flags names)"
    and "adds_start sdk home start others"
    and "c \<in> set (Commands (root_commands sdk names home tc m scalerized_Cmd))"
    and "c \<noteq> add_persistent start_flags start"
  shows "\<not> declares name c"
proof -
  have "\<not> declares name (NewTestnetCmd names)"
    using assms(2) by (auto simp: NewTestnetCmd_def AddCommand_def testnetInitFilesCmd_def testnetStartCmd_def)
  moreover have "\<not> declares name (queryCommand sdk)"
    using assms(1) by (simp add: sdk_trees_def declares_iff [of name "queryCommand sdk"] list_all_iff)
      (simp add: queryCommand_def)
  moreover have "\<not> declares name (txCommand sdk)"
    using assms(1) by (simp add: sdk_trees_def declares_iff [of name "txCommand sdk"] list_all_iff)
      (simp add: txCommand_def)
  ultimately show ?thesis
    using assms(1,4,5) by (auto simp: root_Commands [OF assms(3)] sdk_trees_def list_all_iff)
qed


text \<open>What is relied on, in one name.\<close>

definition sdk_apart :: "('tc, 'm) sdk_commands \<Rightarrow> sdk_names \<Rightarrow> string \<Rightarrow> 'tc \<Rightarrow> 'm \<Rightarrow> command \<Rightarrow> command list \<Rightarrow> bool" where
  "sdk_apart sdk names home tc m start others \<longleftrightarrow> adds_start sdk home start others \<and>
     list_all (\<lambda>c. \<not> answers ''start'' c)
       [InitCmd sdk m home, debug_Cmd sdk, ConfigCommand sdk, pruning_Cmd sdk home, snapshot_Cmd sdk] \<and>
     list_all (\<lambda>c. \<not> declares FlagSocketPath c) (sdk_trees sdk home tc m others) \<and>
     FlagSocketPath \<notin> {FlagChainID names, FlagMinGasPrices names, FlagKeyAlgorithm names, FlagKeyringBackend names}"

lemma testnet_no_socket:
  "FlagSocketPath \<notin> {FlagChainID names, FlagMinGasPrices names, FlagKeyAlgorithm names, FlagKeyringBackend names} \<Longrightarrow>
     FlagSocketPath \<notin> fst ` set (init_files_flags names @ testnet_start_flags names)"
  by (auto simp: init_files_flags_def testnet_start_flags_def addTestnetFlagsToCmd_def testnet_flag_defs
      FlagSocketPath_def)

text \<open>The first step from the root: the start command, or one without the flag.\<close>

lemma root_step:
  assumes "sdk_apart sdk names home tc m start others"
    and "command_at [] (root_commands sdk names home tc m scalerized_Cmd) path = Some (c, fs)"
  shows "FlagSocketPath \<notin> fst ` set fs \<or> (path \<noteq> [] \<and>
    find (answers (hd path)) (Commands (root_commands sdk names home tc m scalerized_Cmd)) =
      Some (add_persistent start_flags start))"
proof (cases path)
  case Nil
  then show ?thesis using assms by (auto simp: sdk_apart_def root_Commands)
next
  case (Cons n ns)
  note adds = assms(1) [unfolded sdk_apart_def, THEN conjunct1]
  obtain d where d: "find (answers n) (Commands (root_commands sdk names home tc m scalerized_Cmd)) = Some d"
    "command_at [] d ns = Some (c, fs)"
    using assms(2) Cons by (auto simp: root_Commands [OF adds] split: option.splits)
  then have "d \<in> set (Commands (root_commands sdk names home tc m scalerized_Cmd))"
    by (auto simp: find_Some_iff)
  then have "\<not> declares FlagSocketPath d" if "d \<noteq> add_persistent start_flags start"
    using assms(1) that testnet_no_socket [of names]
    by (intro own_commands_declare [OF _ _ adds]) (auto simp: sdk_apart_def)
  then show ?thesis using command_at_declares [OF d(2), of FlagSocketPath] d(1) Cons by auto
qed

lemma start_flags_at:
  assumes "sdk_apart sdk names home tc m start others"
    and "command_at [] (root_commands sdk names home tc m scalerized_Cmd) [''start''] = Some (c, fs)"
  shows "set start_flags \<subseteq> set fs"
proof -
  note apart = assms(1) [unfolded sdk_apart_def]
  have "find (answers ''start'') (Commands (root_commands sdk names home tc m scalerized_Cmd)) =
      Some (add_persistent start_flags start)"
    using apart by (simp add: root_Commands(1) [OF apart [THEN conjunct1]] adds_start_def answers_def)
  with assms(2) show ?thesis by (auto simp: root_Commands [OF apart [THEN conjunct1]])
qed

lemma start_flags_defaults: "default_flags name = Some d \<Longrightarrow> (name, StringFlag d) \<in> set start_flags"
  by (auto simp: default_flags_def start_flags_def seconds_String_def decimal_small decimal_digit_def
      DefaultEngineAPIURL_def DefaultRPCURL_def DefaultRPCJWTRefreshInterval_def DefaultJWTSecretPath_def
      DefaultRPCCheckInterval_def DefaultEthChainID_def DefaultSocketPath_def DefaultCometBFTRPCAddress_def
      split: if_splits)

section \<open>Properties\<close>

text \<open>The options of a command when no configuration file or environment variable sets them.\<close>

definition flag_options :: "flags \<Rightarrow> given_flags \<Rightarrow> string \<Rightarrow> string option" where
  "flag_options fs given name =
     (case flag_lookup fs given name of Some (StringFlag s) \<Rightarrow> Some s | _ \<Rightarrow> None)"

text \<open>
  C21: which commands can make an application. From the flags alone, the options of the start
  command are the documented defaults and what the command line gives instead. Every command
  that is not under the start command has no socket path among its options, so making the
  application panics: \<open>newApp\<close> of the pruning and the snapshot commands always, and the export
  never returns a state.
\<close>

theorem only_start_makes_an_app:
  assumes "sdk_apart sdk names home tc m start others"
    and "command_at [] (root_commands sdk names home tc m scalerized_Cmd) path = Some (c, fs)"
    and "parsed fs given" and "options env = flag_options fs given"
  shows "(path = [''start''] \<longrightarrow>
      list_all (\<lambda>name. options env name = Some (string_of given name (the (default_flags name))))
        (map fst start_flags)) \<and>
    (path = [] \<or> \<not> answers (hd path) start \<longrightarrow>
      newApp api env = Panic \<and>
      appExport api env is_viper k check_state height forZeroHeight jailAllowedAddrs modulesToExport \<noteq> Ret (Inr x))"
proof (intro conjI impI)
  assume start: "path = [''start'']"
  have "options env name = Some (string_of given name (the (default_flags name)))" if n: "name \<in> fst ` set start_flags" for name
  proof -
    obtain d where d: "default_flags name = Some d"
      using n by (auto simp: start_flags_def default_flags_at)
    then have "(name, StringFlag d) \<in> set fs"
      using start_flags_defaults start_flags_at [OF assms(1) assms(2) [unfolded start]] by blast
    note this parsed_lookup [OF assms(3) this]
    then show ?thesis
      by (cases "given name") (auto simp: assms(4) flag_options_def string_of_def d same_kind_simps)
  qed
  then show "list_all (\<lambda>name. options env name = Some (string_of given name (the (default_flags name))))
      (map fst start_flags)" by (auto simp: list_all_iff)
next
  assume "path = [] \<or> \<not> answers (hd path) start"
  then have "FlagSocketPath \<notin> fst ` set fs"
    using root_step [OF assms(1,2)] find_answers by (metis answers_add_persistent)
  then have none: "options env FlagSocketPath = None"
    by (simp add: assms(4) flag_options_def flag_lookup_def map_of_eq_None_iff [THEN iffD2])
  then have exporting: "((options env)(FlagInvCheckPeriod env := None)) FlagSocketPath = None" by simp
  show "newApp api env = Panic"
    using none by (auto simp: newApp_def NewScalerizeApp_def with_option_def split: option.split)
  show "appExport api env is_viper k check_state height forZeroHeight jailAllowedAddrs modulesToExport \<noteq> Ret (Inr x)"
    using exporting by (auto simp: appExport_def Let_def NewScalerizeApp_def with_option_def split: option.split)
qed


text \<open>Commands of an SDK: each has a name and a home flag.\<close>

definition named :: "string \<Rightarrow> command" where
  "named name = Command name [] False [(''home'', StringFlag ''/root'')] [] (RunExternal name) []"

definition sample_commands :: "('tc, 'm) sdk_commands" where
  "sample_commands = \<lparr>InitCmd = (\<lambda>_ _. named ''init''), debug_Cmd = named ''debug'',
     ConfigCommand = named ''config'', pruning_Cmd = (\<lambda>_. named ''prune''), snapshot_Cmd = named ''snapshots'',
     AddCommands = (\<lambda>_ f. [f (named ''start''), named ''export'']), StatusCommand = named ''status'',
     genutil_Commands = (\<lambda>_ _ _. named ''genesis''), keys_Commands = named ''keys'',
     ValidatorCommand = named [], QueryBlockCmd = named [], QueryTxsByEventsCmd = named [],
     QueryBlocksCmd = named [], QueryTxCmd = named [], QueryBlockResultsCmd = named [],
     GetSignCommand = named [], GetSignBatchCommand = named [], GetMultiSignCommand = named [],
     GetMultiSignBatchCmd = named [], GetValidateSignaturesCommand = named [], GetBroadcastCommand = named [],
     GetEncodeCommand = named [], GetDecodeCommand = named [], GetSimulateCmd = named []\<rparr>"

lemma sample_apart:
  "sdk_apart sample_commands sample_sdk [] () () (named ''start'') [named ''export'']"
proof -
  have "adds_start sample_commands [] (named ''start'') [named ''export'']"
    by (simp add: adds_start_def sample_commands_def answers_def named_def)
  then show ?thesis
    by (simp add: sdk_apart_def) (simp add: sdk_trees_def queryCommand_def txCommand_def sample_commands_def
        named_def answers_def sample_sdk_def FlagSocketPath_def)
qed

lemma sample_command_at:
  "command_at [] (root_commands sample_commands sample_sdk [] () () scalerized_Cmd) [''export''] =
     Some (named ''export'', [(''home'', StringFlag ''/root'')])"
  "command_at [] (root_commands sample_commands sample_sdk [] () () scalerized_Cmd) [''start''] =
     Some (add_persistent start_flags (named ''start''), start_flags @ [(''home'', StringFlag ''/root'')])"
  by code_simp+

theorem only_start_makes_an_app_witness:
  "newApp journal_api (sample_env\<lparr>options := flag_options [(''home'', StringFlag ''/root'')] Map.empty\<rparr>) = Panic \<and>
   flag_options (start_flags @ [(''home'', StringFlag ''/root'')]) [FlagSocketPath \<mapsto> StringFlag ''s''] FlagSocketPath = Some ''s''"
proof
  have "parsed [(''home'', StringFlag ''/root'')] Map.empty" by (simp add: parsed_def)
  moreover have "\<not> answers (hd [''export'']) (named ''start'')" by (simp add: answers_def named_def)
  ultimately show "newApp journal_api (sample_env\<lparr>options := flag_options [(''home'', StringFlag ''/root'')] Map.empty\<rparr>) = Panic"
    by (intro only_start_makes_an_app [OF sample_apart sample_command_at(1),
        THEN conjunct2, THEN mp, THEN conjunct1]) simp_all
  have "parsed (start_flags @ [(''home'', StringFlag ''/root'')]) [FlagSocketPath \<mapsto> StringFlag ''s'']"
    by (auto simp: parsed_def start_flags_def flag_defs)
  then have "list_all (\<lambda>name. options (sample_env\<lparr>options := flag_options (start_flags @ [(''home'', StringFlag ''/root'')])
        [FlagSocketPath \<mapsto> StringFlag ''s'']\<rparr>) name =
      Some (string_of [FlagSocketPath \<mapsto> StringFlag ''s''] name (the (default_flags name)))) (map fst start_flags)"
    by (intro only_start_makes_an_app [OF sample_apart sample_command_at(2),
        THEN conjunct1, THEN mp]) simp_all
  then show "flag_options (start_flags @ [(''home'', StringFlag ''/root'')]) [FlagSocketPath \<mapsto> StringFlag ''s''] FlagSocketPath = Some ''s''"
    by (auto simp: list_all_iff start_flags_def string_of_def)
qed

end
