(* ===== verification/Cmd_Main.thy ===== *)
theory Cmd_Main imports Cmd_Root begin

text \<open>
  The start of the program: the packages' \<open>init\<close> functions (\<open>app/params/config.go\<close>,
  \<open>app/app.go\<close>), \<open>main\<close> (\<open>cmd/scalerized/main.go\<close>) and the root command
  (\<open>cmd/scalerized/cmd/root.go\<close>). The world is the SDK's configuration, one object of the
  process, and everything else. Dependency injection, the readers of flags and configuration
  files, and the execution of a command are the record \<open>root_api\<close>; nothing is assumed of it. What
  is assumed of the configuration is \<open>config_laws\<close>: its setters set, and panic once it is sealed.
\<close>

section \<open>The context of the client\<close>

text \<open>The fields the code sets; the same standard input and account retriever are in every
  context, and what only the SDK sets is \<open>ctx_rest\<close>.\<close>

record ('cd, 'ir, 'am, 'tc, 'o) client_context =
  Codec :: 'cd
  InterfaceRegistry :: 'ir
  LegacyAmino :: 'am
  HomeDir :: string
  Viper :: string
  TxConfig :: "'tc option"
  ctx_rest :: 'o

record 'y comet_config =
  TimeoutCommit :: int
  LogLevel :: string
  comet_rest :: 'y

record ('c, 'w, 'cd, 'ir, 'am, 'tc, 'o, 'to, 'f, 'y, 'ao, 'm) root_api =
  GetNodeHomeDirectory :: "string \<Rightarrow> string + string"
  new_context :: 'o
  ReadFromClientConfig :: "('cd, 'ir, 'am, 'tc, 'o) client_context \<Rightarrow> 'w \<Rightarrow>
    (('cd, 'ir, 'am, 'tc, 'o) client_context \<times> string option) \<times> 'w"
  WithCoinMetadataQuery :: "('cd, 'ir, 'am, 'tc, 'o) client_context \<Rightarrow> 'to \<Rightarrow> 'to"
  NewTxConfigWithOptions :: "'cd \<Rightarrow> 'to \<Rightarrow> string + 'tc"
  depinject_Inject :: "('cd \<Rightarrow> 'ir \<Rightarrow> 'to \<Rightarrow> 'am \<Rightarrow> ('w, ('cd, 'ir, 'am, 'tc, 'o) client_context) call) \<Rightarrow>
    ('w, 'ao \<times> 'm \<times> ('cd, 'ir, 'am, 'tc, 'o) client_context) call"
  EnhanceRootCommand :: "'ao \<Rightarrow> command \<Rightarrow> ('w, command) call"
  SetOutputs :: "'f \<Rightarrow> 'w \<Rightarrow> 'w"
  WithCmdContext :: "'f \<Rightarrow> ('cd, 'ir, 'am, 'tc, 'o) client_context \<Rightarrow> ('cd, 'ir, 'am, 'tc, 'o) client_context"
  ReadPersistentCommandFlags :: "'f \<Rightarrow> ('cd, 'ir, 'am, 'tc, 'o) client_context \<Rightarrow>
    string + ('cd, 'ir, 'am, 'tc, 'o) client_context"
  SetCmdClientContextHandler :: "('cd, 'ir, 'am, 'tc, 'o) client_context \<Rightarrow> 'f \<Rightarrow> 'w \<Rightarrow> (string + unit) \<times> 'w"
  DefaultServerConfig :: app_config
  DefaultCometConfig :: "'y comet_config"
  InterceptConfigsPreRunHandler :: "'f \<Rightarrow> app_config \<Rightarrow> 'y comet_config \<Rightarrow> 'w \<Rightarrow> (string + unit) \<times> 'w"
  Execute :: "command \<Rightarrow> string \<Rightarrow> string \<Rightarrow> ('c \<times> 'w, unit) call"
  Fprintln :: "string \<Rightarrow> 'w \<Rightarrow> 'w"

section \<open>The root command\<close>

text \<open>The error of reading the configuration file is dropped, and the context it comes with is used.\<close>

definition ProvideClientContext ::
  "('c, 'w, 'cd, 'ir, 'am, 'tc, 'o, 'to, 'f, 'y, 'ao, 'm) root_api \<Rightarrow> string \<Rightarrow>
   'cd \<Rightarrow> 'ir \<Rightarrow> 'to \<Rightarrow> 'am \<Rightarrow> ('w, ('cd, 'ir, 'am, 'tc, 'o) client_context) call" where
  "ProvideClientContext api home appCodec interfaceRegistry txConfigOpts legacyAmino w =
     (let clientCtx = \<lparr>Codec = appCodec, InterfaceRegistry = interfaceRegistry, LegacyAmino = legacyAmino,
            HomeDir = home, Viper = ''SCALERIZE'', TxConfig = None, ctx_rest = new_context api\<rparr> in
      (case ReadFromClientConfig api clientCtx w of
         ((clientCtx, _), w1) \<Rightarrow>
           (case NewTxConfigWithOptions api (Codec clientCtx) (WithCoinMetadataQuery api clientCtx txConfigOpts) of
              Inl err \<Rightarrow> (Panic, w1)
            | Inr txConfig \<Rightarrow> (Ret (Inr (clientCtx\<lparr>TxConfig := Some txConfig\<rparr>)), w1))))"

definition server_config ::
  "('c, 'w, 'cd, 'ir, 'am, 'tc, 'o, 'to, 'f, 'y, 'ao, 'm) root_api \<Rightarrow> app_config" where
  "server_config api = (DefaultServerConfig api)\<lparr>MinGasPrices := ''0scalerize''\<rparr>"

definition comet_config_of ::
  "('c, 'w, 'cd, 'ir, 'am, 'tc, 'o, 'to, 'f, 'y, 'ao, 'm) root_api \<Rightarrow> 'y comet_config" where
  "comet_config_of api = (DefaultCometConfig api)\<lparr>TimeoutCommit := 3 * 10 ^ 9,
     LogLevel := ''*:error,p2p:info,state:info''\<rparr>"

text \<open>
  What runs before every command. The variable \<open>clientCtx\<close> of \<open>NewRootCmd\<close> is captured; the
  second assignment in the function declares another one, which shadows it.
\<close>

definition PersistentPreRunE ::
  "('c, 'w, 'cd, 'ir, 'am, 'tc, 'o, 'to, 'f, 'y, 'ao, 'm) root_api \<Rightarrow> 'f \<Rightarrow>
   (('cd, 'ir, 'am, 'tc, 'o) client_context \<times> 'w, unit) call" where
  "PersistentPreRunE api cmd = (\<lambda>(captured, w).
     let w = SetOutputs api cmd w; captured = WithCmdContext api cmd captured in
     case bind_call (lift_sum (ReadPersistentCommandFlags api cmd captured)) (\<lambda>clientCtx.
          bind_call (lift_world (\<lambda>w. case ReadFromClientConfig api clientCtx w of
             ((ctx, None), w1) \<Rightarrow> (Inr ctx, w1) | ((ctx, Some err), w1) \<Rightarrow> (Inl err, w1))) (\<lambda>clientCtx.
          bind_call (lift_world (SetCmdClientContextHandler api clientCtx cmd)) (\<lambda>_.
          lift_world (InterceptConfigsPreRunHandler api cmd (server_config api) (comet_config_of api))))) w
     of (r, w1) \<Rightarrow> (r, (captured, w1)))"

text \<open>
  The function succeeds exactly if each of its four steps does; the server then gets the
  overwritten configurations, and the captured context only that of the command: what is read
  from the flags and the configuration file reaches the command through its own context.
\<close>

lemma PersistentPreRunE_Ret_iff:
  "PersistentPreRunE api cmd (captured, w) = (Ret (Inr u), (captured1, w3)) \<longleftrightarrow>
     captured1 = WithCmdContext api cmd captured \<and>
     (\<exists>ctx ctx1 w1 w2. ReadPersistentCommandFlags api cmd captured1 = Inr ctx \<and>
        ReadFromClientConfig api ctx (SetOutputs api cmd w) = ((ctx1, None), w1) \<and>
        SetCmdClientContextHandler api ctx1 cmd w1 = (Inr (), w2) \<and>
        InterceptConfigsPreRunHandler api cmd (server_config api) (comet_config_of api) w2 = (Inr (), w3))"
  by (auto simp: PersistentPreRunE_def Let_def bind_call_def lift_sum_def lift_world_def
      split: prod.splits sum.splits option.splits outcome.splits)

section \<open>The program\<close>

definition on_config :: "('c, 'a) call \<Rightarrow> ('c \<times> 'w, 'a) call" where
  "on_config m = (\<lambda>(c, w). case m c of (r, c1) \<Rightarrow> (r, (c1, w)))"

definition on_world :: "('w, 'a) call \<Rightarrow> ('c \<times> 'w, 'a) call" where
  "on_world m = (\<lambda>(c, w). case m w of (r, w1) \<Rightarrow> (r, (c, w1)))"

definition initRootCmd :: "'c config_api \<Rightarrow> ('tc, 'm) sdk_commands \<Rightarrow> sdk_names \<Rightarrow> string \<Rightarrow>
    'tc \<Rightarrow> 'm \<Rightarrow> command \<Rightarrow> ('c \<times> 'w, command) call" where
  "initRootCmd cfg sdk names home txConfig basicManager rootCmd = (\<lambda>(c, w).
     (Ret (Inr (root_commands sdk names home txConfig basicManager rootCmd)), (Seal cfg c, w)))"

definition NewRootCmd ::
  "'c config_api \<Rightarrow> ('c, 'w, 'cd, 'ir, 'am, 'tc, 'o, 'to, 'f, 'y, 'ao, 'm) root_api \<Rightarrow>
   ('tc option, 'm) sdk_commands \<Rightarrow> sdk_names \<Rightarrow> string \<Rightarrow> ('c \<times> 'w, command) call" where
  "NewRootCmd cfg api sdk names home =
     bind_call (or_panic (on_world (depinject_Inject api (ProvideClientContext api home))))
       (\<lambda>(autoCliOpts, moduleBasicManager, clientCtx).
     bind_call (initRootCmd cfg sdk names home (TxConfig clientCtx) moduleBasicManager scalerized_Cmd) (\<lambda>rootCmd.
     or_panic (on_world (EnhanceRootCommand api autoCliOpts rootCmd))))"

text \<open>The result is the exit status.\<close>

definition main ::
  "'c config_api \<Rightarrow> ('c, 'w, 'cd, 'ir, 'am, 'tc, 'o, 'to, 'f, 'y, 'ao, 'm) root_api \<Rightarrow>
   ('tc option, 'm) sdk_commands \<Rightarrow> sdk_names \<Rightarrow> string \<Rightarrow> string \<Rightarrow> ('c \<times> 'w, nat) call" where
  "main cfg api sdk names EnvPrefix home =
     bind_call (on_config (SetAddressPrefixes cfg)) (\<lambda>_.
     bind_call (NewRootCmd cfg api sdk names home) (\<lambda>rootCmd (c, w).
     case Execute api rootCmd EnvPrefix home (c, w) of
       (Ret (Inr _), w1) \<Rightarrow> (Ret (Inr 0), w1)
     | (Ret (Inl err), (c1, w1)) \<Rightarrow> (Ret (Inr 1), (c1, Fprintln api err w1))
     | (Panic, w1) \<Rightarrow> (Panic, w1)
     | (Blocked, w1) \<Rightarrow> (Blocked, w1)))"

text \<open>\<open>init\<close> of \<open>app/app.go\<close>: the prefix of environment variables, and the home directory.\<close>

definition app_init :: "('c, 'w, 'cd, 'ir, 'am, 'tc, 'o, 'to, 'f, 'y, 'ao, 'm) root_api \<Rightarrow>
    ('v, string \<times> string) call" where
  "app_init api =
     bind_call (or_panic (lift_sum (GetNodeHomeDirectory api ''.scalerized''))) (\<lambda>home.
     return_call (''SCALERIZE'', home))"

definition program ::
  "'c config_api \<Rightarrow> ('c, 'w, 'cd, 'ir, 'am, 'tc, 'o, 'to, 'f, 'y, 'ao, 'm) root_api \<Rightarrow>
   ('tc option, 'm) sdk_commands \<Rightarrow> sdk_names \<Rightarrow> ('c \<times> 'w, nat) call" where
  "program cfg api sdk names =
     bind_call (on_config (params_init cfg)) (\<lambda>_.
     bind_call (app_init api) (\<lambda>(EnvPrefix, home). main cfg api sdk names EnvPrefix home))"


section \<open>The configuration of the SDK\<close>

record sdk_config =
  account_prefix :: "string \<times> string"
  validator_prefix :: "string \<times> string"
  consensus_prefix :: "string \<times> string"
  verifier :: "bytes \<Rightarrow> address_error option"
  denoms :: "string set"
  sealed :: bool

text \<open>What the code relies on, over the contents \<open>view\<close> of the configuration.\<close>

definition sets :: "('c \<Rightarrow> sdk_config) \<Rightarrow> ('c \<Rightarrow> 'c option) \<Rightarrow> (sdk_config \<Rightarrow> sdk_config) \<Rightarrow> bool" where
  "sets view f upd \<longleftrightarrow> (\<forall>c. if sealed (view c) then f c = None
     else \<exists>c1. f c = Some c1 \<and> view c1 = upd (view c))"

definition config_laws :: "'c config_api \<Rightarrow> ('c \<Rightarrow> sdk_config) \<Rightarrow> bool" where
  "config_laws cfg view \<longleftrightarrow>
     (\<forall>a p. sets view (SetBech32PrefixForAccount cfg a p) (account_prefix_update (\<lambda>_. (a, p)))) \<and>
     (\<forall>a p. sets view (SetBech32PrefixForValidator cfg a p) (validator_prefix_update (\<lambda>_. (a, p)))) \<and>
     (\<forall>a p. sets view (SetBech32PrefixForConsensusNode cfg a p) (consensus_prefix_update (\<lambda>_. (a, p)))) \<and>
     (\<forall>v. sets view (SetAddressVerifier cfg v) (verifier_update (\<lambda>_. v))) \<and>
     (\<forall>c. case RegisterDenom cfg CoinUnit 1 c of (r, c1) \<Rightarrow>
        if CoinUnit \<in> denoms (view c) then r \<noteq> Inr () \<and> view c1 = view c
        else r = Inr () \<and> view c1 = (view c)\<lparr>denoms := insert CoinUnit (denoms (view c))\<rparr>) \<and>
     (\<forall>c. view (Seal cfg c) = (view c)\<lparr>sealed := True\<rparr>)"

lemma setting_sets:
  assumes "sets view f upd"
  shows "\<not> sealed (view c) \<Longrightarrow> \<exists>c1. setting f c = (Ret (Inr ()), c1) \<and> view c1 = upd (view c)"
    and "sealed (view c) \<Longrightarrow> setting f c = (Panic, c)"
  using assms by (auto simp: sets_def setting_def split: if_splits dest!: spec [of _ c])

definition scalerize_config :: "nat \<Rightarrow> sdk_config \<Rightarrow> sdk_config" where
  "scalerize_config n s = s\<lparr>account_prefix := (Bech32PrefixAccAddr, Bech32PrefixAccPub),
     validator_prefix := (Bech32PrefixValAddr, Bech32PrefixValPub),
     consensus_prefix := (Bech32PrefixConsAddr, Bech32PrefixConsPub), verifier := AddressVerifier n\<rparr>"

lemma SetAddressPrefixes_unsealed:
  assumes "config_laws cfg view" "\<not> sealed (view c)"
  shows "\<exists>c1. SetAddressPrefixes cfg c = (Ret (Inr ()), c1) \<and>
    view c1 = scalerize_config (MaxAddrLen cfg) (view c)"
proof -
  note laws = assms(1) [unfolded config_laws_def]
  obtain c1 where 1: "setting (SetBech32PrefixForAccount cfg Bech32PrefixAccAddr Bech32PrefixAccPub) c = (Ret (Inr ()), c1)"
    "view c1 = (view c)\<lparr>account_prefix := (Bech32PrefixAccAddr, Bech32PrefixAccPub)\<rparr>"
    using setting_sets(1) [OF laws [THEN conjunct1, rule_format] assms(2)] by blast
  then have "\<not> sealed (view c1)" using assms(2) by simp
  from setting_sets(1) [OF laws [THEN conjunct2, THEN conjunct1, rule_format] this]
  obtain c2 where 2: "setting (SetBech32PrefixForValidator cfg Bech32PrefixValAddr Bech32PrefixValPub) c1 = (Ret (Inr ()), c2)"
    "view c2 = (view c1)\<lparr>validator_prefix := (Bech32PrefixValAddr, Bech32PrefixValPub)\<rparr>" by blast
  then have "\<not> sealed (view c2)" using 1(2) assms(2) by simp
  from setting_sets(1) [OF laws [THEN conjunct2, THEN conjunct2, THEN conjunct1, rule_format] this]
  obtain c3 where 3: "setting (SetBech32PrefixForConsensusNode cfg Bech32PrefixConsAddr Bech32PrefixConsPub) c2 = (Ret (Inr ()), c3)"
    "view c3 = (view c2)\<lparr>consensus_prefix := (Bech32PrefixConsAddr, Bech32PrefixConsPub)\<rparr>" by blast
  then have "\<not> sealed (view c3)" using 2(2) 1(2) assms(2) by simp
  from setting_sets(1) [OF laws [THEN conjunct2, THEN conjunct2, THEN conjunct2, THEN conjunct1, rule_format] this]
  obtain c4 where 4: "setting (SetAddressVerifier cfg (AddressVerifier (MaxAddrLen cfg))) c3 = (Ret (Inr ()), c4)"
    "view c4 = (view c3)\<lparr>verifier := AddressVerifier (MaxAddrLen cfg)\<rparr>" by blast
  show ?thesis
    using 1 2 3 4 by (simp add: SetAddressPrefixes_def bind_call_def scalerize_config_def)
qed

lemma SetAddressPrefixes_sealed:
  assumes "config_laws cfg view" "sealed (view c)"
  shows "SetAddressPrefixes cfg c = (Panic, c)"
  using setting_sets(2) [OF assms(1) [unfolded config_laws_def, THEN conjunct1, rule_format] assms(2)]
  by (simp add: SetAddressPrefixes_def bind_call_def)

lemma RegisterDenoms_new:
  assumes "config_laws cfg view" "CoinUnit \<notin> denoms (view c)"
  shows "\<exists>c1. RegisterDenoms cfg c = (Ret (Inr ()), c1) \<and>
    view c1 = (view c)\<lparr>denoms := insert CoinUnit (denoms (view c))\<rparr>"
proof -
  have "case RegisterDenom cfg CoinUnit 1 c of (r, c1) \<Rightarrow>
      r = Inr () \<and> view c1 = (view c)\<lparr>denoms := insert CoinUnit (denoms (view c))\<rparr>"
    using assms(1) [unfolded config_laws_def, THEN conjunct2, THEN conjunct2, THEN conjunct2, THEN conjunct2,
      THEN conjunct1, rule_format, of c] assms(2) by (simp add: prod.case_eq_if)
  then show ?thesis by (auto simp: RegisterDenoms_def or_panic_def lift_world_def split: prod.splits)
qed

section \<open>Properties\<close>

text \<open>
  C23: the program runs its command with the chain's own addresses, sealed. If the packages are
  loaded with an open configuration that does not have the coin yet, the home directory is
  found, and injection and the automatic commands return no error, then no panic comes before
  the command: the root command with all the commands of \<open>initRootCmd\<close> is executed, with a sealed
  configuration that has the prefixes, the verifier and the coin of \<open>params\<close>; the exit status
  is 1 after an error and 0 otherwise. Setting the prefixes a third time would panic.
\<close>

theorem program_executes_sealed:
  assumes "config_laws cfg view" and "\<not> sealed (view c)" and "CoinUnit \<notin> denoms (view c)"
    and "GetNodeHomeDirectory api ''.scalerized'' = Inr home"
    and "depinject_Inject api (ProvideClientContext api home) w = (Ret (Inr (opts, m, ctx)), w1)"
    and "EnhanceRootCommand api opts (root_commands sdk names home (TxConfig ctx) m scalerized_Cmd) w1 =
      (Ret (Inr rootCmd), w2)"
  shows "\<exists>c1. view c1 = (scalerize_config (MaxAddrLen cfg) (view c))
      \<lparr>denoms := insert CoinUnit (denoms (view c)), sealed := True\<rparr> \<and>
    program cfg api sdk names (c, w) =
      (case Execute api rootCmd ''SCALERIZE'' home (c1, w2) of
         (Ret (Inr _), w3) \<Rightarrow> (Ret (Inr 0), w3)
       | (Ret (Inl err), (c3, w3)) \<Rightarrow> (Ret (Inr 1), (c3, Fprintln api err w3))
       | (Panic, w3) \<Rightarrow> (Panic, w3)
       | (Blocked, w3) \<Rightarrow> (Blocked, w3)) \<and>
    SetAddressPrefixes cfg c1 = (Panic, c1)"
proof -
  obtain ca where a: "SetAddressPrefixes cfg c = (Ret (Inr ()), ca)"
    "view ca = scalerize_config (MaxAddrLen cfg) (view c)"
    using SetAddressPrefixes_unsealed [OF assms(1,2)] by blast
  then have "CoinUnit \<notin> denoms (view ca)" using assms(3) by (simp add: scalerize_config_def)
  from RegisterDenoms_new [OF assms(1) this]
  obtain cb where b: "RegisterDenoms cfg ca = (Ret (Inr ()), cb)"
    "view cb = (view ca)\<lparr>denoms := insert CoinUnit (denoms (view ca))\<rparr>" by blast
  then have "\<not> sealed (view cb)" using a(2) assms(2) by (simp add: scalerize_config_def)
  from SetAddressPrefixes_unsealed [OF assms(1) this]
  obtain cc where c: "SetAddressPrefixes cfg cb = (Ret (Inr ()), cc)"
    "view cc = scalerize_config (MaxAddrLen cfg) (view cb)" by blast
  have seal: "view (Seal cfg cc) = (view cc)\<lparr>sealed := True\<rparr>" using assms(1) by (simp add: config_laws_def)
  have view: "view (Seal cfg cc) = (scalerize_config (MaxAddrLen cfg) (view c))
      \<lparr>denoms := insert CoinUnit (denoms (view c)), sealed := True\<rparr>"
    by (simp add: seal c(2) b(2) a(2) scalerize_config_def)
  have root: "NewRootCmd cfg api sdk names home (cc, w) = (Ret (Inr rootCmd), (Seal cfg cc, w2))"
    using assms(5,6) by (simp add: NewRootCmd_def initRootCmd_def bind_call_def or_panic_def on_world_def)
  have "program cfg api sdk names (c, w) =
      (case Execute api rootCmd ''SCALERIZE'' home (Seal cfg cc, w2) of
         (Ret (Inr _), w3) \<Rightarrow> (Ret (Inr 0), w3)
       | (Ret (Inl err), (c3, w3)) \<Rightarrow> (Ret (Inr 1), (c3, Fprintln api err w3))
       | (Panic, w3) \<Rightarrow> (Panic, w3)
       | (Blocked, w3) \<Rightarrow> (Blocked, w3))"
    by (simp add: program_def main_def params_init_def app_init_def bind_call_def on_config_def or_panic_def
        lift_sum_def return_call_def a(1) b(1) c(1) assms(4) root)
  then show ?thesis using view SetAddressPrefixes_sealed [OF assms(1)] by fastforce
qed

text \<open>A configuration that is its contents, and an SDK that answers.\<close>

definition sample_cfg :: "sdk_config config_api" where
  "sample_cfg = \<lparr>
     SetBech32PrefixForAccount = (\<lambda>a p c. if sealed c then None else Some (c\<lparr>account_prefix := (a, p)\<rparr>)),
     SetBech32PrefixForValidator = (\<lambda>a p c. if sealed c then None else Some (c\<lparr>validator_prefix := (a, p)\<rparr>)),
     SetBech32PrefixForConsensusNode = (\<lambda>a p c. if sealed c then None else Some (c\<lparr>consensus_prefix := (a, p)\<rparr>)),
     SetAddressVerifier = (\<lambda>v c. if sealed c then None else Some (c\<lparr>verifier := v\<rparr>)),
     RegisterDenom = (\<lambda>d n c. if d \<in> denoms c then (Inl ''registered'', c)
       else (Inr (), c\<lparr>denoms := insert d (denoms c)\<rparr>)),
     MaxAddrLen = 255, Seal = sealed_update (\<lambda>_. True)\<rparr>"

lemma sample_config_laws: "config_laws sample_cfg (\<lambda>c. c)"
  by (simp add: config_laws_def sets_def sample_cfg_def)

definition open_config :: sdk_config where
  "open_config = \<lparr>account_prefix = (''cosmos'', ''cosmospub''), validator_prefix = ([], []),
     consensus_prefix = ([], []), verifier = (\<lambda>_. None), denoms = {}, sealed = False\<rparr>"

text \<open>Executing records the contents of the configuration.\<close>

definition sample_root ::
  "(sdk_config, (string \<times> bool) list, unit, unit, unit, unit, unit, unit, unit, unit, unit, unit) root_api" where
  "sample_root = \<lparr>GetNodeHomeDirectory = Inr, new_context = (),
     ReadFromClientConfig = (\<lambda>ctx w. ((ctx, Some ''no file''), w)), WithCoinMetadataQuery = (\<lambda>_ x. x),
     NewTxConfigWithOptions = (\<lambda>_ _. Inr ()),
     depinject_Inject = (\<lambda>provide. bind_call (provide () () () ()) (\<lambda>ctx. return_call ((), (), ctx))),
     EnhanceRootCommand = (\<lambda>_ c. return_call c), SetOutputs = (\<lambda>_ w. w), WithCmdContext = (\<lambda>_ ctx. ctx),
     ReadPersistentCommandFlags = (\<lambda>_. Inr), SetCmdClientContextHandler = (\<lambda>_ _ w. (Inr (), w)),
     DefaultServerConfig = \<lparr>MinGasPrices = [], API_Enable = False, Telemetry_Enabled = False,
       PrometheusRetentionTime = 0, EnableHostnameLabel = False, GlobalLabels = []\<rparr>,
     DefaultCometConfig = \<lparr>TimeoutCommit = 5 * 10 ^ 9, LogLevel = ''info'', comet_rest = ()\<rparr>,
     InterceptConfigsPreRunHandler = (\<lambda>_ _ _ w. (Inr (), w)),
     Execute = (\<lambda>cmd env home (c, w). (Ret (Inl ''unknown command''), (c, w @ [(fst (account_prefix c), sealed c)]))),
     Fprintln = (\<lambda>s w. w @ [(s, True)])\<rparr>"

theorem program_executes_sealed_witness:
  "\<exists>c1. program sample_cfg sample_root sample_commands sample_sdk (open_config, []) =
     (Ret (Inr 1), (c1, [(''scalerize'', True), (''unknown command'', True)])) \<and> sealed c1"
proof -
  let ?ctx = "\<lparr>Codec = (), InterfaceRegistry = (), LegacyAmino = (), HomeDir = ''.scalerized'',
    Viper = ''SCALERIZE'', TxConfig = Some (), ctx_rest = ()\<rparr>"
  have "depinject_Inject sample_root (ProvideClientContext sample_root ''.scalerized'') [] =
      (Ret (Inr ((), (), ?ctx)), [])"
    by (simp add: sample_root_def ProvideClientContext_def bind_call_def return_call_def)
  moreover have "EnhanceRootCommand sample_root () cmd [] = (Ret (Inr cmd), [])" for cmd
    by (simp add: sample_root_def return_call_def)
  moreover have "GetNodeHomeDirectory sample_root ''.scalerized'' = Inr ''.scalerized''" by (simp add: sample_root_def)
  moreover have "\<not> sealed open_config" "CoinUnit \<notin> denoms open_config" by (simp_all add: open_config_def)
  ultimately obtain c1 where c1: "c1 = (scalerize_config (MaxAddrLen sample_cfg) open_config)
      \<lparr>denoms := insert CoinUnit (denoms open_config), sealed := True\<rparr>"
    "program sample_cfg sample_root sample_commands sample_sdk (open_config, []) =
      (case Execute sample_root (root_commands sample_commands sample_sdk ''.scalerized'' (TxConfig ?ctx) () scalerized_Cmd)
           ''SCALERIZE'' ''.scalerized'' (c1, []) of
         (Ret (Inr _), w3) \<Rightarrow> (Ret (Inr 0), w3)
       | (Ret (Inl err), (c3, w3)) \<Rightarrow> (Ret (Inr 1), (c3, Fprintln sample_root err w3))
       | (Panic, w3) \<Rightarrow> (Panic, w3)
       | (Blocked, w3) \<Rightarrow> (Blocked, w3))"
    using program_executes_sealed [OF sample_config_laws, of open_config sample_root "''.scalerized''" "[]" "()" "()" ?ctx "[]"
      sample_commands sample_sdk] by blast
  have "fst (account_prefix c1) = ''scalerize''" "sealed c1"
    by (simp_all add: c1(1) scalerize_config_def Bech32PrefixAccAddr_def)
  then show ?thesis using c1(2) by (simp add: sample_root_def)
qed

end
